(* ===== verification/TxBase.thy ===== *)
theory TxBase
  imports Main
begin

text \<open>
  Prelude of the TxMEx development.  It names the types shared by the components
  (ledger addresses and transaction ids are JavaScript strings), the outcomes of
  JavaScript evaluation the code relies on (numbers that may be \<open>NaN\<close>, the three
  kinds of exceptions the code can raise), and the JavaScript primitives used by
  \<^verbatim>\<open>src/TxMEx.js\<close>: \<^verbatim>\<open>Number.prototype.toString(16)\<close>, \<^verbatim>\<open>parseInt(s, 16)\<close>,
  \<^verbatim>\<open>String.prototype.charAt\<close>, \<^verbatim>\<open>substring\<close>, \<^verbatim>\<open>slice\<close>, the equality test of
  \<^verbatim>\<open>localeCompare\<close>, and the value
  \<^verbatim>\<open>"undefined"\<close> that string concatenation produces for a missing array element.
  Strings are \<open>char list\<close>; the development treats the JavaScript UTF-16 string as
  its sequence of code units, which are bytes on the ASCII payloads considered.
  The decimal printing of numbers (\<^verbatim>\<open>"" + n\<close>) and the value of a decimal
  numeral are here too.  The lemmas are the ones the component theories share:
  hexadecimal and decimal printing read back, and out-of-range reads.
\<close>

named_theorems js_simps \<open>evaluation rules of the JavaScript primitives\<close>

type_synonym addr = string
type_synonym txid = string

text \<open>A JavaScript number as produced by \<^verbatim>\<open>parseInt\<close>: a non-negative integer or \<open>NaN\<close>.\<close>

datatype js_num = Num nat | NaN

text \<open>The exceptions the code can raise at run time; each carries its message.\<close>

datatype js_exn = TypeError string | RangeError string | ReferenceError string

subsection \<open>Hexadecimal digits\<close>

definition hex_digit_value :: "char \<Rightarrow> nat option" where
  "hex_digit_value c =
     (let n = (of_char c :: nat) in
      if 48 \<le> n \<and> n \<le> 57 then Some (n - 48)
      else if 97 \<le> n \<and> n \<le> 102 then Some (n - 87)
      else if 65 \<le> n \<and> n \<le> 70 then Some (n - 55)
      else None)"

text \<open>The lower-case digit \<^verbatim>\<open>toString\<close> prints for a value below 16.\<close>

definition hex_digits :: string where
  "hex_digits = ''0123456789abcdef''"

definition hex_char :: "nat \<Rightarrow> char" where
  "hex_char d = hex_digits ! d"

text \<open>\<^verbatim>\<open>n.toString(16)\<close> for a non-negative integer \<open>n\<close>: no leading zeros.\<close>

fun to_hex :: "nat \<Rightarrow> string" where
  "to_hex n = (if n < 16 then [hex_char n] else to_hex (n div 16) @ [hex_char (n mod 16)])"

declare to_hex.simps [simp del]

text \<open>
  \<^verbatim>\<open>parseInt(s, 16)\<close>: the value of the longest prefix of hexadecimal digits, \<open>NaN\<close>
  when there is none.  (Leading blanks, a sign and a \<^verbatim>\<open>0x\<close> prefix, which
  \<^verbatim>\<open>parseInt\<close> also accepts, never occur in front of a digit in the strings of at most
  one character the code parses, where this definition is exact.)
\<close>

definition parseInt16 :: "string \<Rightarrow> js_num" where
  "parseInt16 s =
     (let ds = takeWhile (\<lambda>c. hex_digit_value c \<noteq> None) s in
      if ds = [] then NaN
      else Num (foldl (\<lambda>acc c. 16 * acc + the (hex_digit_value c)) 0 ds))"

subsection \<open>String primitives\<close>

text \<open>\<^verbatim>\<open>s.charAt(i)\<close>: the one-character string at \<open>i\<close>, the empty string past the end.\<close>

definition js_charAt :: "string \<Rightarrow> nat \<Rightarrow> string" where
  "js_charAt s i = (if i < length s then [s ! i] else [])"

text \<open>\<^verbatim>\<open>s.substring(i, j)\<close> for \<open>i \<le> j\<close>, clamped at the end of the string.\<close>

definition js_substring :: "string \<Rightarrow> nat \<Rightarrow> nat \<Rightarrow> string" where
  "js_substring s i j = take (j - i) (drop i s)"

text \<open>\<^verbatim>\<open>s.slice(i)\<close> for \<open>i \<ge> 0\<close>.\<close>

definition js_slice :: "string \<Rightarrow> nat \<Rightarrow> string" where
  "js_slice s i = drop i s"

text \<open>
  \<^verbatim>\<open>a.localeCompare(b) == 0\<close>.  Node.js compares with the ICU collator of the
  default locale at tertiary strength, which is the Unicode default collation on the
  characters up to 255: two strings are equal for it when they are equal once the
  completely ignorable characters are removed.  Those are the control characters
  U+0000--U+0008, U+000E--U+001F, U+007F--U+0084, U+0086--U+009F and the soft hyphen
  U+00AD (the tab, line breaks and U+0085 are not ignorable).  Case and accents are
  tertiary and secondary differences, so no two other characters compare equal.
\<close>

definition collation_ignorable :: "char \<Rightarrow> bool" where
  "collation_ignorable c =
     (let n = (of_char c :: nat) in
      n \<le> 8 \<or> (14 \<le> n \<and> n \<le> 31) \<or> (127 \<le> n \<and> n \<le> 159 \<and> n \<noteq> 133) \<or> n = 173)"

definition localeCompare_eq :: "string \<Rightarrow> string \<Rightarrow> bool" where
  "localeCompare_eq a b \<longleftrightarrow>
     filter (\<lambda>c. \<not> collation_ignorable c) a = filter (\<lambda>c. \<not> collation_ignorable c) b"

text \<open>
  \<^verbatim>\<open>"..." + xs[i]\<close> for an array of strings: past the end the element is
  \<^verbatim>\<open>undefined\<close>, which concatenation prints as \<^verbatim>\<open>"undefined"\<close>.
\<close>

definition js_str_index :: "string list \<Rightarrow> nat \<Rightarrow> string" where
  "js_str_index xs i = (if i < length xs then xs ! i else ''undefined'')"

text \<open>Decimal printing of a non-negative integer, as \<^verbatim>\<open>"" + n\<close> does.\<close>

fun nat_to_dec :: "nat \<Rightarrow> string" where
  "nat_to_dec n = (if n < 10 then [hex_char n] else nat_to_dec (n div 10) @ [hex_char (n mod 10)])"

declare nat_to_dec.simps [simp del]

text \<open>The value of a decimal digit.\<close>

definition dec_digit :: "char \<Rightarrow> nat option" where
  "dec_digit c = (case hex_digit_value c of Some d \<Rightarrow> if d < 10 then Some d else None | None \<Rightarrow> None)"

text \<open>\<^verbatim>\<open>Number(s)\<close> and \<^verbatim>\<open>parseInt(s)\<close> on a string of decimal digits.\<close>

definition dec_value :: "string \<Rightarrow> nat" where
  "dec_value s = foldl (\<lambda>acc c. acc * 10 + the (dec_digit c)) 0 s"

subsection \<open>Shared lemmas\<close>

lemma hex_digit_value_table: "list_all (\<lambda>d. hex_digit_value (hex_digits ! d) = Some d) [0..<16]"
  by (simp add: hex_digits_def hex_digit_value_def upt_rec)

lemma hex_digit_value_hex_char [simp]:
  "d < 16 \<Longrightarrow> hex_digit_value (hex_char d) = Some d"
  using hex_digit_value_table by (simp add: list_all_iff hex_char_def)

lemma to_hex_digit [simp, js_simps]: "n < 16 \<Longrightarrow> to_hex n = [hex_char n]"
  by (simp add: to_hex.simps)

lemma to_hex_nonempty [simp]: "to_hex n \<noteq> []"
  by (subst to_hex.simps) simp

lemma length_to_hex_pos [simp]: "1 \<le> length (to_hex n)"
  using to_hex_nonempty [of n] by (cases "to_hex n") auto

lemma length_to_hex_one_iff: "length (to_hex n) = 1 \<longleftrightarrow> n < 16"
proof (cases "n < 16")
  case True
  then show ?thesis by simp
next
  case False
  then have "length (to_hex n) = length (to_hex (n div 16)) + 1"
    by (simp add: to_hex.simps [of n])
  with False show ?thesis by simp
qed

lemma parseInt16_digit [simp, js_simps]: "d < 16 \<Longrightarrow> parseInt16 [hex_char d] = Num d"
  by (simp add: parseInt16_def)

lemma parseInt16_Nil [simp, js_simps]: "parseInt16 [] = NaN"
  by (simp add: parseInt16_def)

lemma js_charAt_past_end [simp, js_simps]: "length s \<le> i \<Longrightarrow> js_charAt s i = []"
  by (simp add: js_charAt_def)

lemma js_charAt_append_left [js_simps]:
  "i < length s \<Longrightarrow> js_charAt (s @ t) i = [s ! i]"
  by (simp add: js_charAt_def nth_append)

lemma js_charAt_append_right [js_simps]:
  "length s \<le> i \<Longrightarrow> js_charAt (s @ t) i = js_charAt t (i - length s)"
  by (auto simp add: js_charAt_def nth_append)

lemma js_str_index_in_range [simp, js_simps]: "i < length xs \<Longrightarrow> js_str_index xs i = xs ! i"
  by (simp add: js_str_index_def)

lemma js_str_index_past_end [simp, js_simps]:
  "length xs \<le> i \<Longrightarrow> js_str_index xs i = ''undefined''"
  by (simp add: js_str_index_def)

text \<open>Every character \<^verbatim>\<open>toString(16)\<close> prints is a digit, and the digits read back give the number.\<close>

lemma to_hex_digits_value:
  "list_all (\<lambda>c. hex_digit_value c \<noteq> None) (to_hex n) \<and>
   foldl (\<lambda>acc c. 16 * acc + the (hex_digit_value c)) 0 (to_hex n) = n"
proof (induction n rule: to_hex.induct)
  case (1 n)
  show ?case
  proof (cases "n < 16")
    case True
    then show ?thesis by simp
  next
    case False
    then have "to_hex n = to_hex (n div 16) @ [hex_char (n mod 16)]" by (simp add: to_hex.simps [of n])
    with "1.IH" False show ?thesis by simp
  qed
qed

lemma hex_digit_not_ignorable: "hex_digit_value c \<noteq> None \<Longrightarrow> \<not> collation_ignorable c"
  by (auto simp add: hex_digit_value_def collation_ignorable_def Let_def split: if_splits)

lemma to_hex_not_ignorable: "list_all (\<lambda>c. \<not> collation_ignorable c) (to_hex n)"
  using to_hex_digits_value [of n] hex_digit_not_ignorable by (auto simp add: list_all_iff)

lemma dec_digit_hex_char [simp]: "d < 10 \<Longrightarrow> dec_digit (hex_char d) = Some d"
  by (simp add: dec_digit_def)

lemma dec_value_snoc: "dec_value (xs @ [c]) = dec_value xs * 10 + the (dec_digit c)"
  by (simp add: dec_value_def)

lemma nat_to_dec_nonempty [simp]: "nat_to_dec n \<noteq> []"
  by (subst nat_to_dec.simps) simp

text \<open>Decimal printing reads back: every character is a digit and the value is \<open>n\<close>.\<close>

lemma nat_to_dec_digits: "dec_value (nat_to_dec n) = n \<and> list_all (\<lambda>c. dec_digit c \<noteq> None) (nat_to_dec n)"
proof (induction n rule: nat_to_dec.induct)
  case (1 n)
  show ?case
  proof (cases "n < 10")
    case True
    then show ?thesis by (simp add: nat_to_dec.simps [of n] dec_value_def)
  next
    case False
    then have "nat_to_dec n = nat_to_dec (n div 10) @ [hex_char (n mod 10)]"
      by (simp add: nat_to_dec.simps [of n])
    with "1.IH" False show ?thesis
      by (simp add: dec_value_snoc)
  qed
qed

text \<open>A string of decimal digits ends at the first non-digit that follows it.\<close>

lemma dec_digits_not_char:
  "list_all (\<lambda>c. dec_digit c \<noteq> None) xs \<Longrightarrow> dec_digit c = None \<Longrightarrow> takeWhile (\<lambda>x. x \<noteq> c) (xs @ c # ys) = xs"
  by (induction xs) auto

lemma dec_digits_drop_to_char:
  "list_all (\<lambda>c. dec_digit c \<noteq> None) xs \<Longrightarrow> dec_digit c = None \<Longrightarrow> dropWhile (\<lambda>x. x \<noteq> c) (xs @ c # ys) = c # ys"
  by (induction xs) auto

end
