(* ===== verification/Codec.thy ===== *)
theory Codec
  imports TxBase
begin

text \<open>
  Frame codec of \<^verbatim>\<open>src/TxMEx.js\<close>.  The protocol constants (lines 11--15); the
  encoder, which \<^verbatim>\<open>sendMsgTransaction\<close> writes inline (the prefix of lines 114--116
  and the data string of line 124); and the decoder, the parsing part of
  \<^verbatim>\<open>extractTMMessage\<close> (lines 76--80), whose result is the object
  \<^verbatim>\<open>{seq, len, msg}\<close>, here the record \<open>tm_frame\<close>.
  The lemmas show where the decoder reads the header: one position to the right of
  where the encoder writes it, as if the tag had three characters.
\<close>

subsection \<open>Protocol constants\<close>

definition TX_PREFIX :: string where
  "TX_PREFIX = ''TM''"

definition MAX_PAYLOAD_SIZE :: nat where
  "MAX_PAYLOAD_SIZE = 76"

text \<open>\<^verbatim>\<open>bitcore.Transaction.DUST_AMOUNT\<close>, 546 satoshis.\<close>

definition MIN_AMOUNT :: nat where
  "MIN_AMOUNT = 546"

definition MIN_FEE :: nat where
  "MIN_FEE = 3000"

definition MAX_SEND_RETRY :: nat where
  "MAX_SEND_RETRY = 3"

lemmas tx_constants = TX_PREFIX_def MAX_PAYLOAD_SIZE_def MIN_AMOUNT_def MIN_FEE_def MAX_SEND_RETRY_def

subsection \<open>Encoder\<close>

text \<open>
  Lines 114--116: \<^verbatim>\<open>prefix = TX_PREFIX + chunks.length.toString(16) + seq.toString(16)\<close>.
\<close>

definition tm_prefix :: "nat \<Rightarrow> nat \<Rightarrow> string" where
  "tm_prefix len seq = TX_PREFIX @ to_hex len @ to_hex seq"

text \<open>Line 124: the data string \<^verbatim>\<open>prefix + chunks[seq]\<close> embedded in the transaction.\<close>

definition tm_data :: "string list \<Rightarrow> nat \<Rightarrow> string" where
  "tm_data chunks seq = tm_prefix (length chunks) seq @ js_str_index chunks seq"

subsection \<open>Decoder\<close>

record tm_frame =
  f_seq :: js_num
  f_len :: js_num
  f_msg :: string

text \<open>Lines 76--80, applied to the decoded data string of the second output.\<close>

definition tm_decode :: "string \<Rightarrow> tm_frame" where
  "tm_decode data =
     \<lparr>f_seq = parseInt16 (js_charAt data 4),
      f_len = parseInt16 (js_charAt data 3),
      f_msg = js_slice data 5\<rparr>"

subsection \<open>Lemmas\<close>

lemma TX_PREFIX_length [simp]: "length TX_PREFIX = 2"
  by (simp add: TX_PREFIX_def)

lemma tm_prefix_digits:
  "len < 16 \<Longrightarrow> seq < 16 \<Longrightarrow> tm_prefix len seq = TX_PREFIX @ [hex_char len, hex_char seq]"
  by (simp add: tm_prefix_def)

lemma length_tm_prefix_four_iff: "length (tm_prefix len seq) = 4 \<longleftrightarrow> len < 16 \<and> seq < 16"
proof -
  have "length (tm_prefix len seq) = 2 + length (to_hex len) + length (to_hex seq)"
    by (simp add: tm_prefix_def)
  then show ?thesis
    using length_to_hex_one_iff [of len] length_to_hex_one_iff [of seq]
      length_to_hex_pos [of len] length_to_hex_pos [of seq] by linarith
qed

text \<open>
  What the decoder reads from a frame laid out as a three-character tag, two header
  digits and the payload: the header and the payload are recovered.  This is the
  layout the offsets 3, 4 and 5 of lines 76--78 (and the \<^verbatim>\<open>substring(0,3)\<close> of
  line 58) are written for.
\<close>

lemma tm_decode_three_char_tag:
  assumes "length tag = 3" and "len < 16" and "seq < 16"
  shows "tm_decode (tag @ [hex_char len, hex_char seq] @ p) =
           \<lparr>f_seq = Num seq, f_len = Num len, f_msg = p\<rparr>"
  using assms by (simp add: tm_decode_def js_charAt_def nth_append js_slice_def)

text \<open>
  What the decoder reads from a frame the encoder wrote: with the two-character tag
  \<^verbatim>\<open>"TM"\<close>, the sequence number is read as the length, the first payload character as
  the sequence number, and the payload loses its first character.
\<close>

lemma tm_decode_tm_prefix:
  assumes "len < 16" and "seq < 16"
  shows "tm_decode (tm_prefix len seq @ p) =
           \<lparr>f_seq = parseInt16 (take 1 p), f_len = Num seq, f_msg = drop 1 p\<rparr>"
proof -
  have "tm_prefix len seq @ p = (TX_PREFIX @ [hex_char len]) @ [hex_char seq] @ p"
    using assms by (simp add: tm_prefix_digits)
  moreover have "js_charAt ((TX_PREFIX @ [hex_char len]) @ [hex_char seq] @ p) 4 = take 1 p"
    by (cases p) (simp_all add: js_charAt_def nth_append)
  ultimately show ?thesis
    using assms by (simp add: tm_decode_def js_charAt_def nth_append js_slice_def)
qed

subsection \<open>Properties\<close>

text \<open>
  C2.  Decoding what the encoder wrote for chunk \<open>seq\<close> of a message of fewer than
  16 chunks does not give back \<open>(len, seq, payload)\<close>: the decoded length is the
  sequence number, the decoded sequence number is the first payload character read
  as a hexadecimal digit, and the decoded payload is the chunk without its first
  character.
\<close>

theorem decode_encode_shifted:
  assumes "length chunks < 16" and "seq < length chunks"
  shows "tm_decode (tm_data chunks seq) =
           \<lparr>f_seq = parseInt16 (take 1 (chunks ! seq)), f_len = Num seq, f_msg = drop 1 (chunks ! seq)\<rparr>"
  using assms tm_decode_tm_prefix [of "length chunks" seq "chunks ! seq"]
  by (simp add: tm_data_def)

theorem decode_encode_shifted_witness:
  "tm_decode (tm_data [''hello world''] 0) = \<lparr>f_seq = NaN, f_len = Num 0, f_msg = ''ello world''\<rparr>"
proof -
  have "tm_decode (tm_data [''hello world''] 0) =
          \<lparr>f_seq = parseInt16 (take 1 ''hello world''), f_len = Num 0, f_msg = drop 1 ''hello world''\<rparr>"
    using decode_encode_shifted [of "[''hello world'']" 0] by simp
  then show ?thesis by (simp add: parseInt16_def hex_digit_value_def)
qed

end
