(* ===== verification/Classifier.thy ===== *)
theory Classifier
  imports Codec
begin

text \<open>
  Transaction classifier of \<^verbatim>\<open>src/TxMEx.js\<close>: \<^verbatim>\<open>_getTxData\<close> (lines 28--42),
  \<^verbatim>\<open>isTMTransaction\<close> (lines 48--62), \<^verbatim>\<open>extractTMMessage\<close> (lines 68--81), and the
  derivation of the source and destination addresses that \<^verbatim>\<open>getTMMessages\<close> does
  for each transaction (lines 204--205).
  A bitcore transaction is the record \<open>tx\<close>: the scripts of its inputs and outputs and
  its hash.  A script is either a pay-to-address script (on an input: a redeeming
  script from which an address derives), a data-carrying \<^verbatim>\<open>OP_RETURN\<close> script, or
  any other script, from which bitcore's \<^verbatim>\<open>toAddress\<close> derives no address and
  returns \<^verbatim>\<open>false\<close>.  The text a data script carries is the string
  \<^verbatim>\<open>hexToAscii\<close> (in \<^verbatim>\<open>TMutils\<close>, not under \<^verbatim>\<open>src/\<close>) makes of the last token of the
  script's printed form; the model stores that text in the script.  The network
  discriminator only changes how an address is printed and is not modelled.
  The tag test of line 59 is \<^verbatim>\<open>localeCompare\<close>, modelled by the ICU collation
  equality \<open>localeCompare_eq\<close> of \<open>TxBase\<close>.  The lemmas characterise the classifier
  exactly: it accepts a transaction when the first three characters of its second
  output's text are \<^verbatim>\<open>TM\<close> once the characters the collation ignores are removed.
  A data string whose first three characters hold no such character (\<open>tag_plain\<close>),
  which includes every frame the encoder produces, is accepted only when it is
  \<^verbatim>\<open>TM\<close> itself; so the encoder's frames are all rejected.
\<close>

datatype script = PayTo addr | DataOut string | NoAddress

record tx =
  tx_inputs :: "script list"
  tx_outputs :: "script list"
  tx_hash :: txid

text \<open>bitcore's \<^verbatim>\<open>Script.isDataOut\<close>.\<close>

fun script_isDataOut :: "script \<Rightarrow> bool" where
  "script_isDataOut (DataOut _) = True"
| "script_isDataOut _ = False"

text \<open>\<^verbatim>\<open>hexToAscii\<close> of the last token of a data script's printed form.\<close>

fun data_out_text :: "script \<Rightarrow> string" where
  "data_out_text (DataOut d) = d"
| "data_out_text _ = []"

text \<open>bitcore's \<^verbatim>\<open>Script.toAddress\<close>: \<open>None\<close> stands for the value \<^verbatim>\<open>false\<close>.\<close>

fun script_toAddress :: "script \<Rightarrow> addr option" where
  "script_toAddress (PayTo a) = Some a"
| "script_toAddress _ = None"

subsection \<open>Operations\<close>

text \<open>Lines 28--42: \<^verbatim>\<open>null\<close> is \<open>None\<close>.\<close>

definition get_tx_data :: "tx \<Rightarrow> nat \<Rightarrow> string option" where
  "get_tx_data t index =
     (if 0 < index \<and> index - 1 < length (tx_outputs t) then
        (let script = tx_outputs t ! (index - 1) in
         if \<not> script_isDataOut script then None
         else Some (data_out_text script))
      else None)"

text \<open>
  Lines 48--62.  bitcore gives every input and output a script object, so the tests
  of line 49 amount to the first input and the first output existing.  \<^verbatim>\<open>!data\<close>
  holds for \<^verbatim>\<open>null\<close> and for the empty string.  \<^verbatim>\<open>localeCompare\<close> returns 0 when the
  strings are equal for the collation (\<open>localeCompare_eq\<close>).
\<close>

definition isTMTransaction :: "tx \<Rightarrow> bool" where
  "isTMTransaction t =
     (tx_inputs t \<noteq> [] \<and> tx_outputs t \<noteq> [] \<and> \<not> length (tx_outputs t) < 2 \<and>
      (case get_tx_data t 2 of
         None \<Rightarrow> False
       | Some data \<Rightarrow> data \<noteq> [] \<and> localeCompare_eq (js_substring data 0 3) TX_PREFIX))"

text \<open>
  Lines 68--81 (the unwrapping of line 69 does not apply to bitcore transactions):
  the frame of a protocol transaction, \<^verbatim>\<open>null\<close> otherwise.
\<close>

definition extractTMMessage :: "tx \<Rightarrow> tm_frame option" where
  "extractTMMessage t =
     (if \<not> isTMTransaction t then None
      else Some (tm_decode (data_out_text (tx_outputs t ! 1))))"

text \<open>\<^verbatim>\<open>script.toAddress(network).toString()\<close>: \<^verbatim>\<open>false\<close> prints as \<^verbatim>\<open>"false"\<close>.\<close>

definition addr_string :: "script \<Rightarrow> addr" where
  "addr_string s = (case script_toAddress s of Some a \<Rightarrow> a | None \<Rightarrow> ''false'')"

text \<open>
  Lines 204--205: source and destination of a transaction.  Without a first input or
  first output the property access throws a \<^verbatim>\<open>TypeError\<close>.
\<close>

definition tx_endpoints :: "tx \<Rightarrow> js_exn + addr \<times> addr" where
  "tx_endpoints t =
     (case (tx_inputs t, tx_outputs t) of
        (inp # _, out # _) \<Rightarrow> Inr (addr_string inp, addr_string out)
      | _ \<Rightarrow> Inl (TypeError ''Cannot read property script of undefined''))"

text \<open>
  A data string whose first three characters, the ones line 58 compares, contain no
  character the collation ignores; and a transaction whose second output, if it is a
  data script, carries such a string.
\<close>

definition tag_plain :: "string \<Rightarrow> bool" where
  "tag_plain d \<longleftrightarrow> list_all (\<lambda>c. \<not> collation_ignorable c) (take 3 d)"

definition tx_tag_plain :: "tx \<Rightarrow> bool" where
  "tx_tag_plain t \<longleftrightarrow> (case get_tx_data t 2 of None \<Rightarrow> True | Some d \<Rightarrow> tag_plain d)"

subsection \<open>Lemmas\<close>

lemma get_tx_data_2:
  "get_tx_data t 2 =
     (if 1 < length (tx_outputs t) \<and> script_isDataOut (tx_outputs t ! 1)
      then Some (data_out_text (tx_outputs t ! 1)) else None)"
  by (simp add: get_tx_data_def Let_def)

lemma script_isDataOut_iff: "script_isDataOut s \<longleftrightarrow> (\<exists>d. s = DataOut d)"
  by (cases s) auto

text \<open>The tag test of lines 55--59: the first three characters, without the ignorable ones, are the tag.\<close>

lemma tag_test_iff:
  "(data \<noteq> [] \<and> localeCompare_eq (js_substring data 0 3) TX_PREFIX) \<longleftrightarrow>
     data \<noteq> [] \<and> filter (\<lambda>c. \<not> collation_ignorable c) (take 3 data) = TX_PREFIX"
  by (simp add: localeCompare_eq_def js_substring_def TX_PREFIX_def collation_ignorable_def)

text \<open>On a plain tag the test accepts exactly the string \<^verbatim>\<open>"TM"\<close>.\<close>

lemma tag_plain_test:
  assumes "tag_plain data"
  shows "(data \<noteq> [] \<and> filter (\<lambda>c. \<not> collation_ignorable c) (take 3 data) = TX_PREFIX) \<longleftrightarrow> data = TX_PREFIX"
proof
  assume a: "data \<noteq> [] \<and> filter (\<lambda>c. \<not> collation_ignorable c) (take 3 data) = TX_PREFIX"
  have "filter (\<lambda>c. \<not> collation_ignorable c) (take 3 data) = take 3 data"
    using assms by (simp add: tag_plain_def list_all_iff)
  with a have t: "take 3 data = TX_PREFIX" by simp
  then have "length (take 3 data) = 2" using TX_PREFIX_length by simp
  then have "length data \<le> 3" by simp
  with t show "data = TX_PREFIX" by simp
next
  assume "data = TX_PREFIX"
  then show "data \<noteq> [] \<and> filter (\<lambda>c. \<not> collation_ignorable c) (take 3 data) = TX_PREFIX"
    by (simp add: TX_PREFIX_def collation_ignorable_def)
qed

lemma isTMTransaction_eq:
  "isTMTransaction t \<longleftrightarrow>
     tx_inputs t \<noteq> [] \<and> 1 < length (tx_outputs t) \<and>
     (\<exists>d. tx_outputs t ! 1 = DataOut d \<and> d \<noteq> [] \<and>
          filter (\<lambda>c. \<not> collation_ignorable c) (take 3 d) = TX_PREFIX)"
  by (auto simp add: isTMTransaction_def get_tx_data_2 tag_test_iff script_isDataOut_iff
           simp del: script_isDataOut.simps)

text \<open>On transactions with a plain tag the classifier accepts exactly the data string \<^verbatim>\<open>"TM"\<close>.\<close>

lemma isTMTransaction_plain:
  assumes "tx_tag_plain t"
  shows "isTMTransaction t \<longleftrightarrow>
           tx_inputs t \<noteq> [] \<and> 1 < length (tx_outputs t) \<and> tx_outputs t ! 1 = DataOut TX_PREFIX"
proof (cases "1 < length (tx_outputs t) \<and> script_isDataOut (tx_outputs t ! 1)")
  case True
  then obtain d where d: "tx_outputs t ! 1 = DataOut d" by (auto simp add: script_isDataOut_iff)
  with True assms have "tag_plain d" by (simp add: tx_tag_plain_def get_tx_data_2)
  with d show ?thesis by (auto simp add: isTMTransaction_eq tag_plain_test)
next
  case False
  then show ?thesis by (auto simp add: isTMTransaction_eq)
qed

lemma tm_data_length: "4 \<le> length (tm_data chunks seq)"
proof -
  have "length (tm_prefix (length chunks) seq) = 2 + length (to_hex (length chunks)) + length (to_hex seq)"
    by (simp add: tm_prefix_def)
  then have "4 \<le> length (tm_prefix (length chunks) seq)"
    using length_to_hex_pos [of "length chunks"] length_to_hex_pos [of seq] by linarith
  then show ?thesis by (simp add: tm_data_def)
qed

lemma tm_data_not_prefix [simp]: "tm_data chunks seq \<noteq> TX_PREFIX"
  using tm_data_length [of chunks seq] TX_PREFIX_length by auto

text \<open>The tag the encoder writes is plain: \<^verbatim>\<open>T\<close>, \<^verbatim>\<open>M\<close> and a hexadecimal digit.\<close>

lemma tm_data_plain [simp]: "tag_plain (tm_data chunks seq)"
proof -
  obtain c cs where h: "to_hex (length chunks) = c # cs"
    using to_hex_nonempty by (cases "to_hex (length chunks)") auto
  then have "\<not> collation_ignorable c"
    using to_hex_not_ignorable [of "length chunks"] by simp
  then show ?thesis
    using h by (simp add: tag_plain_def tm_data_def tm_prefix_def TX_PREFIX_def collation_ignorable_def)
qed

subsection \<open>Properties\<close>


text \<open>
  C3.  The classifier exactly: a transaction is a protocol transaction iff it has a
  first input, a first output, and a second output that is a data script whose first
  three characters are \<^verbatim>\<open>TM\<close> once the characters ICU collation ignores are
  removed: the string \<^verbatim>\<open>TM\<close> itself, or \<^verbatim>\<open>TM\<close> with one ignorable control
  character among its first three characters, followed by anything (such as
  \<^verbatim>\<open>"TM\x01"\<close> followed by a header and a payload).  It rejects a transaction with
  fewer than two outputs, a non-data second output, or any other data string.
\<close>

theorem isTMTransaction_iff:
  "isTMTransaction t \<longleftrightarrow>
     (\<exists>inp ins out0 d outs. tx_inputs t = inp # ins \<and> tx_outputs t = out0 # DataOut d # outs \<and>
        d \<noteq> [] \<and> filter (\<lambda>c. \<not> collation_ignorable c) (take 3 d) = ''TM'')"
proof -
  have "(1 < length os \<and> (\<exists>d. os ! 1 = DataOut d \<and> P d)) \<longleftrightarrow> (\<exists>o0 d os'. os = o0 # DataOut d # os' \<and> P d)"
    for os :: "script list" and P
    by (cases os rule: remdups_adj.cases) auto
  then show ?thesis
    by (simp add: isTMTransaction_eq TX_PREFIX_def neq_Nil_conv)
qed

text \<open>
  C4.  What \<^verbatim>\<open>extractTMMessage\<close> returns for a transaction whose tag is plain (no
  ignorable character among the first three characters of its data string, as in every
  frame the encoder writes): both header fields are \<open>NaN\<close> and the payload is empty,
  since the only such data string accepted, \<^verbatim>\<open>"TM"\<close>, has no character at offsets
  3 and 4.
\<close>

theorem extract_frame_is_NaN:
  assumes "extractTMMessage t = Some fr" and "tx_tag_plain t"
  shows "fr = \<lparr>f_seq = NaN, f_len = NaN, f_msg = []\<rparr>"
proof -
  from assms(1) have "isTMTransaction t" and fr: "fr = tm_decode (data_out_text (tx_outputs t ! 1))"
    by (auto simp add: extractTMMessage_def split: if_splits)
  then have "data_out_text (tx_outputs t ! 1) = TX_PREFIX"
    using assms(2) by (simp add: isTMTransaction_plain)
  with fr show ?thesis
    by (simp add: tm_decode_def js_slice_def)
qed

theorem extract_frame_is_NaN_witness:
  "extractTMMessage \<lparr>tx_inputs = [PayTo ''A''], tx_outputs = [PayTo ''B'', DataOut ''TM''], tx_hash = ''h''\<rparr>
     = Some \<lparr>f_seq = NaN, f_len = NaN, f_msg = []\<rparr>"
proof -
  let ?t = "\<lparr>tx_inputs = [PayTo ''A''], tx_outputs = [PayTo ''B'', DataOut ''TM''], tx_hash = ''h''\<rparr>"
  have e: "extractTMMessage ?t = Some (tm_decode ''TM'')"
    by (simp add: extractTMMessage_def isTMTransaction_eq TX_PREFIX_def collation_ignorable_def)
  have "tx_tag_plain ?t"
    by (simp add: tx_tag_plain_def get_tx_data_2 tag_plain_def collation_ignorable_def)
  from extract_frame_is_NaN [OF e this] e show ?thesis by simp
qed

end
