(* ===== verification/Reassembly.thy ===== *)
theory Reassembly
  imports Classifier
begin

text \<open>
  Reassembly engine of \<^verbatim>\<open>getTMMessages\<close> (\<^verbatim>\<open>src/TxMEx.js\<close>, lines 192--251).
  The scan keeps \<^verbatim>\<open>chnkBuf\<close>, an object from conversation keys \<^verbatim>\<open>src+dst\<close> to sparse
  arrays of chunks \<^verbatim>\<open>{msg, txid}\<close>, and the list \<^verbatim>\<open>msgs\<close> of assembled messages: the
  record \<open>scan_state\<close>, with the object as a map and each array as a map from
  indices to chunks (holes are unmapped).  Writing at the index \<open>NaN\<close> sets a
  non-index property, which no later read of the code observes, so it leaves the
  indices unchanged.  One transaction is one call of \<open>scan_tx\<close> (lines 203--246); the
  chunk handling after classification is \<open>tm_ingest\<close> (lines 210--246); the loop is
  \<open>scan_history\<close>.  An exception thrown inside the history callback is uncaught: it
  is the \<open>Inl\<close> result of \<open>getTMMessages\<close>, and the caller's callback is never called.
  The node is a parameter: the function giving the result of
  \<^verbatim>\<open>node.getAddressHistory(address, {queryMempool: true})\<close>, an error text or the
  list of transactions.  Keys that name properties of \<^verbatim>\<open>Object.prototype\<close> are not
  modelled.
\<close>

type_synonym chunk_buf = "nat \<rightharpoonup> string \<times> txid"

record tm_message =
  m_src :: addr
  m_dst :: addr
  m_data :: string
  m_txs :: "txid list"

record scan_state =
  chnkBuf :: "string \<rightharpoonup> chunk_buf"
  msgs :: "tm_message list"

definition scan_init :: scan_state where
  "scan_init = \<lparr>chnkBuf = Map.empty, msgs = []\<rparr>"

subsection \<open>Operations\<close>

text \<open>Line 206: the conversation key.\<close>

definition conv_key :: "addr \<Rightarrow> addr \<Rightarrow> string" where
  "conv_key src dst = src @ dst"

text \<open>Line 211: \<^verbatim>\<open>new Array(len)\<close>; a \<open>NaN\<close> length throws.\<close>

fun new_array :: "js_num \<Rightarrow> js_exn + chunk_buf" where
  "new_array (Num n) = Inr Map.empty"
| "new_array NaN = Inl (RangeError ''Invalid array length'')"

text \<open>Line 214: \<^verbatim>\<open>chnkBuf[msgid][txMsg.seq] = {msg, txid}\<close>.\<close>

fun buf_set :: "chunk_buf \<Rightarrow> js_num \<Rightarrow> string \<times> txid \<Rightarrow> chunk_buf" where
  "buf_set b (Num k) c = b(k \<mapsto> c)"
| "buf_set b NaN c = b"

text \<open>Lines 217--219: every slot below \<^verbatim>\<open>txMsg.len\<close> is filled (vacuous for \<open>NaN\<close>).\<close>

fun buf_complete :: "chunk_buf \<Rightarrow> js_num \<Rightarrow> bool" where
  "buf_complete b (Num n) = list_all (\<lambda>j. b j \<noteq> None) [0..<n]"
| "buf_complete b NaN = True"

text \<open>Lines 223--231: the message text and the transaction ids in slot order.\<close>

fun buf_assemble :: "chunk_buf \<Rightarrow> js_num \<Rightarrow> string \<times> txid list" where
  "buf_assemble b (Num n) =
     (concat (map (\<lambda>j. fst (the (b j))) [0..<n]), map (\<lambda>j. snd (the (b j))) [0..<n])"
| "buf_assemble b NaN = ([], [])"

text \<open>Lines 210--246: one classified chunk of conversation \<open>src \<rightarrow> dst\<close>, carried by \<open>h\<close>.\<close>

definition tm_ingest :: "addr \<Rightarrow> addr \<Rightarrow> tm_frame \<Rightarrow> txid \<Rightarrow> scan_state \<Rightarrow> js_exn + scan_state" where
  "tm_ingest src dst fr h st =
     (let msgid = conv_key src dst in
      case (case chnkBuf st msgid of Some b \<Rightarrow> Inr b | None \<Rightarrow> new_array (f_len fr)) of
        Inl e \<Rightarrow> Inl e
      | Inr b \<Rightarrow>
          (let b' = buf_set b (f_seq fr) (f_msg fr, h) in
           if buf_complete b' (f_len fr) then
             (let (d, txs) = buf_assemble b' (f_len fr) in
              Inr \<lparr>chnkBuf = (chnkBuf st)(msgid := None),
                   msgs = msgs st @ [\<lparr>m_src = src, m_dst = dst, m_data = d, m_txs = txs\<rparr>]\<rparr>)
           else Inr (st\<lparr>chnkBuf := (chnkBuf st)(msgid \<mapsto> b')\<rparr>)))"

text \<open>Lines 203--246: one transaction of the history.\<close>

definition scan_tx :: "scan_state \<Rightarrow> tx \<Rightarrow> js_exn + scan_state" where
  "scan_tx st t =
     (case tx_endpoints t of
        Inl e \<Rightarrow> Inl e
      | Inr (src, dst) \<Rightarrow>
          (case extractTMMessage t of
             None \<Rightarrow> Inr st
           | Some fr \<Rightarrow> tm_ingest src dst fr (tx_hash t) st))"

text \<open>Lines 202--247: the loop over the history, stopped by the first exception.\<close>

fun scan_history :: "scan_state \<Rightarrow> tx list \<Rightarrow> js_exn + scan_state" where
  "scan_history st [] = Inr st"
| "scan_history st (t # ts) = (case scan_tx st t of Inl e \<Rightarrow> Inl e | Inr st' \<Rightarrow> scan_history st' ts)"

text \<open>
  Lines 192--251.  On a history error, line 197 evaluates the undeclared \<^verbatim>\<open>e\<close>,
  which throws a \<^verbatim>\<open>ReferenceError\<close>.
\<close>

definition getTMMessages :: "(addr \<Rightarrow> string + tx list) \<Rightarrow> addr \<Rightarrow> js_exn + tm_message list" where
  "getTMMessages node address =
     (case node address of
        Inl err \<Rightarrow> Inl (ReferenceError ''e is not defined'')
      | Inr txs \<Rightarrow> (case scan_history scan_init txs of Inl e \<Rightarrow> Inl e | Inr st \<Rightarrow> Inr (msgs st)))"

text \<open>
  The loop of lines 202--247 restricted to the chunks of one conversation, once
  classified: chunk \<open>(s, (p, h))\<close> is the frame with sequence number \<open>s\<close>, length
  \<open>n\<close> and payload \<open>p\<close>, carried by transaction \<open>h\<close>.  The properties of the buffer
  are stated over it, independently of the classifier.
\<close>

fun ingest_frames :: "addr \<Rightarrow> addr \<Rightarrow> nat \<Rightarrow> (nat \<times> string \<times> txid) list \<Rightarrow> scan_state \<Rightarrow> js_exn + scan_state" where
  "ingest_frames src dst n [] st = Inr st"
| "ingest_frames src dst n ((s, c) # cs) st =
     (case tm_ingest src dst \<lparr>f_seq = Num s, f_len = Num n, f_msg = fst c\<rparr> (snd c) st of
        Inl e \<Rightarrow> Inl e
      | Inr st' \<Rightarrow> ingest_frames src dst n cs st')"

text \<open>The message object of lines 234--240 built from a buffer of \<open>n\<close> slots.\<close>

definition assembled :: "addr \<Rightarrow> addr \<Rightarrow> chunk_buf \<Rightarrow> nat \<Rightarrow> tm_message" where
  "assembled src dst b n =
     \<lparr>m_src = src, m_dst = dst, m_data = fst (buf_assemble b (Num n)), m_txs = snd (buf_assemble b (Num n))\<rparr>"

subsection \<open>Lemmas\<close>

lemma extractTMMessage_NaN:
  "extractTMMessage t = Some fr \<Longrightarrow> tx_tag_plain t \<Longrightarrow> f_len fr = NaN"
  by (auto simp add: extractTMMessage_def isTMTransaction_plain tm_decode_def js_slice_def
           split: if_splits)

text \<open>
  With the classifier of lines 48--62, the scan of transactions with plain tags never
  creates a buffer: a state with no buffer and no message is kept by every such
  transaction the scan gets past.
\<close>

lemma scan_tx_empty:
  assumes "scan_tx \<lparr>chnkBuf = Map.empty, msgs = []\<rparr> t = Inr st'" and "tx_tag_plain t"
  shows "st' = \<lparr>chnkBuf = Map.empty, msgs = []\<rparr>"
proof (cases "extractTMMessage t")
  case None
  with assms show ?thesis
    by (auto simp add: scan_tx_def split: sum.splits prod.splits)
next
  case (Some fr)
  then have "f_len fr = NaN" using assms(2) by (rule extractTMMessage_NaN)
  with Some assms show ?thesis
    by (auto simp add: scan_tx_def tm_ingest_def split: sum.splits prod.splits)
qed

lemma scan_history_empty:
  "scan_history \<lparr>chnkBuf = Map.empty, msgs = []\<rparr> ts = Inr st' \<Longrightarrow> \<forall>t \<in> set ts. tx_tag_plain t \<Longrightarrow>
     st' = \<lparr>chnkBuf = Map.empty, msgs = []\<rparr>"
proof (induction ts)
  case Nil
  then show ?case by simp
next
  case (Cons t ts)
  then have "tx_tag_plain t" by simp
  with Cons show ?case
    by (auto dest: scan_tx_empty split: sum.splits)
qed

lemma scan_tx_accepted_throws:
  assumes "isTMTransaction t" and "tx_tag_plain t"
  shows "\<exists>e. scan_tx \<lparr>chnkBuf = Map.empty, msgs = []\<rparr> t = Inl e"
proof -
  from assms(1) have "tx_inputs t \<noteq> []" and "tx_outputs t \<noteq> []"
    by (auto simp add: isTMTransaction_eq)
  then obtain inp ins out outs where "tx_inputs t = inp # ins" and "tx_outputs t = out # outs"
    by (meson neq_Nil_conv)
  then have ep: "tx_endpoints t = Inr (addr_string inp, addr_string out)"
    by (simp add: tx_endpoints_def)
  from assms(1) obtain fr where fr: "extractTMMessage t = Some fr"
    by (simp add: extractTMMessage_def)
  then have "f_len fr = NaN" using assms(2) by (rule extractTMMessage_NaN)
  with ep fr show ?thesis
    by (simp add: scan_tx_def tm_ingest_def)
qed

lemma scan_history_accepted_throws:
  "\<exists>t \<in> set ts. isTMTransaction t \<Longrightarrow> \<forall>t \<in> set ts. tx_tag_plain t \<Longrightarrow>
     \<exists>e. scan_history \<lparr>chnkBuf = Map.empty, msgs = []\<rparr> ts = Inl e"
proof (induction ts)
  case Nil
  then show ?case by simp
next
  case (Cons t ts)
  show ?case
  proof (cases "isTMTransaction t")
    case True
    from scan_tx_accepted_throws [OF True] Cons.prems(2) show ?thesis by auto
  next
    case False
    with Cons.prems have "\<exists>e. scan_history \<lparr>chnkBuf = Map.empty, msgs = []\<rparr> ts = Inl e"
      by (intro Cons.IH) simp_all
    moreover have "tx_tag_plain t" using Cons.prems(2) by simp
    ultimately show ?thesis
      by (cases "scan_tx \<lparr>chnkBuf = Map.empty, msgs = []\<rparr> t") (auto dest: scan_tx_empty)
  qed
qed

lemma buf_complete_Num: "buf_complete b (Num n) \<longleftrightarrow> {0..<n} \<subseteq> dom b"
  by (auto simp add: list_all_iff)

lemma tm_ingest_Some:
  assumes "chnkBuf st (conv_key src dst) = Some b"
  shows "tm_ingest src dst \<lparr>f_seq = Num s, f_len = Num n, f_msg = p\<rparr> h st =
           (if {0..<n} \<subseteq> dom (b(s \<mapsto> (p, h)))
            then Inr \<lparr>chnkBuf = (chnkBuf st)(conv_key src dst := None),
                      msgs = msgs st @ [assembled src dst (b(s \<mapsto> (p, h))) n]\<rparr>
            else Inr (st\<lparr>chnkBuf := (chnkBuf st)(conv_key src dst \<mapsto> b(s \<mapsto> (p, h)))\<rparr>))"
  using assms unfolding buf_complete_Num [symmetric]
  by (simp add: tm_ingest_def assembled_def split: prod.splits)

lemma tm_ingest_None:
  assumes "chnkBuf st (conv_key src dst) = None"
  shows "tm_ingest src dst \<lparr>f_seq = Num s, f_len = Num n, f_msg = p\<rparr> h st =
           tm_ingest src dst \<lparr>f_seq = Num s, f_len = Num n, f_msg = p\<rparr> h
             (st\<lparr>chnkBuf := (chnkBuf st)(conv_key src dst \<mapsto> Map.empty)\<rparr>)"
  using assms by (simp add: tm_ingest_def Let_def split: prod.splits)

lemma ingest_frames_fill:
  assumes "chnkBuf st (conv_key src dst) = Some b"
    and "dom b \<inter> set (map fst ds) = {}" and "dom b \<union> set (map fst ds) = {0..<n}"
    and "distinct (map fst ds)" and "ds \<noteq> []"
  shows "ingest_frames src dst n ds st =
           Inr \<lparr>chnkBuf = (chnkBuf st)(conv_key src dst := None),
                msgs = msgs st @ [assembled src dst (b ++ map_of ds) n]\<rparr>"
  using assms
proof (induction ds arbitrary: b st)
  case Nil
  then show ?case by simp
next
  case (Cons d ds)
  obtain s p h where d: "d = (s, p, h)" by (cases d) auto
  show ?case
  proof (cases "ds = []")
    case True
    with Cons.prems d have "{0..<n} \<subseteq> dom (b(s \<mapsto> (p, h)))" by auto
    then have "ingest_frames src dst n (d # ds) st =
                 Inr \<lparr>chnkBuf = (chnkBuf st)(conv_key src dst := None),
                      msgs = msgs st @ [assembled src dst (b(s \<mapsto> (p, h))) n]\<rparr>"
      using Cons.prems(1) d True by (simp add: tm_ingest_Some)
    moreover have "b(s \<mapsto> (p, h)) = b ++ map_of (d # ds)"
      using d True by (simp add: map_add_upd [symmetric])
    ultimately show ?thesis by (simp only:)
  next
    case False
    then obtain s' where s': "s' \<in> set (map fst ds)" by (cases ds) auto
    with Cons.prems d have "s' \<notin> dom (b(s \<mapsto> (p, h)))" and "s' < n" by auto
    then have nc: "\<not> {0..<n} \<subseteq> dom (b(s \<mapsto> (p, h)))" by auto
    let ?st' = "st\<lparr>chnkBuf := (chnkBuf st)(conv_key src dst \<mapsto> b(s \<mapsto> (p, h)))\<rparr>"
    have A: "ingest_frames src dst n (d # ds) st = ingest_frames src dst n ds ?st'"
      using Cons.prems(1) d nc by (simp add: tm_ingest_Some)
    have "ingest_frames src dst n ds ?st' =
            Inr \<lparr>chnkBuf = (chnkBuf ?st')(conv_key src dst := None),
                 msgs = msgs ?st' @ [assembled src dst (b(s \<mapsto> (p, h)) ++ map_of ds) n]\<rparr>"
    proof (rule Cons.IH)
      have "s \<notin> set (map fst ds)" using Cons.prems(4) d by simp
      then show "dom (b(s \<mapsto> (p, h))) \<inter> set (map fst ds) = {}"
        using Cons.prems(2) by auto
      show "dom (b(s \<mapsto> (p, h))) \<union> set (map fst ds) = {0..<n}"
        using Cons.prems(3) d by auto
    qed (use Cons.prems(4) False in \<open>simp_all add: fun_eq_iff\<close>)
    then have B: "ingest_frames src dst n ds ?st' =
            Inr \<lparr>chnkBuf = (chnkBuf st)(conv_key src dst := None),
                 msgs = msgs st @ [assembled src dst (b(s \<mapsto> (p, h)) ++ map_of ds) n]\<rparr>"
      by simp
    have C: "b(s \<mapsto> (p, h)) ++ map_of ds = b ++ map_of (d # ds)"
      using Cons.prems(4) d by (simp add: map_add_upd_left dom_map_of_conv_image_fst)
    show ?thesis using A B C by (simp only:)
  qed
qed

text \<open>Chunks that do not complete the message only fill the buffer of their key.\<close>

lemma ingest_frames_partial:
  assumes "chnkBuf st (conv_key src dst) = Some b"
    and "distinct (map fst ds)" and "\<not> {0..<n} \<subseteq> dom b \<union> set (map fst ds)"
  shows "ingest_frames src dst n ds st =
           Inr (st\<lparr>chnkBuf := (chnkBuf st)(conv_key src dst \<mapsto> b ++ map_of ds)\<rparr>)"
  using assms
proof (induction ds arbitrary: b st)
  case Nil
  then show ?case by (simp add: map_upd_triv)
next
  case (Cons d ds)
  obtain s p h where d: "d = (s, p, h)" by (cases d) auto
  have nc: "\<not> {0..<n} \<subseteq> dom (b(s \<mapsto> (p, h)))"
    using Cons.prems(3) d by auto
  let ?st' = "st\<lparr>chnkBuf := (chnkBuf st)(conv_key src dst \<mapsto> b(s \<mapsto> (p, h)))\<rparr>"
  have A: "ingest_frames src dst n (d # ds) st = ingest_frames src dst n ds ?st'"
    using Cons.prems(1) d nc by (simp add: tm_ingest_Some)
  have "ingest_frames src dst n ds ?st' =
             Inr (?st'\<lparr>chnkBuf := (chnkBuf ?st')(conv_key src dst \<mapsto> b(s \<mapsto> (p, h)) ++ map_of ds)\<rparr>)"
    using Cons.prems(2,3) d by (intro Cons.IH) auto
  then have B: "ingest_frames src dst n ds ?st' =
             Inr (st\<lparr>chnkBuf := (chnkBuf st)(conv_key src dst \<mapsto> b(s \<mapsto> (p, h)) ++ map_of ds)\<rparr>)"
    by simp
  have C: "b(s \<mapsto> (p, h)) ++ map_of ds = b ++ map_of (d # ds)"
    using Cons.prems(2) d by (simp add: map_add_upd_left dom_map_of_conv_image_fst)
  show ?case using A B C by (simp only:)
qed

lemma ingest_frames_None:
  assumes "chnkBuf st (conv_key src dst) = None"
  shows "ingest_frames src dst n ((s, c) # cs) st =
           ingest_frames src dst n ((s, c) # cs) (st\<lparr>chnkBuf := (chnkBuf st)(conv_key src dst \<mapsto> Map.empty)\<rparr>)"
  using tm_ingest_None [OF assms, of s n "fst c" "snd c"] by simp

lemma map_of_in_key_order:
  assumes "distinct (map fst cs)" and "set (map fst cs) = {0..<n}"
  shows "map (\<lambda>j. the (map_of cs j)) [0..<n] = map snd (sort_key fst cs)"
proof -
  let ?zs = "sort_key fst cs"
  have dz: "distinct (map fst ?zs)"
    using assms(1) by (simp add: distinct_map)
  have keys: "map fst ?zs = [0..<n]"
    using dz assms(2) by (intro sorted_distinct_set_unique) simp_all
  have "map_of cs = map_of ?zs"
    using assms(1) dz by (simp add: map_of_inject_set)
  then have "map (\<lambda>j. the (map_of cs j)) [0..<n] = map (\<lambda>z. the (map_of ?zs (fst z))) ?zs"
    by (simp flip: keys)
  also have "\<dots> = map snd ?zs"
    using dz by (intro map_cong) auto
  finally show ?thesis .
qed

text \<open>
  The chunks of one conversation that has no buffer yet, with distinct sequence numbers
  covering \<open>0..<n\<close>, leave no buffer and append one message built from all of them.
\<close>

lemma ingest_frames_from_empty:
  assumes "chnkBuf st (conv_key src dst) = None"
    and "distinct (map fst cs)" and "set (map fst cs) = {0..<n}" and "0 < n"
  shows "ingest_frames src dst n cs st = Inr (st\<lparr>msgs := msgs st @ [assembled src dst (map_of cs) n]\<rparr>)"
proof -
  from assms(3,4) obtain s c cs' where cs: "cs = (s, c) # cs'"
    by (cases cs) auto
  let ?st0 = "st\<lparr>chnkBuf := (chnkBuf st)(conv_key src dst \<mapsto> Map.empty)\<rparr>"
  have "ingest_frames src dst n cs ?st0 =
          Inr \<lparr>chnkBuf = (chnkBuf ?st0)(conv_key src dst := None),
               msgs = msgs ?st0 @ [assembled src dst (Map.empty ++ map_of cs) n]\<rparr>"
    using assms(2,3) cs by (intro ingest_frames_fill) simp_all
  moreover have "(chnkBuf ?st0)(conv_key src dst := None) = chnkBuf st"
    using assms(1) by auto
  ultimately show ?thesis
    using ingest_frames_None [OF assms(1)] cs by simp
qed

lemma assembled_in_key_order:
  assumes "distinct (map fst cs)" and "set (map fst cs) = {0..<n}"
  shows "assembled src dst (map_of cs) n =
           \<lparr>m_src = src, m_dst = dst, m_data = concat (map (fst \<circ> snd) (sort_key fst cs)),
            m_txs = map (snd \<circ> snd) (sort_key fst cs)\<rparr>"
proof -
  have e: "map (\<lambda>j. the (map_of cs j)) [0..<n] = map snd (sort_key fst cs)"
    using assms by (rule map_of_in_key_order)
  have e1: "map (\<lambda>j. fst (the (map_of cs j))) [0..<n] = map (\<lambda>z. fst (snd z)) (sort_key fst cs)"
    using arg_cong [OF e, of "map fst"] by (simp add: o_def)
  have e2: "map (\<lambda>j. snd (the (map_of cs j))) [0..<n] = map (\<lambda>z. snd (snd z)) (sort_key fst cs)"
    using arg_cong [OF e, of "map snd"] by (simp add: o_def)
  show ?thesis
    by (simp add: assembled_def e1 e2 o_def)
qed

lemma buf_set_idem: "buf_set (buf_set b sq c) sq c = buf_set b sq c"
  by (cases sq) simp_all

text \<open>A chunk that leaves its buffer in place left it incomplete, holding the chunk.\<close>

lemma tm_ingest_kept:
  assumes "tm_ingest src dst fr h st = Inr st'" and "chnkBuf st' (conv_key src dst) \<noteq> None"
  obtains b where "chnkBuf st' (conv_key src dst) = Some (buf_set b (f_seq fr) (f_msg fr, h))"
    and "\<not> buf_complete (buf_set b (f_seq fr) (f_msg fr, h)) (f_len fr)"
    and "st' = st\<lparr>chnkBuf := (chnkBuf st)(conv_key src dst \<mapsto> buf_set b (f_seq fr) (f_msg fr, h))\<rparr>"
  using assms
  by (auto simp add: tm_ingest_def Let_def split: option.splits sum.splits prod.splits if_splits)

text \<open>A history of transactions the classifier rejects leaves the scan state unchanged.\<close>

lemma scan_history_unclassified:
  assumes "\<forall>t \<in> set txs. tx_inputs t \<noteq> [] \<and> tx_outputs t \<noteq> [] \<and> \<not> isTMTransaction t"
  shows "scan_history st txs = Inr st"
  using assms
proof (induction txs)
  case Nil
  then show ?case by simp
next
  case (Cons t ts)
  then have "scan_tx st t = Inr st"
    by (auto simp add: scan_tx_def tx_endpoints_def extractTMMessage_def neq_Nil_conv)
  with Cons show ?case by simp
qed

text \<open>
  A history of frames from \<open>src\<close> to \<open>dst\<close> whose tag carries an ignorable character
  \<open>c\<close> after \<^verbatim>\<open>TM\<close>, with one-digit length \<open>n\<close> and sequence numbers: the scan is the
  ingestion of its chunks.
\<close>

lemma scan_history_ignorable_frames:
  assumes "collation_ignorable c" and "n < 16" and "\<forall>k \<in> fst ` set cs. k < 16"
  shows "scan_history st (map (\<lambda>(k, p, h). \<lparr>tx_inputs = [PayTo src],
            tx_outputs = [PayTo dst, DataOut (TX_PREFIX @ [c, hex_char n, hex_char k] @ p)], tx_hash = h\<rparr>) cs) =
         ingest_frames src dst n cs st"
  using assms(3)
proof (induction cs arbitrary: st)
  case Nil
  then show ?case by simp
next
  case (Cons x cs)
  obtain k p h where x: "x = (k, p, h)" by (cases x) auto
  have k: "k < 16" using Cons.prems x by simp
  let ?d = "TX_PREFIX @ [c, hex_char n, hex_char k] @ p"
  let ?t = "\<lparr>tx_inputs = [PayTo src], tx_outputs = [PayTo dst, DataOut ?d], tx_hash = h\<rparr>"
  have "isTMTransaction ?t"
    using assms(1) by (simp add: isTMTransaction_eq TX_PREFIX_def collation_ignorable_def)
  then have "scan_tx st ?t = tm_ingest src dst \<lparr>f_seq = Num k, f_len = Num n, f_msg = p\<rparr> h st"
    using assms(2) k
    by (simp add: scan_tx_def tx_endpoints_def addr_string_def extractTMMessage_def tm_decode_def
                  js_charAt_def js_slice_def TX_PREFIX_def)
  with Cons x show ?case by (simp split: sum.split)
qed

subsection \<open>Properties\<close>

text \<open>
  C5.  \<^verbatim>\<open>getTMMessages\<close> never delivers a message from a history of transactions with
  plain tags (no character the collation ignores among the first three characters of
  a data string, as in every frame the encoder writes): whenever it calls back with a
  result, the list of messages is empty.
\<close>

theorem getTMMessages_never_delivers:
  assumes "getTMMessages node address = Inr ms"
    and "node address = Inr txs" and "\<forall>t \<in> set txs. tx_tag_plain t"
  shows "ms = []"
proof -
  from assms(1,2) obtain st where "scan_history scan_init txs = Inr st" and "ms = msgs st"
    by (auto simp add: getTMMessages_def split: sum.splits)
  then show ?thesis
    using scan_history_empty [of txs st] assms(3) by (simp add: scan_init_def)
qed

theorem getTMMessages_never_delivers_witness:
  "getTMMessages (\<lambda>_. Inr [\<lparr>tx_inputs = [PayTo ''A''], tx_outputs = [PayTo ''B''], tx_hash = ''h''\<rparr>]) ''B''
     = Inr []"
proof -
  let ?txs = "[\<lparr>tx_inputs = [PayTo ''A''], tx_outputs = [PayTo ''B''], tx_hash = ''h''\<rparr>]"
  obtain ms where ms: "getTMMessages (\<lambda>_. Inr ?txs) ''B'' = Inr ms"
    by (simp add: getTMMessages_def scan_tx_def tx_endpoints_def extractTMMessage_def
                  isTMTransaction_eq scan_init_def)
  have "\<forall>t \<in> set ?txs. tx_tag_plain t"
    by (simp add: tx_tag_plain_def get_tx_data_2)
  with getTMMessages_never_delivers [OF ms refl] ms show ?thesis by simp
qed

text \<open>
  C6.  A history of transactions with plain tags that contains a transaction the
  classifier accepts makes the scan throw: the accepted frame has length \<open>NaN\<close>, and
  \<^verbatim>\<open>new Array(NaN)\<close> throws a \<^verbatim>\<open>RangeError\<close> (or an earlier transaction without
  input or output throws a \<^verbatim>\<open>TypeError\<close>); the callback is never called.
\<close>

theorem getTMMessages_accepted_throws:
  assumes "node address = Inr txs" and "\<exists>t \<in> set txs. isTMTransaction t"
    and "\<forall>t \<in> set txs. tx_tag_plain t"
  shows "\<exists>e. getTMMessages node address = Inl e"
  using assms scan_history_accepted_throws [of txs]
  by (auto simp add: getTMMessages_def scan_init_def)

theorem getTMMessages_accepted_throws_witness:
  "getTMMessages (\<lambda>_. Inr [\<lparr>tx_inputs = [PayTo ''A''], tx_outputs = [PayTo ''B'', DataOut ''TM''],
                           tx_hash = ''h''\<rparr>]) ''B''
     = Inl (RangeError ''Invalid array length'')"
proof -
  let ?t = "\<lparr>tx_inputs = [PayTo ''A''], tx_outputs = [PayTo ''B'', DataOut ''TM''], tx_hash = ''h''\<rparr>"
  have "\<exists>t \<in> set [?t]. isTMTransaction t"
    by (simp add: isTMTransaction_eq TX_PREFIX_def collation_ignorable_def)
  moreover have "\<forall>t \<in> set [?t]. tx_tag_plain t"
    by (simp add: tx_tag_plain_def get_tx_data_2 tag_plain_def collation_ignorable_def)
  ultimately obtain e where "getTMMessages (\<lambda>_. Inr [?t]) ''B'' = Inl e"
    using getTMMessages_accepted_throws [of "\<lambda>_. Inr [?t]" "''B''" "[?t]", OF refl] by blast
  then show ?thesis
    by (simp add: getTMMessages_def scan_init_def scan_tx_def tx_endpoints_def extractTMMessage_def
                  isTMTransaction_eq TX_PREFIX_def tm_ingest_def tm_decode_def collation_ignorable_def)
qed

text \<open>
  C7.  The buffer assembles a conversation in sequence order: when the chunks of a
  message of \<open>n > 0\<close> chunks, with distinct sequence numbers \<open>0..<n\<close>, arrive in
  any order for a conversation without a buffer, exactly one message is appended,
  whose text is the concatenation of the payloads ordered by sequence number and whose
  transaction ids are in the same order; no buffer is left behind.
\<close>

theorem reassembly_in_sequence_order:
  assumes "chnkBuf st (conv_key src dst) = None"
    and "distinct (map fst cs)" and "set (map fst cs) = {0..<n}" and "0 < n"
  shows "ingest_frames src dst n cs st =
           Inr (st\<lparr>msgs := msgs st @ [\<lparr>m_src = src, m_dst = dst,
                                          m_data = concat (map (fst \<circ> snd) (sort_key fst cs)),
                                          m_txs = map (snd \<circ> snd) (sort_key fst cs)\<rparr>]\<rparr>)"
  using ingest_frames_from_empty [OF assms] assembled_in_key_order [OF assms(2,3)] by simp

theorem reassembly_in_sequence_order_witness:
  "ingest_frames ''A'' ''B'' 3 [(2, ''c'', ''t2''), (0, ''a'', ''t0''), (1, ''b'', ''t1'')] scan_init =
     Inr \<lparr>chnkBuf = Map.empty,
          msgs = [\<lparr>m_src = ''A'', m_dst = ''B'', m_data = ''abc'', m_txs = [''t0'', ''t1'', ''t2'']\<rparr>]\<rparr>"
proof -
  have k: "set (map fst [(2::nat, ''c'', ''t2''), (0, ''a'', ''t0''), (1, ''b'', ''t1'')]) = {0..<3}"
    by auto
  show ?thesis
    using reassembly_in_sequence_order [OF _ _ k, of scan_init "''A''" "''B''"] by (simp add: scan_init_def)
qed

text \<open>
  C8.  Arrival order does not matter: two arrival orders of the same chunks (distinct
  sequence numbers covering \<open>0..<n\<close>, \<open>n > 0\<close>) of a conversation without a buffer
  lead to the same scan state.
\<close>

theorem reassembly_order_independent:
  assumes "chnkBuf st (conv_key src dst) = None" and "0 < n"
    and "distinct (map fst cs1)" and "set (map fst cs1) = {0..<n}"
    and "distinct (map fst cs2)" and "set cs2 = set cs1"
  shows "ingest_frames src dst n cs1 st = ingest_frames src dst n cs2 st"
proof -
  have k2: "set (map fst cs2) = {0..<n}"
    using assms(4,6) by simp
  have "map_of cs1 = map_of cs2"
    using assms(3,5,6) by (simp add: map_of_inject_set)
  then show ?thesis
    using ingest_frames_from_empty [OF assms(1,3,4,2)] ingest_frames_from_empty [OF assms(1,5) k2 assms(2)]
    by simp
qed

theorem reassembly_order_independent_witness:
  "ingest_frames ''A'' ''B'' 3 [(0, ''a'', ''t0''), (1, ''b'', ''t1''), (2, ''c'', ''t2'')] scan_init =
   ingest_frames ''A'' ''B'' 3 [(2, ''c'', ''t2''), (0, ''a'', ''t0''), (1, ''b'', ''t1'')] scan_init"
proof -
  have k: "set (map fst [(0::nat, ''a'', ''t0''), (1, ''b'', ''t1''), (2, ''c'', ''t2'')]) = {0..<3}"
    by auto
  show ?thesis
    by (rule reassembly_order_independent [OF _ _ _ k]) (auto simp add: scan_init_def)
qed

text \<open>
  C9.  A duplicate chunk is idempotent: ingesting again the chunk just ingested
  (same frame, same transaction) leaves the scan state unchanged, as long as the first
  ingestion did not complete the message.
\<close>

theorem duplicate_chunk_idempotent:
  assumes "tm_ingest src dst fr h st = Inr st'" and "chnkBuf st' (conv_key src dst) \<noteq> None"
  shows "tm_ingest src dst fr h st' = Inr st'"
proof -
  from assms obtain b where
    kept: "chnkBuf st' (conv_key src dst) = Some (buf_set b (f_seq fr) (f_msg fr, h))"
    and nc: "\<not> buf_complete (buf_set b (f_seq fr) (f_msg fr, h)) (f_len fr)"
    and st': "st' = st\<lparr>chnkBuf := (chnkBuf st)(conv_key src dst \<mapsto> buf_set b (f_seq fr) (f_msg fr, h))\<rparr>"
    by (rule tm_ingest_kept)
  have "st'\<lparr>chnkBuf := (chnkBuf st')(conv_key src dst \<mapsto> buf_set b (f_seq fr) (f_msg fr, h))\<rparr> = st'"
    using kept by (simp add: map_upd_triv)
  then show ?thesis
    using kept nc by (simp add: tm_ingest_def buf_set_idem)
qed

theorem duplicate_chunk_idempotent_witness:
  "tm_ingest ''A'' ''B'' \<lparr>f_seq = Num 0, f_len = Num 2, f_msg = ''a''\<rparr> ''t0''
     \<lparr>chnkBuf = [''AB'' \<mapsto> [0 \<mapsto> (''a'', ''t0'')]], msgs = []\<rparr>
   = Inr \<lparr>chnkBuf = [''AB'' \<mapsto> [0 \<mapsto> (''a'', ''t0'')]], msgs = []\<rparr>"
proof -
  let ?fr = "\<lparr>f_seq = Num 0, f_len = Num 2, f_msg = ''a''\<rparr>"
  have first: "tm_ingest ''A'' ''B'' ?fr ''t0'' scan_init =
                 Inr \<lparr>chnkBuf = [''AB'' \<mapsto> [0 \<mapsto> (''a'', ''t0'')]], msgs = []\<rparr>"
    by (simp add: tm_ingest_def scan_init_def conv_key_def Let_def numeral_2_eq_2)
  have "chnkBuf \<lparr>chnkBuf = [''AB'' \<mapsto> [0 \<mapsto> (''a'', ''t0'')]], msgs = []\<rparr> (conv_key ''A'' ''B'') \<noteq> None"
    by (simp add: conv_key_def)
  from duplicate_chunk_idempotent [OF first this] show ?thesis .
qed

text \<open>
  C37.  What the scan does deliver: frames whose tag hides a character the collation
  of line 59 ignores.  A history of transactions from \<open>src\<close> to \<open>dst\<close> whose data
  strings are \<^verbatim>\<open>TM\<close>, one ignorable control character, the length and the sequence
  number as single hexadecimal digits, then the payload (the encoder's layout with one
  more character after the tag, where the decoder's offsets 3, 4 and 5 expect the
  header), with sequence numbers covering \<open>0..<n\<close> in any order, makes
  \<^verbatim>\<open>getTMMessages\<close> deliver exactly one message: the payloads in sequence order and
  the carrying transactions in the same order.
\<close>

theorem ignorable_tag_frames_delivered:
  assumes "collation_ignorable c" and "0 < n" and "n < 16"
    and "distinct (map fst cs)" and "set (map fst cs) = {0..<n}"
  shows "getTMMessages (\<lambda>_. Inr (map (\<lambda>(k, p, h). \<lparr>tx_inputs = [PayTo src],
            tx_outputs = [PayTo dst, DataOut (TX_PREFIX @ [c, hex_char n, hex_char k] @ p)], tx_hash = h\<rparr>) cs)) a =
         Inr [\<lparr>m_src = src, m_dst = dst, m_data = concat (map (fst \<circ> snd) (sort_key fst cs)),
               m_txs = map (snd \<circ> snd) (sort_key fst cs)\<rparr>]"
proof -
  have "\<forall>k \<in> fst ` set cs. k < 16" using assms(3,5) by auto
  then have "scan_history scan_init (map (\<lambda>(k, p, h). \<lparr>tx_inputs = [PayTo src],
            tx_outputs = [PayTo dst, DataOut (TX_PREFIX @ [c, hex_char n, hex_char k] @ p)], tx_hash = h\<rparr>) cs) =
         ingest_frames src dst n cs scan_init"
    using assms(1,3) by (intro scan_history_ignorable_frames)
  moreover have "chnkBuf scan_init (conv_key src dst) = None" by (simp add: scan_init_def)
  ultimately show ?thesis
    using ingest_frames_from_empty [of scan_init src dst cs n] assembled_in_key_order [OF assms(4,5), of src dst]
          assms(2,4,5)
    by (simp add: getTMMessages_def scan_init_def)
qed

theorem ignorable_tag_frames_delivered_witness:
  "getTMMessages (\<lambda>_. Inr [\<lparr>tx_inputs = [PayTo ''A''],
       tx_outputs = [PayTo ''B'', DataOut (''TM'' @ [CHR 0x01, CHR ''2'', CHR ''1''] @ ''lo'')], tx_hash = ''t1''\<rparr>,
     \<lparr>tx_inputs = [PayTo ''A''],
       tx_outputs = [PayTo ''B'', DataOut (''TM'' @ [CHR 0x01, CHR ''2'', CHR ''0''] @ ''hel'')], tx_hash = ''t0''\<rparr>]) ''B'' =
   Inr [\<lparr>m_src = ''A'', m_dst = ''B'', m_data = ''hello'', m_txs = [''t0'', ''t1'']\<rparr>]"
proof -
  have k: "set (map fst [(1::nat, ''lo'', ''t1''), (0, ''hel'', ''t0'')]) = {0..<2}" by auto
  have "collation_ignorable (CHR 0x01)" by (simp add: collation_ignorable_def)
  from ignorable_tag_frames_delivered [OF this _ _ _ k, of "''A''" "''B''" "''B''"]
  show ?thesis by (simp add: TX_PREFIX_def hex_char_def hex_digits_def)
qed

text \<open>
  C10.  The conversation key \<^verbatim>\<open>src+dst\<close> of line 206 merges distinct
  conversations: when two pairs of endpoints have the same concatenation, chunks of a
  message that arrive first from one conversation and then from the other, with
  distinct sequence numbers covering \<open>0..<n\<close>, are assembled into one message with
  all their payloads in sequence order, attributed to the conversation of the chunks
  that complete it.
\<close>

theorem conversation_key_collision:
  assumes "conv_key src1 dst1 = conv_key src2 dst2"
    and "chnkBuf st (conv_key src1 dst1) = None"
    and "distinct (map fst (ds1 @ ds2))" and "set (map fst (ds1 @ ds2)) = {0..<n}"
    and "ds1 \<noteq> []" and "ds2 \<noteq> []"
  shows "(case ingest_frames src1 dst1 n ds1 st of
            Inl e \<Rightarrow> Inl e
          | Inr st1 \<Rightarrow> ingest_frames src2 dst2 n ds2 st1) =
         Inr (st\<lparr>msgs := msgs st @ [\<lparr>m_src = src2, m_dst = dst2,
                                        m_data = concat (map (fst \<circ> snd) (sort_key fst (ds1 @ ds2))),
                                        m_txs = map (snd \<circ> snd) (sort_key fst (ds1 @ ds2))\<rparr>]\<rparr>)"
proof -
  let ?k = "conv_key src1 dst1"
  let ?st0 = "st\<lparr>chnkBuf := (chnkBuf st)(?k \<mapsto> Map.empty)\<rparr>"
  let ?st1 = "st\<lparr>chnkBuf := (chnkBuf st)(?k \<mapsto> map_of ds1)\<rparr>"
  obtain s c ds1' where ds1: "ds1 = (s, c) # ds1'" using assms(5) by (cases ds1) auto
  have dis: "fst ` set ds1 \<inter> fst ` set ds2 = {}"
    using assms(3) by simp
  obtain x where x: "x \<in> fst ` set ds2" using assms(6) by (cases ds2) auto
  have "fst ` set ds1 \<union> fst ` set ds2 = {0..<n}" using assms(4) by simp
  then have "x \<in> {0..<n}" using x by blast
  moreover have "x \<notin> fst ` set ds1" using x dis by blast
  ultimately have "\<not> {0..<n} \<subseteq> dom Map.empty \<union> set (map fst ds1)"
    by auto
  then have "ingest_frames src1 dst1 n ds1 ?st0 = Inr (?st0\<lparr>chnkBuf := (chnkBuf ?st0)(?k \<mapsto> Map.empty ++ map_of ds1)\<rparr>)"
    using assms(3) by (intro ingest_frames_partial) simp_all
  then have first: "ingest_frames src1 dst1 n ds1 st = Inr ?st1"
    using ingest_frames_None [OF assms(2)] ds1 by simp
  have fill: "ingest_frames src2 dst2 n ds2 ?st1 =
          Inr \<lparr>chnkBuf = (chnkBuf ?st1)(conv_key src2 dst2 := None),
               msgs = msgs ?st1 @ [assembled src2 dst2 (map_of ds1 ++ map_of ds2) n]\<rparr>"
  proof (rule ingest_frames_fill)
    show "chnkBuf ?st1 (conv_key src2 dst2) = Some (map_of ds1)" using assms(1) by simp
    show "dom (map_of ds1) \<inter> set (map fst ds2) = {}" using dis by (simp add: dom_map_of_conv_image_fst)
    show "dom (map_of ds1) \<union> set (map fst ds2) = {0..<n}" using assms(4) by (simp add: dom_map_of_conv_image_fst)
    show "distinct (map fst ds2)" using assms(3) by simp
  qed (rule assms(6))
  have "map_of (ds1 @ ds2) = map_of ds2 ++ map_of ds1" by simp
  also have "\<dots> = map_of ds1 ++ map_of ds2"
    using dis by (intro map_add_comm) (auto simp add: dom_map_of_conv_image_fst)
  finally have m: "map_of ds1 ++ map_of ds2 = map_of (ds1 @ ds2)" by (rule sym)
  have b: "(chnkBuf ?st1)(conv_key src2 dst2 := None) = chnkBuf st"
    using assms(1,2) by auto
  show ?thesis
    using first fill m b assembled_in_key_order [OF assms(3,4), of src2 dst2] by simp
qed

theorem conversation_key_collision_witness:
  "(case ingest_frames ''ab'' ''c'' 2 [(0, ''x'', ''t0'')] scan_init of
      Inl e \<Rightarrow> Inl e
    | Inr st \<Rightarrow> ingest_frames ''a'' ''bc'' 2 [(1, ''y'', ''t1'')] st)
   = Inr \<lparr>chnkBuf = Map.empty,
          msgs = [\<lparr>m_src = ''a'', m_dst = ''bc'', m_data = ''xy'', m_txs = [''t0'', ''t1'']\<rparr>]\<rparr>"
proof -
  have k: "set (map fst ([(0::nat, ''x'', ''t0'')] @ [(1, ''y'', ''t1'')])) = {0..<2}"
    by auto
  show ?thesis
    using conversation_key_collision [OF _ _ _ k, of "''ab''" "''c''" "''a''" "''bc''" scan_init]
    by (simp add: conv_key_def scan_init_def)
qed

end
