(* ===== verification/Pipeline.thy ===== *)
theory Pipeline
  imports Classifier
begin

text \<open>
  Transmission pipeline: \<^verbatim>\<open>sendTMMessage\<close> (\<^verbatim>\<open>src/TxMEx.js\<close>, lines 88--184) and
  its inner function \<^verbatim>\<open>sendMsgTransaction\<close> (lines 108--162).

  The collaborators are the record \<open>ledger_api\<close>, over a type \<open>'l\<close> of ledger
  states, \<open>'u\<close> of spendable outputs and \<open>'t\<close> of transactions: the helpers of
  \<^verbatim>\<open>TMutils\<close> the code calls (network, address validation, balance), the Insight
  client (\<^verbatim>\<open>getUnspentUtxos\<close>, \<^verbatim>\<open>broadcast\<close>) and bitcore's transaction builder and
  signer.  A call that fails synchronously (a thrown exception caught by the code's
  \<^verbatim>\<open>try\<close>) and one that fails through its callback are distinct results.  The
  chunking helper \<^verbatim>\<open>TMutils.chunkMessage\<close> is not under \<^verbatim>\<open>src/\<close> and is modelled
  from the spec (consecutive substrings of at most the given size).

  The mutable variables of one invocation (\<^verbatim>\<open>chunks\<close>, \<^verbatim>\<open>seq\<close>, \<^verbatim>\<open>tries\<close>,
  \<^verbatim>\<open>senttxs\<close>) are the record \<open>send_job\<close>.  One call of \<^verbatim>\<open>sendMsgTransaction\<close>,
  from the funding request to the broadcast callback, is \<open>send_iter\<close>: it either
  ends the job by calling back, or re-enters \<^verbatim>\<open>sendMsgTransaction\<close> (a retry or
  the next chunk).  The re-entry is written \<^verbatim>\<open>setTimeout(sendMsgTransaction(cb), d)\<close>:
  the call runs at once (it issues the next funding request) and its result
  \<^verbatim>\<open>undefined\<close> is handed to \<^verbatim>\<open>setTimeout\<close>, which in Node.js throws a
  \<^verbatim>\<open>TypeError\<close> for a callback that is not a function.  That exception escapes the
  Insight callback: the model records it as an \<open>Ev_uncaught\<close> event and lets the
  already issued request continue, which is what happens when the process survives
  uncaught exceptions; under Node's default the process ends at the first such event
  (see \<open>until_crash\<close>).  The loop is \<open>send_loop\<close>, a \<open>partial_function (option)\<close>:
  \<open>None\<close> is a job that never calls back.  Each run returns the final ledger state, the
  trace of observable events and the callback's result.
\<close>

type_synonym key = string

datatype network = Livenet | Testnet

text \<open>Outcome of \<^verbatim>\<open>insight.broadcast\<close>: a synchronous throw, or the callback's error or id.\<close>

datatype 'l bcast_result = Bcast_throw string | Bcast_err 'l string | Bcast_ok 'l txid

record ('l, 'u, 't) ledger_api =
  getBTCNetwork :: "addr \<Rightarrow> network"
  isValidAddr :: "addr \<Rightarrow> network \<Rightarrow> bool"
  getBTCAddrBalance :: "'l \<Rightarrow> addr \<Rightarrow> string + nat"
  getUnspentUtxos :: "'l \<Rightarrow> addr \<Rightarrow> string + 'u list"
  build_tx :: "'u list \<Rightarrow> addr \<Rightarrow> nat \<Rightarrow> addr \<Rightarrow> string \<Rightarrow> string + 't"
  set_fee :: "'t \<Rightarrow> nat \<Rightarrow> 't"
  sign_tx :: "'t \<Rightarrow> key \<Rightarrow> string + 't"
  broadcast :: "'l \<Rightarrow> 't \<Rightarrow> 'l bcast_result"
  tx_text :: "'t \<Rightarrow> string"

text \<open>Observable events of a send, in the order the code observes them.\<close>

datatype send_event =
    Ev_balance
  | Ev_fetch
  | Ev_broadcast string
  | Ev_bcast_ok txid
  | Ev_bcast_err string
  | Ev_uncaught js_exn

text \<open>The arguments the code hands to its callback \<^verbatim>\<open>cb(err, res)\<close>.\<close>

datatype cb_result = Cb_error string | Cb_ok "txid list"

text \<open>
  How an invocation ends: its callback is called, or an exception escapes a callback
  and the caller's callback is never called.
\<close>

datatype send_outcome = Called cb_result | Crashed js_exn

record send_job =
  chunks :: "string list"
  seq :: nat
  tries :: nat
  senttxs :: "txid list"

datatype 'l iter_result =
    Iter_done 'l "send_event list" cb_result
  | Iter_next 'l send_job "send_event list"

subsection \<open>Operations\<close>

text \<open>\<^verbatim>\<open>TMutils.chunkMessage(msg, w)\<close>, from the spec: consecutive substrings of at most \<open>w\<close> characters.\<close>

function chunkMessage :: "string \<Rightarrow> nat \<Rightarrow> string list" where
  "chunkMessage msg w =
     (if msg = [] \<or> w = 0 then [] else take w msg # chunkMessage (drop w msg) w)"
  by pat_completeness auto
termination
  by (relation "measure (\<lambda>(msg, w). length msg)") auto

declare chunkMessage.simps [simp del]

text \<open>The exception \<^verbatim>\<open>setTimeout\<close> throws for the callback \<^verbatim>\<open>undefined\<close> (lines 143 and 157).\<close>

definition setTimeout_exn :: js_exn where
  "setTimeout_exn = TypeError ''The callback argument must be of type function. Received undefined''"

text \<open>Lines 108--162: one call of \<^verbatim>\<open>sendMsgTransaction\<close>, up to its broadcast callback.\<close>

definition send_iter :: "('l, 'u, 't) ledger_api \<Rightarrow> addr \<Rightarrow> addr \<Rightarrow> key \<Rightarrow> 'l \<Rightarrow> send_job \<Rightarrow> 'l iter_result" where
  "send_iter api src dst pk l j =
     (case getUnspentUtxos api l src of
        Inl err \<Rightarrow> Iter_done l [Ev_fetch] (Cb_error (''[getUnspentUtxos]: '' @ err))
      | Inr utxos \<Rightarrow>
          (let data = tm_data (chunks j) (seq j) in
           case build_tx api utxos dst MIN_AMOUNT src data of
             Inl e \<Rightarrow> Iter_done l [Ev_fetch] (Cb_error e)
           | Inr t0 \<Rightarrow>
               (let t1 = set_fee api t0 MIN_FEE in
                case sign_tx api t1 pk of
                  Inl e \<Rightarrow> Iter_done l [Ev_fetch] (Cb_error e)
                | Inr t \<Rightarrow>
                    (case broadcast api l t of
                       Bcast_throw e \<Rightarrow> Iter_done l [Ev_fetch, Ev_broadcast data] (Cb_error e)
                     | Bcast_err l' err \<Rightarrow>
                         if tries j < MAX_SEND_RETRY then
                           Iter_next l' (j\<lparr>tries := Suc (tries j)\<rparr>)
                             [Ev_fetch, Ev_broadcast data, Ev_bcast_err err, Ev_uncaught setTimeout_exn]
                         else
                           Iter_done l' [Ev_fetch, Ev_broadcast data, Ev_bcast_err err]
                             (Cb_error (''[insight.broadcast]: '' @ err @ tx_text api t))
                     | Bcast_ok l' txid \<Rightarrow>
                         (let j' = j\<lparr>senttxs := senttxs j @ [txid]\<rparr> in
                          if int (seq j) = int (length (chunks j)) - 1 then
                            Iter_done l' [Ev_fetch, Ev_broadcast data, Ev_bcast_ok txid] (Cb_ok (senttxs j'))
                          else
                            Iter_next l' (j'\<lparr>seq := Suc (seq j)\<rparr>)
                              [Ev_fetch, Ev_broadcast data, Ev_bcast_ok txid, Ev_uncaught setTimeout_exn])))))"

text \<open>The chain of calls of \<^verbatim>\<open>sendMsgTransaction\<close>; \<open>evs\<close> accumulates the trace.\<close>

partial_function (option) send_loop ::
  "('l, 'u, 't) ledger_api \<Rightarrow> addr \<Rightarrow> addr \<Rightarrow> key \<Rightarrow> 'l \<Rightarrow> send_job \<Rightarrow> send_event list \<Rightarrow>
     ('l \<times> send_event list \<times> cb_result) option" where
  "send_loop api src dst pk l j evs =
     (case send_iter api src dst pk l j of
        Iter_done l' evs' r \<Rightarrow> Some (l', evs @ evs', r)
      | Iter_next l' j' evs' \<Rightarrow> send_loop api src dst pk l' j' (evs @ evs'))"

text \<open>The job state at line 104--106.\<close>

definition new_job :: "string list \<Rightarrow> send_job" where
  "new_job cs = \<lparr>chunks = cs, seq = 0, tries = 0, senttxs = []\<rparr>"

text \<open>
  Lines 88--184.  The insufficient-funds branch (lines 168--174) calls \<^verbatim>\<open>cb\<close>, which
  is not in scope there: evaluating it throws a \<^verbatim>\<open>ReferenceError\<close> inside the balance
  callback, and the caller's callback is never called.
\<close>

definition sendTMMessage ::
  "('l, 'u, 't) ledger_api \<Rightarrow> addr \<Rightarrow> addr \<Rightarrow> string \<Rightarrow> key \<Rightarrow> 'l \<Rightarrow>
     ('l \<times> send_event list \<times> send_outcome) option" where
  "sendTMMessage api src dst msg pk l =
     (let network = getBTCNetwork api src in
      if \<not> isValidAddr api src network \<or> \<not> isValidAddr api dst network
      then Some (l, [], Called (Cb_error ''Invalid address''))
      else
        (let cs = chunkMessage msg MAX_PAYLOAD_SIZE in
         case getBTCAddrBalance api l src of
           Inl err \<Rightarrow> Some (l, [Ev_balance], Called (Cb_error (''[getBTCAddrBalance]: '' @ err)))
         | Inr balance \<Rightarrow>
             if balance < (MIN_AMOUNT + MIN_FEE) * length cs
             then Some (l, [Ev_balance, Ev_uncaught (ReferenceError ''cb is not defined'')],
                        Crashed (ReferenceError ''cb is not defined''))
             else map_option (\<lambda>(l', evs, r). (l', evs, Called r))
                    (send_loop api src dst pk l (new_job cs) [Ev_balance])))"

subsection \<open>The job as a state machine\<close>

text \<open>Job states reachable from \<open>s\<close> by re-entries of \<^verbatim>\<open>sendMsgTransaction\<close>.\<close>

inductive send_reach ::
  "('l, 'u, 't) ledger_api \<Rightarrow> addr \<Rightarrow> addr \<Rightarrow> key \<Rightarrow> 'l \<times> send_job \<Rightarrow> 'l \<times> send_job \<Rightarrow> bool"
  for api src dst pk where
  reach_refl: "send_reach api src dst pk s s"
| reach_step: "send_reach api src dst pk s (l, j) \<Longrightarrow> send_iter api src dst pk l j = Iter_next l' j' evs \<Longrightarrow>
     send_reach api src dst pk s (l', j')"

text \<open>The invariant of a job: a chunk to send, and a retry counter within its budget.\<close>

definition job_inv :: "send_job \<Rightarrow> bool" where
  "job_inv j \<longleftrightarrow> seq j < length (chunks j) \<and> tries j \<le> MAX_SEND_RETRY"

text \<open>What decreases at each re-entry.\<close>

definition job_measure :: "send_job \<Rightarrow> nat" where
  "job_measure j = (length (chunks j) - seq j) * (MAX_SEND_RETRY + 1) + (MAX_SEND_RETRY - tries j)"

text \<open>The behaviour of Node.js on an uncaught exception: the trace up to it.\<close>

fun is_uncaught :: "send_event \<Rightarrow> bool" where
  "is_uncaught (Ev_uncaught _) = True"
| "is_uncaught _ = False"

definition until_crash :: "send_event list \<Rightarrow> send_event list" where
  "until_crash evs = takeWhile (\<lambda>e. \<not> is_uncaught e) evs"

fun is_bcast_ok :: "send_event \<Rightarrow> bool" where
  "is_bcast_ok (Ev_bcast_ok _) = True"
| "is_bcast_ok _ = False"

fun is_bcast_err :: "send_event \<Rightarrow> bool" where
  "is_bcast_err (Ev_bcast_err _) = True"
| "is_bcast_err _ = False"

text \<open>A collaborator under which every funding, build, signature and broadcast succeeds.\<close>

definition api_accepting :: "('l, 'u, 't) ledger_api \<Rightarrow> bool" where
  "api_accepting api \<longleftrightarrow>
     (\<forall>l a. \<exists>us. getUnspentUtxos api l a = Inr us) \<and>
     (\<forall>us d amt c data. \<exists>t. build_tx api us d amt c data = Inr t) \<and>
     (\<forall>t k. \<exists>t'. sign_tx api t k = Inr t') \<and>
     (\<forall>l t. \<exists>l' h. broadcast api l t = Bcast_ok l' h)"

text \<open>The transaction ids of the successful broadcasts of a trace, in order.\<close>

fun ok_ids :: "send_event list \<Rightarrow> txid list" where
  "ok_ids [] = []"
| "ok_ids (Ev_bcast_ok h # es) = h # ok_ids es"
| "ok_ids (_ # es) = ok_ids es"

text \<open>
  A concrete collaborator for evaluating runs (it models no code of the repository):
  every address but the empty one is valid, the balance is a field of the ledger,
  funding, building and signing succeed, and the broadcasts fail or succeed as the
  script \<open>fail_script\<close> says (\<open>True\<close> is a failure; an exhausted script accepts).
  An accepted transaction gets the id \<^verbatim>\<open>tx\<close> followed by a counter and is appended
  to the ledger's transactions.  Built transactions have the outputs bitcore gives
  them: the payment, the data output, and the change last.
\<close>

record demo_ledger =
  fail_script :: "bool list"
  next_id :: nat
  funds :: nat
  ledger_txs :: "tx list"

definition demo_api :: "(demo_ledger, unit, tx) ledger_api" where
  "demo_api =
     \<lparr>getBTCNetwork = (\<lambda>_. Testnet),
      isValidAddr = (\<lambda>a n. a \<noteq> []),
      getBTCAddrBalance = (\<lambda>l a. Inr (funds l)),
      getUnspentUtxos = (\<lambda>l a. Inr [()]),
      build_tx = (\<lambda>us d amt c data.
                    Inr \<lparr>tx_inputs = [PayTo c], tx_outputs = [PayTo d, DataOut data, PayTo c], tx_hash = []\<rparr>),
      set_fee = (\<lambda>t f. t),
      sign_tx = (\<lambda>t k. Inr t),
      broadcast = (\<lambda>l t. case fail_script l of
                      True # fs \<Rightarrow> Bcast_err (l\<lparr>fail_script := fs\<rparr>) ''rejected''
                    | _ \<Rightarrow> Bcast_ok (l\<lparr>fail_script := drop 1 (fail_script l), next_id := Suc (next_id l),
                                       ledger_txs := ledger_txs l @ [t\<lparr>tx_hash := ''tx'' @ nat_to_dec (next_id l)\<rparr>]\<rparr>)
                                   (''tx'' @ nat_to_dec (next_id l))),
      tx_text = (\<lambda>t. [])\<rparr>"

definition demo_start :: "bool list \<Rightarrow> nat \<Rightarrow> demo_ledger" where
  "demo_start fs b = \<lparr>fail_script = fs, next_id = 0, funds = b, ledger_txs = []\<rparr>"

text \<open>The demo collaborator with every broadcast accepted.\<close>

definition accept_api :: "(demo_ledger, unit, tx) ledger_api" where
  "accept_api = demo_api\<lparr>broadcast := (\<lambda>l t.
     Bcast_ok (l\<lparr>next_id := Suc (next_id l), ledger_txs := ledger_txs l @ [t\<lparr>tx_hash := ''tx'' @ nat_to_dec (next_id l)\<rparr>]\<rparr>)
              (''tx'' @ nat_to_dec (next_id l)))\<rparr>"

subsection \<open>Lemmas\<close>

text \<open>The shape of one iteration that re-enters: a retry or the next chunk.\<close>

lemma send_iter_next_cases:
  assumes "send_iter api src dst pk l j = Iter_next l' j' evs"
  shows "(tries j < MAX_SEND_RETRY \<and> j' = j\<lparr>tries := Suc (tries j)\<rparr> \<and>
          (\<exists>err. evs = [Ev_fetch, Ev_broadcast (tm_data (chunks j) (seq j)), Ev_bcast_err err,
                         Ev_uncaught setTimeout_exn])) \<or>
         (int (seq j) \<noteq> int (length (chunks j)) - 1 \<and>
          (\<exists>h. j' = j\<lparr>senttxs := senttxs j @ [h], seq := Suc (seq j)\<rparr> \<and>
               evs = [Ev_fetch, Ev_broadcast (tm_data (chunks j) (seq j)), Ev_bcast_ok h,
                      Ev_uncaught setTimeout_exn]))"
  using assms
  by (auto simp add: send_iter_def Let_def split: sum.splits bcast_result.splits if_splits)

lemma send_iter_next_inv:
  assumes "send_iter api src dst pk l j = Iter_next l' j' evs" and "job_inv j"
  shows "job_inv j' \<and> job_measure j' < job_measure j \<and> chunks j' = chunks j"
  using send_iter_next_cases [OF assms(1)] assms(2)
  by (auto simp add: job_inv_def job_measure_def MAX_SEND_RETRY_def)


lemma send_reach_inv_gen:
  assumes "send_reach api src dst pk s t" and "s = (l0, j0)" and "job_inv j0"
  shows "job_inv (snd t) \<and> chunks (snd t) = chunks j0 \<and> tries j0 \<le> tries (snd t) \<and>
         seq j0 \<le> seq (snd t) \<and>
         length (senttxs (snd t)) = length (senttxs j0) + (seq (snd t) - seq j0)"
  using assms
proof (induction rule: send_reach.induct)
  case (reach_refl s)
  then show ?case by simp
next
  case (reach_step s l j l' j' evs)
  then have ih: "job_inv j \<and> chunks j = chunks j0 \<and> tries j0 \<le> tries j \<and> seq j0 \<le> seq j \<and>
                 length (senttxs j) = length (senttxs j0) + (seq j - seq j0)"
    by simp
  then have "job_inv j'" and "chunks j' = chunks j"
    using send_iter_next_inv [OF reach_step.hyps(2)] by auto
  moreover have "tries j \<le> tries j' \<and> seq j \<le> seq j' \<and>
                 length (senttxs j') = length (senttxs j) + (seq j' - seq j)"
    using send_iter_next_cases [OF reach_step.hyps(2)] by auto
  ultimately show ?case using ih by auto
qed

lemma send_loop_Some:
  assumes "job_inv j"
  shows "\<exists>r. send_loop api src dst pk l j evs = Some r"
  using assms
proof (induction "job_measure j" arbitrary: l j evs rule: less_induct)
  case less
  show ?case
  proof (cases "send_iter api src dst pk l j")
    case (Iter_done l' evs' r)
    then show ?thesis by (simp add: send_loop.simps [of api src dst pk l j evs])
  next
    case (Iter_next l' j' evs')
    have "job_inv j'" and "job_measure j' < job_measure j"
      using send_iter_next_inv [OF Iter_next less.prems] by simp_all
    then obtain r where "send_loop api src dst pk l' j' (evs @ evs') = Some r"
      using less.hyps by blast
    with Iter_next show ?thesis
      by (intro exI) (simp add: send_loop.simps [of api src dst pk l j evs])
  qed
qed

lemma chunkMessage_nonempty: "msg \<noteq> [] \<Longrightarrow> 0 < w \<Longrightarrow> chunkMessage msg w \<noteq> []"
  by (subst chunkMessage.simps) simp

text \<open>The number of chunks: the length divided by the width, rounded up.\<close>

lemma length_chunkMessage:
  assumes "0 < w"
  shows "length (chunkMessage msg w) = (if msg = [] then 0 else Suc ((length msg - 1) div w))"
proof (induction "length msg" arbitrary: msg rule: less_induct)
  case less
  show ?case
  proof (cases "msg = []")
    case True
    then show ?thesis by (subst chunkMessage.simps) simp
  next
    case False
    with assms have step: "length (chunkMessage msg w) = Suc (length (chunkMessage (drop w msg) w))"
      by (simp add: chunkMessage.simps [of msg w])
    show ?thesis
    proof (cases "length msg \<le> w")
      case True
      then have "drop w msg = []" by simp
      moreover have "(length msg - 1) div w = 0" using True False assms by (simp add: div_less)
      ultimately show ?thesis using step False by (simp add: chunkMessage.simps [of "[]" w])
    next
      case long: False
      then have "drop w msg \<noteq> []" and "length (drop w msg) < length msg" using assms by auto
      then have "length (chunkMessage (drop w msg) w) = Suc ((length msg - w - 1) div w)"
        using less.hyps by simp
      moreover have "(length msg - 1) div w = Suc ((length msg - 1 - w) div w)"
        using long assms by (simp add: le_div_geq)
      ultimately show ?thesis using step False by simp
    qed
  qed
qed

text \<open>The facts that evaluate a run of \<^verbatim>\<open>sendTMMessage\<close> against the demo collaborator.\<close>

lemmas run_simps = sendTMMessage_def send_loop.simps send_iter_def demo_api_def demo_start_def
  new_job_def chunkMessage.simps tm_data_def tm_prefix_def tx_constants nat_to_dec.simps Let_def
  hex_char_def hex_digits_def

lemma new_job_inv: "cs \<noteq> [] \<Longrightarrow> job_inv (new_job cs)"
  by (simp add: job_inv_def new_job_def)

lemma send_loop_induct [consumes 1, case_names finish reenter]:
  assumes "send_loop api src dst pk l j evs = Some y"
    and finish: "\<And>l j evs l' it r. send_iter api src dst pk l j = Iter_done l' it r \<Longrightarrow> P l j evs (l', evs @ it, r)"
    and reenter: "\<And>l j evs l' j' it y. send_iter api src dst pk l j = Iter_next l' j' it \<Longrightarrow>
                 P l' j' (evs @ it) y \<Longrightarrow> P l j evs y"
  shows "P l j evs y"
proof -
  have gen: "api' = api \<and> src' = src \<and> dst' = dst \<and> pk' = pk \<longrightarrow> P l' j' evs' y'"
    if ret: "send_loop api' src' dst' pk' l' j' evs' = Some y'" for api' src' dst' pk' l' j' evs' y'
  proof (rule send_loop.raw_induct
      [where P = "\<lambda>a s d p l j evs y. a = api \<and> s = src \<and> d = dst \<and> p = pk \<longrightarrow> P l j evs y", OF _ ret])
    fix f a s d p l j evs y
    assume IH: "\<And>a s d p l j evs y. f a s d p l j evs = Some y \<Longrightarrow>
                  a = api \<and> s = src \<and> d = dst \<and> p = pk \<longrightarrow> P l j evs y"
      and body: "(case send_iter a s d p l j of
                    Iter_done l' evs' r \<Rightarrow> Some (l', evs @ evs', r)
                  | Iter_next l' j' evs' \<Rightarrow> f a s d p l' j' (evs @ evs')) = Some y"
    show "a = api \<and> s = src \<and> d = dst \<and> p = pk \<longrightarrow> P l j evs y"
    proof
      assume same: "a = api \<and> s = src \<and> d = dst \<and> p = pk"
      show "P l j evs y"
      proof (cases "send_iter api src dst pk l j")
        case (Iter_done l' it r)
        with body same have "y = (l', evs @ it, r)" by simp
        with Iter_done show ?thesis by (simp add: finish)
      next
        case (Iter_next l' j' it)
        with body same have "f api src dst pk l' j' (evs @ it) = Some y" by simp
        then have "P l' j' (evs @ it) y" using IH by blast
        with Iter_next show ?thesis by (rule reenter)
      qed
    qed
  qed
  with assms(1) show ?thesis by blast
qed


lemma send_iter_done_cases:
  assumes "send_iter api src dst pk l j = Iter_done l' it r"
  shows "(\<forall>e \<in> set it. \<not> is_uncaught e) \<and> length (filter is_bcast_ok it) \<le> 1 \<and>
         (tries j \<le> MAX_SEND_RETRY \<longrightarrow> length (filter is_bcast_err it) + tries j \<le> MAX_SEND_RETRY + 1) \<and>
         (\<forall>txs. r = Cb_ok txs \<longrightarrow>
            int (seq j) = int (length (chunks j)) - 1 \<and> txs = senttxs j @ ok_ids it \<and> length (ok_ids it) = 1)"
  using assms
  by (auto simp add: send_iter_def Let_def MAX_SEND_RETRY_def split: sum.splits bcast_result.splits if_splits)

lemma send_loop_prefix:
  assumes "send_loop api src dst pk l j evs = Some y"
  shows "\<exists>rest. fst (snd y) = evs @ rest"
  using assms
proof (induction rule: send_loop_induct)
  case (finish l j evs l' it r)
  then show ?case by simp
next
  case (reenter l j evs l' j' it y)
  then show ?case by auto
qed


lemma ok_ids_append [simp]: "ok_ids (xs @ ys) = ok_ids xs @ ok_ids ys"
  by (induction xs rule: ok_ids.induct) simp_all

lemma send_loop_retry_budget:
  assumes "send_loop api src dst pk l j evs = Some y" and "tries j \<le> MAX_SEND_RETRY"
  shows "length (filter is_bcast_err (fst (snd y))) + tries j \<le>
           length (filter is_bcast_err evs) + MAX_SEND_RETRY + 1"
  using assms
proof (induction rule: send_loop_induct)
  case (finish l j evs l' it r)
  then show ?case using send_iter_done_cases [OF finish.hyps] by simp
next
  case (reenter l j evs l' j' it y)
  from send_iter_next_cases [OF reenter.hyps(1)] reenter.prems reenter.IH show ?case
    by (auto simp add: MAX_SEND_RETRY_def)
qed

lemma send_loop_until_crash:
  assumes "send_loop api src dst pk l j evs = Some y"
  shows "(\<exists>rest. fst (snd y) = evs @ rest) \<and>
         ((\<forall>e \<in> set evs. \<not> is_uncaught e) \<longrightarrow>
            length (filter is_bcast_ok (until_crash (fst (snd y)))) \<le> length (filter is_bcast_ok evs) + 1)"
  using assms
proof (induction rule: send_loop_induct)
  case (finish l j evs l' it r)
  then show ?case using send_iter_done_cases [OF finish]
    by (simp add: until_crash_def takeWhile_append2 takeWhile_eq_all_conv [THEN iffD2])
next
  case (reenter l j evs l' j' it y)
  then obtain rest where y: "fst (snd y) = (evs @ it) @ rest" by blast
  have "until_crash (it @ rest) = until_crash it"
    using send_iter_next_cases [OF reenter.hyps(1)] by (auto simp add: until_crash_def)
  moreover have "length (filter is_bcast_ok (until_crash it)) \<le> 1"
    using send_iter_next_cases [OF reenter.hyps(1)] by (auto simp add: until_crash_def)
  ultimately show ?case
    using y by (auto simp add: until_crash_def takeWhile_append2)
qed

lemma send_loop_success:
  assumes "send_loop api src dst pk l j evs = Some y"
  shows "\<exists>rest. fst (snd y) = evs @ rest \<and>
           (\<forall>txs. snd (snd y) = Cb_ok txs \<longrightarrow> txs = senttxs j @ ok_ids rest \<and>
              (job_inv j \<and> length (senttxs j) = seq j \<longrightarrow> length txs = length (chunks j)))"
  using assms
proof (induction rule: send_loop_induct)
  case (finish l j evs l' it r)
  then show ?case using send_iter_done_cases [OF finish]
    by (auto simp add: job_inv_def)
next
  case (reenter l j evs l' j' it y)
  then obtain rest where y: "fst (snd y) = (evs @ it) @ rest"
    and ok: "\<forall>txs. snd (snd y) = Cb_ok txs \<longrightarrow> txs = senttxs j' @ ok_ids rest \<and>
              (job_inv j' \<and> length (senttxs j') = seq j' \<longrightarrow> length txs = length (chunks j'))"
    by blast
  have "job_inv j \<longrightarrow> job_inv j' \<and> chunks j' = chunks j"
    using send_iter_next_inv [OF reenter.hyps(1)] by blast
  then show ?case
    using send_iter_next_cases [OF reenter.hyps(1)] y ok
    by (intro exI [of _ "it @ rest"]) auto
qed

lemma send_iter_accepting:
  assumes "api_accepting api"
  obtains l' h where "send_iter api src dst pk l j =
     (if int (seq j) = int (length (chunks j)) - 1
      then Iter_done l' [Ev_fetch, Ev_broadcast (tm_data (chunks j) (seq j)), Ev_bcast_ok h]
             (Cb_ok (senttxs j @ [h]))
      else Iter_next l' (j\<lparr>senttxs := senttxs j @ [h], seq := Suc (seq j)\<rparr>)
             [Ev_fetch, Ev_broadcast (tm_data (chunks j) (seq j)), Ev_bcast_ok h, Ev_uncaught setTimeout_exn])"
proof -
  have acc: "\<exists>us. getUnspentUtxos api l a = Inr us" "\<exists>t. build_tx api us d amt c data = Inr t"
    "\<exists>t'. sign_tx api t k = Inr t'" "\<exists>l' h. broadcast api l t = Bcast_ok l' h"
    for l a us d amt c data t k
    using assms by (simp_all add: api_accepting_def)
  from acc(1) obtain us where us: "getUnspentUtxos api l src = Inr us" by blast
  from acc(2) obtain t0 where t0: "build_tx api us dst MIN_AMOUNT src (tm_data (chunks j) (seq j)) = Inr t0"
    by blast
  from acc(3) obtain t where t: "sign_tx api (set_fee api t0 MIN_FEE) pk = Inr t" by blast
  from acc(4) obtain l' h where b: "broadcast api l t = Bcast_ok l' h" by blast
  show ?thesis
    using us t0 t b by (intro that [of l' h]) (simp add: send_iter_def)
qed

lemma send_loop_accepting:
  assumes "api_accepting api" and "job_inv j"
  shows "\<exists>l' rest. send_loop api src dst pk l j evs = Some (l', evs @ rest, Cb_ok (senttxs j @ ok_ids rest)) \<and>
           length (ok_ids rest) = length (chunks j) - seq j \<and>
           filter is_bcast_err rest = [] \<and>
           filter is_uncaught rest = replicate (length (chunks j) - Suc (seq j)) (Ev_uncaught setTimeout_exn)"
  using assms(2)
proof (induction "job_measure j" arbitrary: l j evs rule: less_induct)
  case less
  obtain l' h where it: "send_iter api src dst pk l j =
     (if int (seq j) = int (length (chunks j)) - 1
      then Iter_done l' [Ev_fetch, Ev_broadcast (tm_data (chunks j) (seq j)), Ev_bcast_ok h]
             (Cb_ok (senttxs j @ [h]))
      else Iter_next l' (j\<lparr>senttxs := senttxs j @ [h], seq := Suc (seq j)\<rparr>)
             [Ev_fetch, Ev_broadcast (tm_data (chunks j) (seq j)), Ev_bcast_ok h, Ev_uncaught setTimeout_exn])"
    using send_iter_accepting [OF assms(1)] by blast
  show ?case
  proof (cases "int (seq j) = int (length (chunks j)) - 1")
    case True
    then have "Suc (seq j) = length (chunks j)" by linarith
    with True it show ?thesis
      by (intro exI [of _ l'] exI [of _ "[Ev_fetch, Ev_broadcast (tm_data (chunks j) (seq j)), Ev_bcast_ok h]"])
        (simp add: send_loop.simps [of api src dst pk l j evs])
  next
    case False
    define j' where "j' = j\<lparr>senttxs := senttxs j @ [h], seq := Suc (seq j)\<rparr>"
    define it' where "it' = [Ev_fetch, Ev_broadcast (tm_data (chunks j) (seq j)), Ev_bcast_ok h,
                             Ev_uncaught setTimeout_exn]"
    have nx: "send_iter api src dst pk l j = Iter_next l' j' it'"
      using it False by (simp add: j'_def it'_def)
    have inv: "job_inv j'" and m: "job_measure j' < job_measure j"
      using send_iter_next_inv [OF nx less.prems] by simp_all
    obtain l'' rest where
      r: "send_loop api src dst pk l' j' (evs @ it') = Some (l'', (evs @ it') @ rest, Cb_ok (senttxs j' @ ok_ids rest))"
      and n: "length (ok_ids rest) = length (chunks j') - seq j'"
      and e: "filter is_bcast_err rest = []"
      and u: "filter is_uncaught rest = replicate (length (chunks j') - Suc (seq j')) (Ev_uncaught setTimeout_exn)"
      using less.hyps [OF m inv, of l' "evs @ it'"] by blast
    have lt: "Suc (seq j) < length (chunks j)" using False less.prems by (simp add: job_inv_def)
    have "send_loop api src dst pk l j evs = Some (l'', evs @ (it' @ rest), Cb_ok (senttxs j @ ok_ids (it' @ rest)))"
      using r nx by (simp add: send_loop.simps [of api src dst pk l j evs] j'_def it'_def)
    moreover have "filter is_uncaught (it' @ rest) =
                     replicate (length (chunks j) - Suc (seq j)) (Ev_uncaught setTimeout_exn)"
    proof -
      have "length (chunks j) - Suc (seq j) = Suc (length (chunks j) - Suc (Suc (seq j)))"
        using lt by simp
      then show ?thesis using u by (simp add: it'_def j'_def)
    qed
    ultimately show ?thesis
      using n e lt by (intro exI [of _ l''] exI [of _ "it' @ rest"]) (simp add: it'_def j'_def)
  qed
qed

lemma send_loop_empty_no_ok:
  assumes "send_loop api src dst pk l j evs = Some y"
  shows "chunks j = [] \<longrightarrow> (\<forall>txs. snd (snd y) \<noteq> Cb_ok txs)"
  using assms
proof (induction rule: send_loop_induct)
  case (finish l j evs l' it r)
  then show ?case using send_iter_done_cases [OF finish] by auto
next
  case (reenter l j evs l' j' it y)
  then show ?case using send_iter_next_cases [OF reenter.hyps(1)] by auto
qed

lemma send_iter_accepting_empty:
  assumes "api_accepting api" and "chunks j = []"
  shows "\<exists>l' j' it. send_iter api src dst pk l j = Iter_next l' j' it \<and> chunks j' = []"
proof -
  obtain l' h where "send_iter api src dst pk l j =
     (if int (seq j) = int (length (chunks j)) - 1
      then Iter_done l' [Ev_fetch, Ev_broadcast (tm_data (chunks j) (seq j)), Ev_bcast_ok h]
             (Cb_ok (senttxs j @ [h]))
      else Iter_next l' (j\<lparr>senttxs := senttxs j @ [h], seq := Suc (seq j)\<rparr>)
             [Ev_fetch, Ev_broadcast (tm_data (chunks j) (seq j)), Ev_bcast_ok h, Ev_uncaught setTimeout_exn])"
    using send_iter_accepting [OF assms(1)] by blast
  then show ?thesis using assms(2) by simp
qed

lemma send_loop_empty_chunks:
  assumes "send_loop api src dst pk l j evs = Some y"
  shows "chunks j = [] \<longrightarrow> \<not> api_accepting api"
  using assms
proof (induction rule: send_loop_induct)
  case (finish l j evs l' it r)
  then show ?case using send_iter_accepting_empty [of api j src dst pk l] by auto
next
  case (reenter l j evs l' j' it y)
  then show ?case using send_iter_next_cases [OF reenter.hyps(1)] by auto
qed

lemma api_accepting_accept_api: "api_accepting accept_api"
  by (simp add: api_accepting_def accept_api_def demo_api_def)

lemma sendTMMessage_loop:
  assumes "isValidAddr api src (getBTCNetwork api src)" and "isValidAddr api dst (getBTCNetwork api src)"
    and "getBTCAddrBalance api l src = Inr b"
    and "(MIN_AMOUNT + MIN_FEE) * length (chunkMessage msg MAX_PAYLOAD_SIZE) \<le> b"
  shows "sendTMMessage api src dst msg pk l =
           map_option (\<lambda>(l', evs, r). (l', evs, Called r))
             (send_loop api src dst pk l (new_job (chunkMessage msg MAX_PAYLOAD_SIZE)) [Ev_balance])"
  using assms by (simp add: sendTMMessage_def Let_def)

lemma sendTMMessage_cases:
  assumes "sendTMMessage api src dst msg pk l = Some (l', evs, out)"
  shows "((evs = [] \<or> evs = [Ev_balance] \<or> evs = [Ev_balance, Ev_uncaught (ReferenceError ''cb is not defined'')]) \<and>
          (\<forall>txs. out \<noteq> Called (Cb_ok txs))) \<or>
         (\<exists>r. out = Called r \<and> send_loop api src dst pk l (new_job (chunkMessage msg MAX_PAYLOAD_SIZE)) [Ev_balance] = Some (l', evs, r))"
  using assms by (auto simp add: sendTMMessage_def Let_def split: if_splits sum.splits)

lemma sendTMMessage_accepting:
  assumes "api_accepting api"
    and "isValidAddr api src (getBTCNetwork api src)" and "isValidAddr api dst (getBTCNetwork api src)"
    and "getBTCAddrBalance api l src = Inr b"
    and "(MIN_AMOUNT + MIN_FEE) * length (chunkMessage msg MAX_PAYLOAD_SIZE) \<le> b" and "msg \<noteq> []"
  shows "\<exists>l' evs. sendTMMessage api src dst msg pk l = Some (l', evs, Called (Cb_ok (ok_ids evs))) \<and>
           length (ok_ids evs) = length (chunkMessage msg MAX_PAYLOAD_SIZE) \<and>
           filter is_bcast_err evs = [] \<and>
           filter is_uncaught evs =
             replicate (length (chunkMessage msg MAX_PAYLOAD_SIZE) - 1) (Ev_uncaught setTimeout_exn)"
proof -
  have inv: "job_inv (new_job (chunkMessage msg MAX_PAYLOAD_SIZE))"
    using assms(6) by (simp add: new_job_inv chunkMessage_nonempty MAX_PAYLOAD_SIZE_def)
  obtain l' rest where
    r: "send_loop api src dst pk l (new_job (chunkMessage msg MAX_PAYLOAD_SIZE)) [Ev_balance] =
          Some (l', [Ev_balance] @ rest, Cb_ok (ok_ids rest))"
    and props: "length (ok_ids rest) = length (chunkMessage msg MAX_PAYLOAD_SIZE)" "filter is_bcast_err rest = []"
      "filter is_uncaught rest = replicate (length (chunkMessage msg MAX_PAYLOAD_SIZE) - 1) (Ev_uncaught setTimeout_exn)"
    using send_loop_accepting [OF assms(1) inv, of src dst pk l "[Ev_balance]"] by (auto simp add: new_job_def)
  show ?thesis
    using r props sendTMMessage_loop [OF assms(2-5), of pk] by (intro exI [of _ l'] exI [of _ "Ev_balance # rest"]) simp
qed

subsection \<open>Properties\<close>

text \<open>
  C11.  Termination of the send loop: for every collaborator, a non-empty message makes
  \<^verbatim>\<open>sendTMMessage\<close> come to an end (a callback or an uncaught exception), since each
  re-entry of \<^verbatim>\<open>sendMsgTransaction\<close> either advances the chunk or spends one of the
  three retries.
\<close>

theorem sendTMMessage_terminates:
  assumes "msg \<noteq> []"
  shows "\<exists>r. sendTMMessage api src dst msg pk l = Some r"
proof -
  have inv: "job_inv (new_job (chunkMessage msg MAX_PAYLOAD_SIZE))"
    using assms by (simp add: new_job_inv chunkMessage_nonempty MAX_PAYLOAD_SIZE_def)
  obtain y where "send_loop api src dst pk l (new_job (chunkMessage msg MAX_PAYLOAD_SIZE)) [Ev_balance] = Some y"
    using send_loop_Some [OF inv, of api src dst pk l "[Ev_balance]"] by (elim exE)
  then show ?thesis by (cases y) (auto simp add: sendTMMessage_def Let_def split: sum.splits)
qed

theorem sendTMMessage_terminates_witness:
  "\<exists>r. sendTMMessage demo_api ''A'' ''B'' ''hello world'' ''k'' (demo_start [True, True] 10000) = Some r"
  using sendTMMessage_terminates [of "''hello world''"] by simp

text \<open>
  C12.  The invariant of the send job: in every state reachable by re-entries from the
  initial job of a non-empty chunk list, the sequence number indexes a chunk, the retry
  counter is within its budget, the chunks are unchanged, and one transaction id has
  been recorded per chunk already sent.
\<close>

theorem job_invariant:
  assumes "send_reach api src dst pk (l0, new_job cs) (l, j)" and "cs \<noteq> []"
  shows "job_inv j \<and> chunks j = cs \<and> length (senttxs j) = seq j"
  using send_reach_inv_gen [OF assms(1) refl new_job_inv [OF assms(2)]]
  by (simp add: new_job_def)

theorem job_invariant_witness:
  "job_inv \<lparr>chunks = [''ab'', ''c''], seq = 1, tries = 1, senttxs = [''tx0'']\<rparr>"
proof -
  define txs where "txs = [\<lparr>tx_inputs = [PayTo ''A''], tx_outputs = [PayTo ''B'', DataOut ''TM20ab'', PayTo ''A''],
                           tx_hash = ''tx0''\<rparr>]"
  have "send_reach demo_api ''A'' ''B'' ''k'' (demo_start [False, True] 10000, new_job [''ab'', ''c''])
          (demo_start [True] 10000\<lparr>next_id := 1, ledger_txs := txs\<rparr>, new_job [''ab'', ''c'']\<lparr>seq := 1, senttxs := [''tx0'']\<rparr>)"
    by (rule reach_step [OF reach_refl]) (simp add: run_simps txs_def)
  then have "send_reach demo_api ''A'' ''B'' ''k'' (demo_start [False, True] 10000, new_job [''ab'', ''c''])
          (demo_start [] 10000\<lparr>next_id := 1, ledger_txs := txs\<rparr>, new_job [''ab'', ''c'']\<lparr>seq := 1, senttxs := [''tx0''], tries := 1\<rparr>)"
    by (rule reach_step) (simp add: run_simps txs_def)
  from job_invariant [OF this] show ?thesis by (simp add: new_job_def)
qed

text \<open>
  C13.  The insufficient-funds branch (lines 168--174): when the balance does not cover
  all chunks, no transaction is built and the caller's callback is never called; the
  reference to the undeclared \<^verbatim>\<open>cb\<close> throws a \<^verbatim>\<open>ReferenceError\<close> out of the balance
  callback.
\<close>

theorem insufficient_funds_crashes:
  assumes "isValidAddr api src (getBTCNetwork api src)" and "isValidAddr api dst (getBTCNetwork api src)"
    and "getBTCAddrBalance api l src = Inr b"
    and "b < (MIN_AMOUNT + MIN_FEE) * length (chunkMessage msg MAX_PAYLOAD_SIZE)"
  shows "sendTMMessage api src dst msg pk l =
           Some (l, [Ev_balance, Ev_uncaught (ReferenceError ''cb is not defined'')],
                 Crashed (ReferenceError ''cb is not defined''))"
  using assms by (simp add: sendTMMessage_def Let_def)

theorem insufficient_funds_crashes_witness:
  "sendTMMessage demo_api ''A'' ''B'' ''hello world'' ''k'' (demo_start [] 500) =
     Some (demo_start [] 500, [Ev_balance, Ev_uncaught (ReferenceError ''cb is not defined'')],
           Crashed (ReferenceError ''cb is not defined''))"
  using insufficient_funds_crashes [of demo_api "''A''" "''B''" "demo_start [] 500" 500 "''hello world''" "''k''"]
  by (simp add: demo_api_def demo_start_def length_chunkMessage tx_constants)

text \<open>
  C14.  The retry budget is per message, not per chunk: whatever the collaborator and
  the number of chunks, a run reports at most \<open>MAX_SEND_RETRY + 1\<close> failed broadcasts,
  since \<^verbatim>\<open>tries\<close> is never reset when a chunk is sent (line 142).
\<close>

theorem retry_budget_per_message:
  assumes "sendTMMessage api src dst msg pk l = Some (l', evs, out)"
  shows "length (filter is_bcast_err evs) \<le> MAX_SEND_RETRY + 1"
  using sendTMMessage_cases [OF assms]
proof
  assume "(evs = [] \<or> evs = [Ev_balance] \<or> evs = [Ev_balance, Ev_uncaught (ReferenceError ''cb is not defined'')]) \<and>
          (\<forall>txs. out \<noteq> Called (Cb_ok txs))"
  then show ?thesis by auto
next
  assume "\<exists>r. out = Called r \<and>
            send_loop api src dst pk l (new_job (chunkMessage msg MAX_PAYLOAD_SIZE)) [Ev_balance] = Some (l', evs, r)"
  then obtain r where "send_loop api src dst pk l (new_job (chunkMessage msg MAX_PAYLOAD_SIZE)) [Ev_balance] = Some (l', evs, r)"
    by blast
  from send_loop_retry_budget [OF this] show ?thesis by (simp add: new_job_def)
qed

theorem retry_budget_per_message_witness:
  "\<exists>l' evs. sendTMMessage demo_api ''A'' ''B'' ''hello world'' ''k'' (demo_start [True, True, True, True, True] 10000) =
      Some (l', evs, Called (Cb_error ''[insight.broadcast]: rejected'')) \<and>
    length (filter is_bcast_err evs) = 4 \<and> length (filter is_bcast_err evs) \<le> MAX_SEND_RETRY + 1"
proof -
  have "\<exists>l' evs. sendTMMessage demo_api ''A'' ''B'' ''hello world'' ''k'' (demo_start [True, True, True, True, True] 10000) =
      Some (l', evs, Called (Cb_error ''[insight.broadcast]: rejected'')) \<and> length (filter is_bcast_err evs) = 4"
    by (simp add: run_simps)
  then obtain l' evs where r: "sendTMMessage demo_api ''A'' ''B'' ''hello world'' ''k'' (demo_start [True, True, True, True, True] 10000) =
      Some (l', evs, Called (Cb_error ''[insight.broadcast]: rejected''))" and "length (filter is_bcast_err evs) = 4"
    by blast
  with retry_budget_per_message [OF r] show ?thesis by blast
qed

text \<open>
  C16.  When every funding, build, signature and broadcast succeeds, valid addresses and
  enough funds make the callback report success with one transaction id per chunk,
  in order.  No capacity limit applies: the witness sends a sixteen-chunk message,
  which the spec says must fail with a capacity error.
\<close>

theorem accepting_sends_every_chunk:
  assumes "api_accepting api"
    and "isValidAddr api src (getBTCNetwork api src)" and "isValidAddr api dst (getBTCNetwork api src)"
    and "getBTCAddrBalance api l src = Inr b"
    and "(MIN_AMOUNT + MIN_FEE) * length (chunkMessage msg MAX_PAYLOAD_SIZE) \<le> b" and "msg \<noteq> []"
  shows "\<exists>l' evs. sendTMMessage api src dst msg pk l = Some (l', evs, Called (Cb_ok (ok_ids evs))) \<and>
           length (ok_ids evs) = length (chunkMessage msg MAX_PAYLOAD_SIZE)"
  using sendTMMessage_accepting [OF assms, of pk] by blast

theorem accepting_sends_every_chunk_witness:
  "\<exists>l' evs. sendTMMessage accept_api ''A'' ''B'' (replicate 1216 (CHR ''a'')) ''k'' (demo_start [] 100000) =
      Some (l', evs, Called (Cb_ok (ok_ids evs))) \<and> length (ok_ids evs) = 16"
proof -
  have n: "length (chunkMessage (replicate 1216 (CHR ''a'')) MAX_PAYLOAD_SIZE) = 16"
    by (simp add: length_chunkMessage MAX_PAYLOAD_SIZE_def)
  show ?thesis
    using accepting_sends_every_chunk [OF api_accepting_accept_api, of "''A''" "''B''" "demo_start [] 100000" 100000
        "replicate 1216 (CHR ''a'')" "''k''"] n
    by (simp add: accept_api_def demo_api_def demo_start_def tx_constants)
qed

text \<open>
  C17.  \<^verbatim>\<open>setTimeout(sendMsgTransaction(cb), 500)\<close> (line 157) calls the next
  iteration at once and passes its result \<^verbatim>\<open>undefined\<close> to \<^verbatim>\<open>setTimeout\<close>, which
  throws: a successful send of \<open>n\<close> chunks raises \<open>n - 1\<close> uncaught \<^verbatim>\<open>TypeError\<close>s.
\<close>

theorem multi_chunk_send_throws:
  assumes "api_accepting api"
    and "isValidAddr api src (getBTCNetwork api src)" and "isValidAddr api dst (getBTCNetwork api src)"
    and "getBTCAddrBalance api l src = Inr b"
    and "(MIN_AMOUNT + MIN_FEE) * length (chunkMessage msg MAX_PAYLOAD_SIZE) \<le> b" and "msg \<noteq> []"
  shows "\<exists>l' evs txs. sendTMMessage api src dst msg pk l = Some (l', evs, Called (Cb_ok txs)) \<and>
           filter is_uncaught evs =
             replicate (length (chunkMessage msg MAX_PAYLOAD_SIZE) - 1) (Ev_uncaught setTimeout_exn)"
  using sendTMMessage_accepting [OF assms, of pk] by blast

theorem multi_chunk_send_throws_witness:
  "\<exists>l' evs txs. sendTMMessage accept_api ''A'' ''B'' (replicate 80 (CHR ''a'')) ''k'' (demo_start [] 100000) =
      Some (l', evs, Called (Cb_ok txs)) \<and> filter is_uncaught evs = [Ev_uncaught setTimeout_exn]"
proof -
  have n: "length (chunkMessage (replicate 80 (CHR ''a'')) MAX_PAYLOAD_SIZE) = 2"
    by (simp add: length_chunkMessage MAX_PAYLOAD_SIZE_def)
  show ?thesis
    using multi_chunk_send_throws [OF api_accepting_accept_api, of "''A''" "''B''" "demo_start [] 100000" 100000
        "replicate 80 (CHR ''a'')" "''k''"] n
    by (simp add: accept_api_def demo_api_def demo_start_def tx_constants)
qed

text \<open>
  C18.  Under Node's default handling, which ends the process at the first uncaught
  exception, at most one chunk of any message is broadcast.
\<close>

theorem at_most_one_chunk_before_crash:
  assumes "sendTMMessage api src dst msg pk l = Some (l', evs, out)"
  shows "length (filter is_bcast_ok (until_crash evs)) \<le> 1"
  using sendTMMessage_cases [OF assms]
proof
  assume "(evs = [] \<or> evs = [Ev_balance] \<or> evs = [Ev_balance, Ev_uncaught (ReferenceError ''cb is not defined'')]) \<and>
          (\<forall>txs. out \<noteq> Called (Cb_ok txs))"
  then show ?thesis by (auto simp add: until_crash_def)
next
  assume "\<exists>r. out = Called r \<and>
            send_loop api src dst pk l (new_job (chunkMessage msg MAX_PAYLOAD_SIZE)) [Ev_balance] = Some (l', evs, r)"
  then obtain r where "send_loop api src dst pk l (new_job (chunkMessage msg MAX_PAYLOAD_SIZE)) [Ev_balance] = Some (l', evs, r)"
    by blast
  from send_loop_until_crash [OF this] show ?thesis by simp
qed

theorem at_most_one_chunk_before_crash_witness:
  "\<exists>l' evs. sendTMMessage accept_api ''A'' ''B'' (replicate 80 (CHR ''a'')) ''k'' (demo_start [] 100000) =
      Some (l', evs, Called (Cb_ok [''tx0'', ''tx1''])) \<and> length (filter is_bcast_ok evs) = 2 \<and>
      length (filter is_bcast_ok (until_crash evs)) \<le> 1"
proof -
  have "\<exists>l' evs. sendTMMessage accept_api ''A'' ''B'' (replicate 80 (CHR ''a'')) ''k'' (demo_start [] 100000) =
      Some (l', evs, Called (Cb_ok [''tx0'', ''tx1''])) \<and> length (filter is_bcast_ok evs) = 2"
    by (simp add: run_simps accept_api_def)
  then obtain l' evs where r: "sendTMMessage accept_api ''A'' ''B'' (replicate 80 (CHR ''a'')) ''k'' (demo_start [] 100000) =
      Some (l', evs, Called (Cb_ok [''tx0'', ''tx1'']))" and "length (filter is_bcast_ok evs) = 2"
    by blast
  with at_most_one_chunk_before_crash [OF r] show ?thesis by blast
qed

text \<open>
  C19.  An empty message has no chunk; the job sends the frame \<^verbatim>\<open>"TM00undefined"\<close>
  (as \<^verbatim>\<open>seq == chunks.length - 1\<close> never holds) and keeps re-entering: with a
  collaborator that accepts every broadcast the send never ends and never calls back.
\<close>

theorem empty_message_never_calls_back:
  assumes "api_accepting api"
    and "isValidAddr api src (getBTCNetwork api src)" and "isValidAddr api dst (getBTCNetwork api src)"
    and "getBTCAddrBalance api l src = Inr b"
  shows "sendTMMessage api src dst [] pk l = None"
proof -
  have "chunkMessage [] MAX_PAYLOAD_SIZE = []" by (simp add: chunkMessage.simps)
  moreover have "send_loop api src dst pk l (new_job []) [Ev_balance] = None"
    using send_loop_empty_chunks [of api src dst pk l "new_job []"] assms(1)
    by (cases "send_loop api src dst pk l (new_job []) [Ev_balance]") (auto simp add: new_job_def)
  ultimately show ?thesis
    using sendTMMessage_loop [OF assms(2-4), of "[]" pk] by simp
qed

theorem empty_message_never_calls_back_witness:
  "sendTMMessage accept_api ''A'' ''B'' [] ''k'' (demo_start [] 100000) = None"
  using empty_message_never_calls_back [OF api_accepting_accept_api, of "''A''" "''B''" "demo_start [] 100000" 100000 "''k''"]
  by (simp add: accept_api_def demo_api_def demo_start_def)

text \<open>
  C20.  What a success reports, for every collaborator: the callback's list is the
  list of transaction ids of the successful broadcasts of the run, in order, and it
  has one id per chunk.
\<close>

theorem success_reports_broadcast_ids:
  assumes "sendTMMessage api src dst msg pk l = Some (l', evs, Called (Cb_ok txs))"
  shows "txs = ok_ids evs \<and> length txs = length (chunkMessage msg MAX_PAYLOAD_SIZE)"
proof -
  define j where "j = new_job (chunkMessage msg MAX_PAYLOAD_SIZE)"
  have loop: "send_loop api src dst pk l j [Ev_balance] = Some (l', evs, Cb_ok txs)"
    using sendTMMessage_cases [OF assms] by (simp add: j_def)
  have ne: "chunks j \<noteq> []"
    using send_loop_empty_no_ok [OF loop] by auto
  have inv: "job_inv j \<and> length (senttxs j) = seq j"
    using ne new_job_inv [of "chunkMessage msg MAX_PAYLOAD_SIZE"] by (simp add: j_def new_job_def)
  obtain rest where "evs = [Ev_balance] @ rest"
    and "txs = senttxs j @ ok_ids rest"
    and "job_inv j \<and> length (senttxs j) = seq j \<longrightarrow> length txs = length (chunks j)"
    using send_loop_success [OF loop] by auto
  with inv show ?thesis by (simp add: j_def new_job_def)
qed

theorem success_reports_broadcast_ids_witness:
  "sendTMMessage demo_api ''A'' ''B'' ''hello world'' ''k'' (demo_start [True] 10000) =
     Some (demo_start [] 10000\<lparr>next_id := 1, ledger_txs := [\<lparr>tx_inputs = [PayTo ''A''],
             tx_outputs = [PayTo ''B'', DataOut ''TM10hello world'', PayTo ''A''], tx_hash = ''tx0''\<rparr>]\<rparr>,
           [Ev_balance, Ev_fetch, Ev_broadcast ''TM10hello world'', Ev_bcast_err ''rejected'',
            Ev_uncaught setTimeout_exn, Ev_fetch, Ev_broadcast ''TM10hello world'', Ev_bcast_ok ''tx0''],
           Called (Cb_ok [''tx0''])) \<and>
   [''tx0''] = ok_ids [Ev_balance, Ev_fetch, Ev_broadcast ''TM10hello world'', Ev_bcast_err ''rejected'',
            Ev_uncaught setTimeout_exn, Ev_fetch, Ev_broadcast ''TM10hello world'', Ev_bcast_ok ''tx0''] \<and>
   length [''tx0''] = length (chunkMessage ''hello world'' MAX_PAYLOAD_SIZE)"
proof -
  have r: "sendTMMessage demo_api ''A'' ''B'' ''hello world'' ''k'' (demo_start [True] 10000) =
     Some (demo_start [] 10000\<lparr>next_id := 1, ledger_txs := [\<lparr>tx_inputs = [PayTo ''A''],
             tx_outputs = [PayTo ''B'', DataOut ''TM10hello world'', PayTo ''A''], tx_hash = ''tx0''\<rparr>]\<rparr>,
           [Ev_balance, Ev_fetch, Ev_broadcast ''TM10hello world'', Ev_bcast_err ''rejected'',
            Ev_uncaught setTimeout_exn, Ev_fetch, Ev_broadcast ''TM10hello world'', Ev_bcast_ok ''tx0''],
           Called (Cb_ok [''tx0'']))"
    by (simp add: run_simps)
  from r success_reports_broadcast_ids [OF r] show ?thesis by blast
qed

text \<open>
  C21.  The chunk width is the transport's whole data bound: the data string of a full
  chunk of a message of 2 to 15 chunks is 80 characters, 4 more than
  \<^verbatim>\<open>MAX_PAYLOAD_SIZE\<close>; the spec leaves at most 72 characters of content per chunk.
\<close>

theorem frame_exceeds_payload_bound:
  assumes "MAX_PAYLOAD_SIZE \<le> length msg" and "length msg \<le> 15 * MAX_PAYLOAD_SIZE"
  shows "length (tm_data (chunkMessage msg MAX_PAYLOAD_SIZE) 0) = MAX_PAYLOAD_SIZE + 4"
proof -
  have ne: "msg \<noteq> []" using assms(1) by (auto simp add: MAX_PAYLOAD_SIZE_def)
  have "length (chunkMessage msg MAX_PAYLOAD_SIZE) = Suc ((length msg - 1) div MAX_PAYLOAD_SIZE)"
    using ne by (simp add: length_chunkMessage MAX_PAYLOAD_SIZE_def)
  moreover have "(length msg - 1) div MAX_PAYLOAD_SIZE < 15"
    using assms(2) by (simp add: MAX_PAYLOAD_SIZE_def less_mult_imp_div_less)
  ultimately have n: "length (chunkMessage msg MAX_PAYLOAD_SIZE) < 16" by simp
  have c0: "chunkMessage msg MAX_PAYLOAD_SIZE ! 0 = take MAX_PAYLOAD_SIZE msg"
    using ne by (simp add: chunkMessage.simps [of msg] MAX_PAYLOAD_SIZE_def)
  have "length (tm_prefix (length (chunkMessage msg MAX_PAYLOAD_SIZE)) 0) = 4"
    using n by (simp add: length_tm_prefix_four_iff)
  then show ?thesis
    using c0 assms(1) chunkMessage_nonempty [OF ne] by (simp add: tm_data_def js_str_index_def MAX_PAYLOAD_SIZE_def)
qed

theorem frame_exceeds_payload_bound_witness:
  "length (tm_data (chunkMessage (replicate 150 (CHR ''a'')) MAX_PAYLOAD_SIZE) 0) = 80"
proof -
  have "MAX_PAYLOAD_SIZE \<le> length (replicate 150 (CHR ''a''))" "length (replicate 150 (CHR ''a'')) \<le> 15 * MAX_PAYLOAD_SIZE"
    by (simp_all add: MAX_PAYLOAD_SIZE_def)
  from frame_exceeds_payload_bound [OF this] show ?thesis by (simp add: MAX_PAYLOAD_SIZE_def)
qed

end
