(* ===== verification/Js_Number.thy ===== *)
theory Js_Number
  imports TxBase
begin

text \<open>
  JavaScript numbers where the node registry computes with them (\<^verbatim>\<open>src/TMNet.js\<close>,
  line 63): non-negative integral doubles.  A value is \<open>Dbl n\<close> for a natural number
  \<open>n\<close> that is a double, or \<open>Infinity\<close>.  \<open>dbl_round\<close> is the rounding of a
  natural number to the nearest double, ties to the even significand, with overflow to
  \<open>Infinity\<close> (IEEE 754 binary64: 53-bit significands, largest finite value
  \<open>(2^53 - 1) * 2^971\<close>).  \<open>js_num_to_string\<close> is \<^verbatim>\<open>Number::toString\<close> in radix 10 for
  these values: the shortest digit string that rounds back to the value, printed in
  positional notation up to 21 digits and in exponential notation beyond.
\<close>

datatype js_double = Dbl nat | Infinity

text \<open>The comparison \<open>x <= y\<close> of two such numbers.\<close>

fun dbl_le :: "js_double \<Rightarrow> js_double \<Rightarrow> bool" where
  "dbl_le (Dbl a) (Dbl b) = (a \<le> b)"
| "dbl_le _ Infinity = True"
| "dbl_le Infinity (Dbl _) = False"

fun bit_len :: "nat \<Rightarrow> nat" where
  "bit_len n = (if n = 0 then 0 else Suc (bit_len (n div 2)))"

declare bit_len.simps [simp del]

definition dbl_round :: "nat \<Rightarrow> js_double" where
  "dbl_round n =
     (if n < 2 ^ 53 then Dbl n
      else
        (let sh = bit_len n - 53; q = n div 2 ^ sh; r = n mod 2 ^ sh;
             q' = (if 2 ^ sh < 2 * r \<or> (2 * r = 2 ^ sh \<and> odd q) then Suc q else q);
             v = q' * 2 ^ sh in
         if 2 ^ 1024 \<le> v then Infinity else Dbl v))"

text \<open>\<open>x + 1\<close> on a double \<open>x\<close>.\<close>

fun js_add1 :: "js_double \<Rightarrow> js_double" where
  "js_add1 (Dbl n) = dbl_round (Suc n)"
| "js_add1 Infinity = Infinity"

text \<open>
  The digits of \<^verbatim>\<open>Number::toString\<close>: the significand \<open>s\<close> at exponent \<open>e\<close> whose
  value \<open>s * 10^e\<close> rounds to \<open>m\<close>, among the two multiples of \<open>10^e\<close> around \<open>m\<close>,
  the closer one (the even one on a tie).
\<close>

definition digits_at :: "nat \<Rightarrow> nat \<Rightarrow> nat option" where
  "digits_at m e =
     (let s1 = m div 10 ^ e; s2 = Suc s1;
          ok1 = (0 < s1 \<and> dbl_round (s1 * 10 ^ e) = Dbl m);
          ok2 = (dbl_round (s2 * 10 ^ e) = Dbl m) in
      if ok1 \<and> ok2 then
        (if m - s1 * 10 ^ e < s2 * 10 ^ e - m \<or> (m - s1 * 10 ^ e = s2 * 10 ^ e - m \<and> even s1)
         then Some s1 else Some s2)
      else if ok1 then Some s1 else if ok2 then Some s2 else None)"

text \<open>The largest exponent at which digits exist gives the fewest digits.\<close>

primrec shortest_digits :: "nat \<Rightarrow> nat \<Rightarrow> nat \<times> nat" where
  "shortest_digits m 0 = (case digits_at m 0 of Some s \<Rightarrow> (s, 0) | None \<Rightarrow> (m, 0))"
| "shortest_digits m (Suc e) =
     (case digits_at m (Suc e) of Some s \<Rightarrow> (s, Suc e) | None \<Rightarrow> shortest_digits m e)"

fun js_num_to_string :: "js_double \<Rightarrow> string" where
  "js_num_to_string Infinity = ''Infinity''"
| "js_num_to_string (Dbl m) =
     (if m = 0 then ''0''
      else
        (let (s, e) = shortest_digits m (length (nat_to_dec m)); ds = nat_to_dec s;
             n = length ds + e in
         if n \<le> 21 then ds @ replicate e (CHR ''0'')
         else if length ds = 1 then ds @ ''e+'' @ nat_to_dec (n - 1)
         else [hd ds] @ ''.'' @ tl ds @ ''e+'' @ nat_to_dec (n - 1)))"

declare js_num_to_string.simps(2) [simp del]

subsection \<open>Lemmas\<close>

lemma bit_len_bounds: "0 < n \<Longrightarrow> 2 ^ (bit_len n - 1) \<le> n \<and> n < 2 ^ bit_len n"
proof (induction n rule: bit_len.induct)
  case (1 n)
  show ?case
  proof (cases "n = 1")
    case True
    then show ?thesis by (simp add: bit_len.simps)
  next
    case False
    with "1.prems" have "0 < n div 2" by simp
    with "1.IH" "1.prems" have ih: "2 ^ (bit_len (n div 2) - 1) \<le> n div 2 \<and> n div 2 < 2 ^ bit_len (n div 2)"
      by simp
    have b: "bit_len n = Suc (bit_len (n div 2))" using "1.prems" by (simp add: bit_len.simps)
    have "0 < bit_len (n div 2)" using \<open>0 < n div 2\<close> by (simp add: bit_len.simps)
    then have e: "(2::nat) ^ bit_len (n div 2) = 2 * 2 ^ (bit_len (n div 2) - 1)"
      by (cases "bit_len (n div 2)") simp_all
    have "2 * (n div 2) \<le> n" and "n < 2 * (n div 2) + 2" by linarith+
    with ih e b show ?thesis by simp linarith
  qed
qed

lemma dbl_round_exact [simp]: "n < 2 ^ 53 \<Longrightarrow> dbl_round n = Dbl n"
  by (simp add: dbl_round_def)

text \<open>At and above \<open>2^53\<close> the rounded value stays at or above \<open>2^53\<close>, and two above it stays two above it.\<close>

lemma dbl_round_large:
  assumes "2 ^ 53 \<le> n"
  shows "dbl_le (Dbl (2 ^ 53)) (dbl_round n) \<and> (2 ^ 53 + 2 \<le> n \<longrightarrow> dbl_le (Dbl (2 ^ 53 + 2)) (dbl_round n))"
proof -
  define b where "b = bit_len n"
  have bb: "2 ^ (b - 1) \<le> n" "n < 2 ^ b" using bit_len_bounds [of n] assms by (simp_all add: b_def)
  have "(2::nat) ^ 53 < 2 ^ b" using assms bb(2) by linarith
  then have "53 < b" by (rule power_less_imp_less_exp [rotated]) simp
  then have b54: "54 \<le> b" by simp
  define sh where "sh = b - 53"
  define q where "q = n div 2 ^ sh"
  have sh: "b - 1 = 52 + sh" using b54 by (simp add: sh_def)
  have "2 ^ 52 * 2 ^ sh \<le> n" using bb(1) sh by (simp add: power_add)
  then have q52: "2 ^ 52 \<le> q" unfolding q_def by (simp add: less_eq_div_iff_mult_less_eq)
  have low: "2 ^ (b - 1) \<le> q * 2 ^ sh" using q52 sh by (simp add: power_add)
  have m: "n mod 2 ^ sh < 2 ^ sh" by simp
  have dm: "q * 2 ^ sh + n mod 2 ^ sh = n" unfolding q_def by (rule div_mult_mod_eq)
  have "0 < q * 2 ^ sh" using q52 by simp
  then have lowq: "n - 2 ^ sh < q * 2 ^ sh"
    using dm m by linarith
  define q' where "q' = (if 2 ^ sh < 2 * (n mod 2 ^ sh) \<or> (2 * (n mod 2 ^ sh) = 2 ^ sh \<and> odd q) then Suc q else q)"
  have qq: "q \<le> q'" by (simp add: q'_def)
  have r: "dbl_round n = (if 2 ^ 1024 \<le> q' * 2 ^ sh then Infinity else Dbl (q' * 2 ^ sh))"
    using assms b54 by (simp add: dbl_round_def Let_def b_def sh_def q_def q'_def)
  have v: "q * 2 ^ sh \<le> q' * 2 ^ sh" using qq by simp
  have "(2::nat) ^ 53 \<le> 2 ^ (b - 1)" by (rule power_increasing) (use b54 in simp_all)
  then have V: "(2::nat) ^ 53 \<le> q' * 2 ^ sh" using low v by linarith
  then have A: "dbl_le (Dbl (2 ^ 53)) (dbl_round n)" using r by auto
  have B: "2 ^ 53 + 2 \<le> n \<longrightarrow> dbl_le (Dbl (2 ^ 53 + 2)) (dbl_round n)"
  proof
    assume n2: "2 ^ 53 + 2 \<le> n"
    have "(2::nat) ^ 53 + 2 \<le> q * 2 ^ sh"
    proof (cases "b = 54")
      case True
      then have "sh = 1" by (simp add: sh_def)
      then show ?thesis using lowq n2 by (simp add: q_def)
    next
      case False
      then have "(2::nat) ^ 54 \<le> 2 ^ (b - 1)" by (intro power_increasing) (use b54 in simp_all)
      then show ?thesis using low by simp
    qed
    then have "(2::nat) ^ 53 + 2 \<le> q' * 2 ^ sh" using v by linarith
    then show "dbl_le (Dbl (2 ^ 53 + 2)) (dbl_round n)" using r by auto
  qed
  from A B show ?thesis by blast
qed

lemma dbl_round_2_53 [simp]: "dbl_round 9007199254740992 = Dbl 9007199254740992"
  by (simp add: dbl_round_def bit_len.simps Let_def)

lemma dbl_round_Suc_2_53 [simp]: "dbl_round 9007199254740993 = Dbl 9007199254740992"
  by (simp add: dbl_round_def bit_len.simps Let_def)

lemma dbl_round_nat: "m \<le> 2 ^ 53 \<Longrightarrow> dbl_round m = Dbl m"
  by (cases "m = 2 ^ 53") simp_all

text \<open>Up to \<open>2^53\<close> a value rounds to \<open>m\<close> only when it is \<open>m\<close>, or \<open>2^53 + 1\<close> for \<open>2^53\<close>.\<close>

lemma dbl_round_inv:
  assumes "dbl_round x = Dbl m" and "m \<le> 2 ^ 53"
  shows "x = m \<or> (m = 2 ^ 53 \<and> x = Suc (2 ^ 53))"
proof (cases "x < 2 ^ 53")
  case True
  then show ?thesis using assms(1) by simp
next
  case False
  then have "dbl_le (Dbl (2 ^ 53)) (Dbl m)" and
    "2 ^ 53 + 2 \<le> x \<longrightarrow> dbl_le (Dbl (2 ^ 53 + 2)) (Dbl m)"
    using dbl_round_large [of x] assms(1) by simp_all
  with assms(2) False show ?thesis by auto
qed

text \<open>Up to \<open>2^53\<close> the digits found at exponent \<open>e\<close> are exactly those of \<open>m\<close>.\<close>

lemma digits_at_exact:
  assumes "digits_at m e = Some s" and "0 < m" and "m \<le> 2 ^ 53"
  shows "s * 10 ^ e = m"
proof -
  define s1 where "s1 = m div 10 ^ e"
  have dm: "s1 * 10 ^ e + m mod 10 ^ e = m" unfolding s1_def by (rule div_mult_mod_eq)
  have mlt: "m mod 10 ^ e < 10 ^ e" by simp
  have le: "s1 * 10 ^ e \<le> m" using dm by linarith
  have "Suc s1 * 10 ^ e = s1 * 10 ^ e + 10 ^ e" by simp
  then have gt: "m < Suc s1 * 10 ^ e" using dm mlt by linarith
  have ok1: "dbl_round (s1 * 10 ^ e) = Dbl m \<Longrightarrow> s1 * 10 ^ e = m"
    using dbl_round_inv [of "s1 * 10 ^ e" m] assms(3) le by auto
  have ok2: "Suc s1 * 10 ^ e = m \<or> (e = 0 \<and> s1 = m)" if "dbl_round (Suc s1 * 10 ^ e) = Dbl m"
  proof -
    from dbl_round_inv [OF that assms(3)]
    consider "Suc s1 * 10 ^ e = m" | "m = 2 ^ 53" "Suc s1 * 10 ^ e = Suc (2 ^ 53)" by blast
    then show ?thesis
    proof cases
      case 2
      have "e = 0"
      proof (rule ccontr)
        assume "e \<noteq> 0"
        then have "even (Suc s1 * 10 ^ e)" by simp
        with 2(2) show False by simp
      qed
      with s1_def show ?thesis by simp
    qed simp
  qed
  have m1: "dbl_round m = Dbl m" using assms(3) by (rule dbl_round_nat)
  show ?thesis
    using assms(1,2) ok1 ok2 m1
    unfolding digits_at_def Let_def s1_def [symmetric]
    by (auto split: if_splits)
qed

lemma shortest_digits_exact:
  "0 < m \<Longrightarrow> m \<le> 2 ^ 53 \<Longrightarrow> shortest_digits m e = (s, e') \<Longrightarrow> s * 10 ^ e' = m"
  by (induction e) (auto dest: digits_at_exact split: option.splits)

lemma nat_to_dec_times_ten: "0 < n \<Longrightarrow> nat_to_dec (n * 10) = nat_to_dec n @ [CHR ''0'']"
  by (subst nat_to_dec.simps) (simp add: hex_char_def hex_digits_def)

lemma nat_to_dec_pow_ten:
  "0 < s \<Longrightarrow> nat_to_dec (s * 10 ^ e) = nat_to_dec s @ replicate e (CHR ''0'')"
proof (induction e)
  case 0
  then show ?case by simp
next
  case (Suc e)
  have "s * 10 ^ Suc e = (s * 10 ^ e) * 10" by simp
  moreover have "0 < s * 10 ^ e" using Suc.prems by simp
  ultimately show ?case
    using Suc by (simp only: nat_to_dec_times_ten) (simp add: replicate_append_same)
qed

lemma length_nat_to_dec_le: "n < 10 ^ k \<Longrightarrow> 0 < k \<Longrightarrow> length (nat_to_dec n) \<le> k"
proof (induction n arbitrary: k rule: nat_to_dec.induct)
  case (1 n)
  show ?case
  proof (cases "n < 10")
    case True
    then show ?thesis using "1.prems" by (simp add: nat_to_dec.simps [of n])
  next
    case False
    then obtain k' where k: "k = Suc k'" using "1.prems" by (cases k) auto
    have "n div 10 < 10 ^ k'" using "1.prems"(1) k by (simp add: div_less_iff_less_mult)
    moreover have "0 < k'" using False "1.prems"(1) k by (cases k') auto
    ultimately have "length (nat_to_dec (n div 10)) \<le> k'" using "1.IH" False by simp
    then show ?thesis using False k by (simp add: nat_to_dec.simps [of n])
  qed
qed

text \<open>Up to \<open>2^53\<close> \<^verbatim>\<open>Number::toString\<close> prints the plain decimal numeral.\<close>

lemma js_num_to_string_nat:
  assumes "0 < m" and "m \<le> 2 ^ 53"
  shows "js_num_to_string (Dbl m) = nat_to_dec m"
proof -
  obtain s e where se: "shortest_digits m (length (nat_to_dec m)) = (s, e)" by (cases "shortest_digits m (length (nat_to_dec m))")
  have m: "s * 10 ^ e = m" using shortest_digits_exact [OF assms se] .
  then have s: "0 < s" using assms(1) by (cases s) simp_all
  have d: "nat_to_dec m = nat_to_dec s @ replicate e (CHR ''0'')" using nat_to_dec_pow_ten [OF s, of e] m by simp
  have "m < 10 ^ 16" using assms(2) by simp
  then have "length (nat_to_dec m) \<le> 16" by (rule length_nat_to_dec_le) simp
  then have "length (nat_to_dec s) + e \<le> 21" using d by simp
  then show ?thesis using se d assms(1) by (simp add: js_num_to_string.simps)
qed

end
