(* ===== verification/Registry.thy ===== *)
theory Registry
  imports Js_Number "HOL-Library.Multiset"
begin

text \<open>
  Node registry of \<^verbatim>\<open>src/TMNet.js\<close> (the class \<^verbatim>\<open>BMNet\<close>).  The registry object
  \<^verbatim>\<open>bmnodes\<close> is a plain JavaScript object from node ids to node objects: here an
  association list in insertion order, updated as a JavaScript object is (assigning
  an existing key keeps its position, \<^verbatim>\<open>delete\<close> removes it) and enumerated by
  \<^verbatim>\<open>for...in\<close> in the order of the language: the keys that are array indices
  (canonical decimal numerals below \<open>2^32 - 1\<close>) first, in increasing numeric order, then
  the other keys in insertion order.  A read \<^verbatim>\<open>bmnodes[id]\<close> also sees the members
  inherited from \<^verbatim>\<open>Object.prototype\<close> (\<open>obj_get\<close>), which are truthy and not
  enumerated; the setter \<^verbatim>\<open>__proto__\<close> in an assignment is not modelled (an id
  \<^verbatim>\<open>"__proto__"\<close> is stored as an ordinary key).  A thrown value, a string or
  the engine's \<^verbatim>\<open>TypeError\<close>, is an \<open>Inl\<close> value of \<open>thrown\<close>.  The modules \<^verbatim>\<open>BMNode\<close> and
  \<^verbatim>\<open>BMutils\<close> are not part of the repository: a node is the record of its id and
  address, and \<^verbatim>\<open>getFileExtension\<close> returns the text after the last dot, as the names
  say; \<^verbatim>\<open>isNum\<close>, which the spec does not describe, is taken to accept the non-empty
  strings of decimal digits.  The id generator computes with JavaScript numbers
  (theory \<open>Js_Number\<close>): comparisons and \<^verbatim>\<open>+1\<close> round to doubles and the result
  is printed by \<^verbatim>\<open>Number::toString\<close>.  File reading and logging are not modelled:
  \<^verbatim>\<open>loadBMNet\<close> takes the list of file names with the result of \<^verbatim>\<open>loadObject\<close>
  for each.
  The lemmas show that every reachable registry has distinct non-empty keys, each the
  id of its node; that \<^verbatim>\<open>_generateID\<close> meets its exact specification
  \<open>gen_id_spec\<close> (one more than the largest numeric suffix, whatever the order of
  the keys) and returns a fresh id as long as that number is a safe integer, and that
  it returns an existing key at \<open>2^53\<close>; that \<^verbatim>\<open>addBMNode\<close> refines the update of a
  finite map; how the ids and addresses share one namespace in
  \<^verbatim>\<open>getNodeAddress\<close> and \<^verbatim>\<open>isBMNode\<close>; that inherited names pass the membership
  tests and make \<^verbatim>\<open>removeBMNode\<close> and \<^verbatim>\<open>getNodeAddress\<close> throw; and which files
  \<^verbatim>\<open>loadBMNet\<close> adds.
\<close>

subsection \<open>Decimal numerals\<close>

text \<open>\<^verbatim>\<open>BMutils.isNum\<close>, from the spec: a non-empty string of decimal digits.\<close>

definition isNum :: "string \<Rightarrow> bool" where
  "isNum s \<longleftrightarrow> s \<noteq> [] \<and> list_all (\<lambda>c. dec_digit c \<noteq> None) s"

subsection \<open>JavaScript objects\<close>

type_synonym 'v js_obj = "(string \<times> 'v) list"

text \<open>\<^verbatim>\<open>obj[k] = v\<close>.\<close>

definition obj_set :: "'v js_obj \<Rightarrow> string \<Rightarrow> 'v \<Rightarrow> 'v js_obj" where
  "obj_set kvs k v =
     (if k \<in> fst ` set kvs then map (\<lambda>p. if fst p = k then (k, v) else p) kvs
      else kvs @ [(k, v)])"

text \<open>\<^verbatim>\<open>delete obj[k]\<close>.\<close>

definition obj_delete :: "'v js_obj \<Rightarrow> string \<Rightarrow> 'v js_obj" where
  "obj_delete kvs k = filter (\<lambda>(k', _). k' \<noteq> k) kvs"

text \<open>
  The properties every plain object inherits from \<^verbatim>\<open>Object.prototype\<close>; reading one
  of them from an object without an own property of that name gives a function (an
  object for \<^verbatim>\<open>__proto__\<close>), which is truthy.  They are not enumerable.
\<close>

definition object_proto_keys :: "string list" where
  "object_proto_keys = [''constructor'', ''hasOwnProperty'', ''isPrototypeOf'', ''propertyIsEnumerable'',
     ''toLocaleString'', ''toString'', ''valueOf'', ''__defineGetter__'', ''__defineSetter__'',
     ''__lookupGetter__'', ''__lookupSetter__'', ''__proto__'']"

datatype 'v js_prop = Own 'v | Inherited

text \<open>\<^verbatim>\<open>obj[k]\<close>: an own property, an inherited one, or \<^verbatim>\<open>undefined\<close> (\<open>None\<close>).\<close>

definition obj_get :: "'v js_obj \<Rightarrow> string \<Rightarrow> 'v js_prop option" where
  "obj_get kvs k =
     (case map_of kvs k of
        Some v \<Rightarrow> Some (Own v)
      | None \<Rightarrow> if k \<in> set object_proto_keys then Some Inherited else None)"

text \<open>A key that is an array index: the canonical numeral of a value below \<open>2^32 - 1\<close>.\<close>

definition js_array_index :: "string \<Rightarrow> bool" where
  "js_array_index k \<longleftrightarrow> isNum k \<and> nat_to_dec (dec_value k) = k \<and> dec_value k < 4294967295"

text \<open>The enumeration order of \<^verbatim>\<open>for (var k in obj)\<close>.\<close>

definition for_in :: "'v js_obj \<Rightarrow> 'v js_obj" where
  "for_in kvs =
     sort_key (\<lambda>(k, _). dec_value k) (filter (\<lambda>(k, _). js_array_index k) kvs) @
     filter (\<lambda>(k, _). \<not> js_array_index k) kvs"

subsection \<open>The registry\<close>

text \<open>A node object of \<^verbatim>\<open>BMNode\<close>: its id and its address (\<^verbatim>\<open>getAddr()\<close>).\<close>

record bm_node =
  node_id :: string
  node_addr :: addr

text \<open>The data a node is created from; a missing \<^verbatim>\<open>id\<close> is the empty string.\<close>

record node_data =
  nd_id :: string
  nd_addr :: addr

datatype node_mode = Mode_default | Mode_tmp

text \<open>A thrown value: a string (\<^verbatim>\<open>throw "ERR: ..."\<close>) or an error raised by the engine.\<close>

datatype thrown = Thrown string | Thrown_error js_exn

record bmnet =
  bm_name :: string
  bmnodes :: "bm_node js_obj"

text \<open>\<^verbatim>\<open>new BMNode(this, nodeData, mode)\<close>, from the spec.\<close>

definition mk_node :: "node_data \<Rightarrow> bm_node" where
  "mk_node nd = \<lparr>node_id = nd_id nd, node_addr = nd_addr nd\<rparr>"

text \<open>\<^verbatim>\<open>BMutils.getFileExtension\<close>, from the spec: the text after the last dot.\<close>

definition file_ext :: "string \<Rightarrow> string" where
  "file_ext f = rev (takeWhile (\<lambda>c. c \<noteq> CHR ''.'') (rev f))"

subsection \<open>Operations\<close>

text \<open>
  Lines 60--65: the loop of \<^verbatim>\<open>_generateID\<close> over the keys.  \<^verbatim>\<open>maxn\<close> is a
  JavaScript number: \<^verbatim>\<open>idnum >= maxn\<close> converts the digit string \<^verbatim>\<open>idnum\<close> with
  \<^verbatim>\<open>Number\<close>, and \<^verbatim>\<open>parseInt(idnum)+1\<close> is computed in doubles; both conversions of a
  digit string give its value rounded to the nearest double (V8 converts decimal
  strings exactly), so above \<open>2^53\<close> the values are rounded.
\<close>

fun gen_scan :: "string \<Rightarrow> string list \<Rightarrow> js_double \<Rightarrow> js_double" where
  "gen_scan base [] maxn = maxn"
| "gen_scan base (k # ks) maxn =
     (let idnum = drop (length base) k in
      if take (length base) k = base \<and> isNum idnum \<and> dbl_le maxn (dbl_round (dec_value idnum))
      then gen_scan base ks (js_add1 (dbl_round (dec_value idnum)))
      else gen_scan base ks maxn)"

text \<open>Lines 56--68; the empty base stands for a missing argument; \<^verbatim>\<open>base+maxn\<close> prints the number.\<close>

definition generateID :: "string \<Rightarrow> bmnet \<Rightarrow> string" where
  "generateID base net =
     (let b = (if base = [] then ''N'' else base) in
      b @ js_num_to_string (gen_scan b (map fst (for_in (bmnodes net))) (Dbl 1)))"

text \<open>Lines 71--80: the registry and the returned \<^verbatim>\<open>{id, address}\<close>.\<close>

definition addBMNode :: "node_data \<Rightarrow> node_mode \<Rightarrow> bmnet \<Rightarrow> bmnet \<times> string \<times> addr" where
  "addBMNode nd mode net =
     (let nid = (if nd_id nd = [] then (if mode = Mode_tmp then generateID ''TMP'' net else generateID [] net)
                else nd_id nd);
          node = mk_node (nd\<lparr>nd_id := nid\<rparr>) in
      (net\<lparr>bmnodes := obj_set (bmnodes net) nid node\<rparr>, node_id node, node_addr node))"

text \<open>Lines 92--96.\<close>

definition getNode :: "string \<Rightarrow> bmnet \<Rightarrow> thrown + bm_node js_prop option" where
  "getNode nid net = (if nid = [] then Inl (Thrown ''ERR: ID is required'') else Inr (obj_get (bmnodes net) nid))"

text \<open>Lines 99--104: the first key, in enumeration order, of a node with the address.\<close>

definition getNodeID :: "addr \<Rightarrow> bmnet \<Rightarrow> thrown + string option" where
  "getNodeID a net =
     (if a = [] then Inl (Thrown ''ERR: addr is required'')
      else Inr (map_option fst (find (\<lambda>(k, n). node_addr n = a) (for_in (bmnodes net)))))"

text \<open>Lines 122--125.\<close>

definition isBMNodeID :: "string \<Rightarrow> bmnet \<Rightarrow> thrown + bool" where
  "isBMNodeID nid net = (case getNode nid net of Inl e \<Rightarrow> Inl e | Inr r \<Rightarrow> Inr (r \<noteq> None))"

text \<open>Lines 128--131: the id found must be truthy, i.e. non-empty.\<close>

definition isBMNodeAddr :: "addr \<Rightarrow> bmnet \<Rightarrow> thrown + bool" where
  "isBMNodeAddr a net =
     (case getNodeID a net of Inl e \<Rightarrow> Inl e | Inr r \<Rightarrow> Inr (case r of None \<Rightarrow> False | Some k \<Rightarrow> k \<noteq> []))"

text \<open>Lines 116--119, with the short-circuit of \<^verbatim>\<open>||\<close>.\<close>

definition isBMNode :: "string \<Rightarrow> bmnet \<Rightarrow> thrown + bool" where
  "isBMNode x net =
     (case isBMNodeAddr x net of Inl e \<Rightarrow> Inl e | Inr True \<Rightarrow> Inr True | Inr False \<Rightarrow> isBMNodeID x net)"

text \<open>
  Lines 107--113: an argument that is the address of a node is returned as it is;
  calling \<^verbatim>\<open>getAddr\<close> on an inherited property throws.
\<close>

definition getNodeAddress :: "string \<Rightarrow> bmnet \<Rightarrow> thrown + addr option" where
  "getNodeAddress nid net =
     (if nid = [] then Inl (Thrown ''ERR: ID is required'')
      else (case isBMNodeAddr nid net of
              Inl e \<Rightarrow> Inl e
            | Inr True \<Rightarrow> Inr (Some nid)
            | Inr False \<Rightarrow>
                (case obj_get (bmnodes net) nid of
                   None \<Rightarrow> Inr None
                 | Some (Own n) \<Rightarrow> Inr (Some (node_addr n))
                 | Some Inherited \<Rightarrow> Inl (Thrown_error (TypeError ''this.bmnodes[id].getAddr is not a function'')))))"

text \<open>
  Lines 84--89 (\<^verbatim>\<open>destroy()\<close> removes the node's file and is not modelled; on an
  inherited property it is not a function and the call throws).
\<close>

definition removeBMNode :: "string \<Rightarrow> bmnet \<Rightarrow> thrown + bmnet" where
  "removeBMNode nid net =
     (case isBMNodeID nid net of
        Inl e \<Rightarrow> Inl e
      | Inr False \<Rightarrow> Inl (Thrown ''ERR: Invalid ID'')
      | Inr True \<Rightarrow>
          (case obj_get (bmnodes net) nid of
             Some Inherited \<Rightarrow> Inl (Thrown_error (TypeError ''this.getNode(...).destroy is not a function''))
           | _ \<Rightarrow> Inr (net\<lparr>bmnodes := obj_delete (bmnodes net) nid\<rparr>)))"

text \<open>Lines 44--53: the name and the list of \<^verbatim>\<open>{id, address}\<close>.\<close>

definition getStatus :: "bmnet \<Rightarrow> string \<times> (string \<times> addr) list" where
  "getStatus net = (bm_name net, map (\<lambda>(k, n). (k, node_addr n)) (for_in (bmnodes net)))"

text \<open>
  Lines 23--41: each file with extension \<^verbatim>\<open>dat\<close> whose object loads is added in
  default mode; a file that fails to load is skipped.
\<close>

definition loadBMNet :: "(string \<times> (string + node_data)) list \<Rightarrow> bmnet \<Rightarrow> bmnet" where
  "loadBMNet files net =
     foldl (\<lambda>n (f, r). if file_ext f = ''dat''
                       then (case r of Inl _ \<Rightarrow> n | Inr nd \<Rightarrow> fst (addBMNode nd Mode_default n))
                       else n) net files"

text \<open>Lines 12--20: the constructor, for a network \<^verbatim>\<open>bm\<close> with a name and a data folder.\<close>

definition new_bmnet :: "string \<Rightarrow> (string \<times> (string + node_data)) list \<Rightarrow> bmnet" where
  "new_bmnet name files = loadBMNet files \<lparr>bm_name = name, bmnodes = []\<rparr>"

subsection \<open>The registry as a state machine\<close>

datatype reg_op = Op_add node_data node_mode | Op_remove string

fun reg_step :: "reg_op \<Rightarrow> bmnet \<Rightarrow> thrown + bmnet" where
  "reg_step (Op_add nd mode) net = Inr (fst (addBMNode nd mode net))"
| "reg_step (Op_remove nid) net = removeBMNode nid net"

inductive reg_reach :: "bmnet \<Rightarrow> bool" where
  reg_init: "reg_reach (new_bmnet name files)"
| reg_next: "reg_reach net \<Longrightarrow> reg_step op net = Inr net' \<Longrightarrow> reg_reach net'"

text \<open>Distinct non-empty keys, each the id of its node.\<close>

definition reg_inv :: "bmnet \<Rightarrow> bool" where
  "reg_inv net \<longleftrightarrow>
     distinct (map fst (bmnodes net)) \<and> (\<forall>(k, n) \<in> set (bmnodes net). k \<noteq> [] \<and> node_id n = k)"

subsection \<open>Specification of the id generator\<close>

text \<open>The numeric suffixes after \<open>b\<close> among the keys \<open>K\<close>.\<close>

definition id_suffixes :: "string \<Rightarrow> string set \<Rightarrow> nat set" where
  "id_suffixes b K = (\<lambda>k. dec_value (drop (length b) k)) `
     {k \<in> K. take (length b) k = b \<and> isNum (drop (length b) k)}"

text \<open>The id the generator should return for base \<open>b\<close> and keys \<open>K\<close>, in exact arithmetic.\<close>

definition gen_id_spec :: "string \<Rightarrow> string set \<Rightarrow> string" where
  "gen_id_spec b K = b @ nat_to_dec (Max (insert 1 (Suc ` id_suffixes b K)))"

subsection \<open>Lemmas\<close>

lemma nat_to_dec_roundtrip: "dec_value (nat_to_dec n) = n \<and> isNum (nat_to_dec n)"
  using nat_to_dec_digits [of n] nat_to_dec_nonempty [of n] by (simp add: isNum_def)

lemma Max_insert_insert:
  "finite S \<Longrightarrow> Max (insert m (insert x S)) = Max (insert (max m x) S)"
  by (cases "S = {}") (simp_all add: max.assoc)

lemma id_suffixes_empty [simp]: "id_suffixes b {} = {}"
  by (simp add: id_suffixes_def)

lemma id_suffixes_insert [simp]:
  "id_suffixes b (insert k K) =
     (if take (length b) k = b \<and> isNum (drop (length b) k)
      then insert (dec_value (drop (length b) k)) (id_suffixes b K) else id_suffixes b K)"
  by (auto simp add: id_suffixes_def)

text \<open>Up to \<open>2^53\<close> the doubles are exact, and \<open>x + 1\<close> stops at \<open>2^53\<close>.\<close>

lemma js_add1_bounded: "v \<le> 2 ^ 53 \<Longrightarrow> js_add1 (dbl_round v) = Dbl (min (Suc v) (2 ^ 53))"
proof (cases "Suc v \<le> 2 ^ 53")
  case True
  then show ?thesis by (simp add: dbl_round_nat)
next
  case False
  moreover assume "v \<le> 2 ^ 53"
  ultimately have "v = 2 ^ 53" by simp
  then show ?thesis by (simp add: dbl_round_nat)
qed

lemma gen_scan_bounded:
  "\<forall>v \<in> id_suffixes b (set ks). v \<le> 2 ^ 53 \<Longrightarrow> m \<le> 2 ^ 53 \<Longrightarrow>
     gen_scan b ks (Dbl m) = Dbl (Max (insert m ((\<lambda>v. min (Suc v) (2 ^ 53)) ` id_suffixes b (set ks))))"
proof (induction ks arbitrary: m)
  case Nil
  then show ?case by (simp add: id_suffixes_def)
next
  case (Cons k ks)
  let ?g = "\<lambda>v. min (Suc v) (2 ^ 53 :: nat)"
  have fin: "finite (?g ` id_suffixes b (set ks))" by (simp add: id_suffixes_def)
  have sub: "\<forall>v \<in> id_suffixes b (set ks). v \<le> 2 ^ 53"
    using Cons.prems(1) by (auto simp add: id_suffixes_def)
  show ?case
  proof (cases "take (length b) k = b \<and> isNum (drop (length b) k)")
    case True
    define v where "v = dec_value (drop (length b) k)"
    have s: "?g ` id_suffixes b (insert k (set ks)) = insert (?g v) (?g ` id_suffixes b (set ks))"
      using True by (auto simp add: id_suffixes_def v_def)
    have "v \<in> id_suffixes b (set (k # ks))" using True by (auto simp add: id_suffixes_def v_def)
    then have v: "v \<le> 2 ^ 53" using Cons.prems(1) by blast
    have r: "dbl_round v = Dbl v" using v by (rule dbl_round_nat)
    show ?thesis
    proof (cases "m \<le> v")
      case True
      have "gen_scan b (k # ks) (Dbl m) = gen_scan b ks (Dbl (?g v))"
        using \<open>take (length b) k = b \<and> isNum (drop (length b) k)\<close> True r js_add1_bounded [OF v]
        by (simp add: Let_def v_def [symmetric])
      also have "\<dots> = Dbl (Max (insert (?g v) (?g ` id_suffixes b (set ks))))"
        using sub by (intro Cons.IH) simp_all
      moreover have "max m (?g v) = ?g v" using True v by simp
      ultimately show ?thesis
        using Max_insert_insert [OF fin, of m "?g v"] s by simp
    next
      case False
      have "gen_scan b (k # ks) (Dbl m) = gen_scan b ks (Dbl m)"
        using \<open>take (length b) k = b \<and> isNum (drop (length b) k)\<close> False r by (simp add: Let_def v_def [symmetric])
      also have "\<dots> = Dbl (Max (insert m (?g ` id_suffixes b (set ks))))"
        using sub Cons.prems(2) by (intro Cons.IH)
      moreover have "max m (?g v) = m" using False by simp
      ultimately show ?thesis
        using Max_insert_insert [OF fin, of m "?g v"] s by simp
    qed
  next
    case False
    then have "id_suffixes b (insert k (set ks)) = id_suffixes b (set ks)" by (auto simp add: id_suffixes_def)
    with False Cons.IH [OF sub Cons.prems(2)] show ?thesis by (auto simp add: Let_def)
  qed
qed

lemma set_for_in [simp]: "set (for_in kvs) = set kvs"
  by (auto simp add: for_in_def)

lemma map_of_replace:
  "map_of (map (\<lambda>p. if fst p = k then (k, v) else p) kvs) =
     (if k \<in> fst ` set kvs then (map_of kvs)(k \<mapsto> v) else map_of kvs)"
  by (induction kvs) (auto simp add: fun_eq_iff)

lemma map_of_snoc_fresh: "k \<notin> fst ` set kvs \<Longrightarrow> map_of (kvs @ [(k, v)]) = (map_of kvs)(k \<mapsto> v)"
  by (induction kvs) (auto simp add: fun_eq_iff simp del: map_of_append)

lemma map_of_obj_set [simp]: "map_of (obj_set kvs k v) = (map_of kvs)(k \<mapsto> v)"
  by (simp add: obj_set_def map_of_replace map_of_snoc_fresh del: map_of_append)

lemma map_of_obj_delete [simp]: "map_of (obj_delete kvs k) = (map_of kvs)(k := None)"
  by (induction kvs) (auto simp add: obj_delete_def fun_eq_iff)

lemma keys_replace: "map fst (map (\<lambda>p. if fst p = k then (k, v) else p) kvs) = map fst kvs"
  by (induction kvs) auto

lemma obj_set_distinct: "distinct (map fst kvs) \<Longrightarrow> distinct (map fst (obj_set kvs k v))"
  by (simp add: obj_set_def keys_replace del: map_map)

lemma obj_set_mem: "x \<in> set (obj_set kvs k v) \<Longrightarrow> x = (k, v) \<or> x \<in> set kvs"
  by (auto simp add: obj_set_def split: if_splits)

lemma generateID_nonempty: "generateID base net \<noteq> []"
  by (simp add: generateID_def Let_def)

lemma addBMNode_inv:
  assumes "reg_inv net"
  shows "reg_inv (fst (addBMNode nd mode net))"
proof -
  define nid where "nid = (if nd_id nd = [] then (if mode = Mode_tmp then generateID ''TMP'' net else generateID [] net)
                           else nd_id nd)"
  have ne: "nid \<noteq> []" using generateID_nonempty by (simp add: nid_def)
  have add: "fst (addBMNode nd mode net) =
               net\<lparr>bmnodes := obj_set (bmnodes net) nid \<lparr>node_id = nid, node_addr = nd_addr nd\<rparr>\<rparr>"
    by (simp add: addBMNode_def nid_def Let_def mk_node_def)
  show ?thesis
    using assms ne unfolding add reg_inv_def
    by (auto simp add: obj_set_distinct dest!: obj_set_mem)
qed

lemma removeBMNode_Inr:
  "removeBMNode nid net = Inr net' \<longleftrightarrow>
     nid \<noteq> [] \<and> map_of (bmnodes net) nid \<noteq> None \<and> net' = net\<lparr>bmnodes := obj_delete (bmnodes net) nid\<rparr>"
  by (auto simp add: removeBMNode_def isBMNodeID_def getNode_def obj_get_def
           split: sum.splits bool.splits option.splits js_prop.splits)

lemma removeBMNode_inv: "reg_inv net \<Longrightarrow> removeBMNode nid net = Inr net' \<Longrightarrow> reg_inv net'"
  by (auto simp add: removeBMNode_Inr reg_inv_def obj_delete_def distinct_map_filter)

lemma loadBMNet_inv: "reg_inv net \<Longrightarrow> reg_inv (loadBMNet files net)"
proof (induction files arbitrary: net)
  case Nil
  then show ?case by (simp add: loadBMNet_def)
next
  case (Cons f files)
  obtain name r where f: "f = (name, r)" by (cases f)
  have "reg_inv (if file_ext name = ''dat''
                 then (case r of Inl _ \<Rightarrow> net | Inr nd \<Rightarrow> fst (addBMNode nd Mode_default net)) else net)"
    using Cons.prems addBMNode_inv by (simp split: sum.splits)
  then show ?case using Cons.IH f by (simp add: loadBMNet_def)
qed

text \<open>When every next id is a safe integer the doubles are exact and the generator meets its specification.\<close>

lemma generateID_gen_id_spec:
  assumes "\<forall>v \<in> id_suffixes (if base = [] then ''N'' else base) (fst ` set (bmnodes net)). Suc v < 2 ^ 53"
  shows "generateID base net = gen_id_spec (if base = [] then ''N'' else base) (fst ` set (bmnodes net))"
proof -
  define b where "b = (if base = [] then ''N'' else base)"
  define S where "S = id_suffixes b (fst ` set (bmnodes net))"
  have S: "\<forall>v \<in> S. Suc v < 2 ^ 53" using assms by (simp add: S_def b_def)
  have ks: "set (map fst (for_in (bmnodes net))) = fst ` set (bmnodes net)" by simp
  have "gen_scan b (map fst (for_in (bmnodes net))) (Dbl 1) =
          Dbl (Max (insert 1 ((\<lambda>v. min (Suc v) (2 ^ 53)) ` S)))"
    using S unfolding S_def ks [symmetric] by (intro gen_scan_bounded) auto
  moreover have "(\<lambda>v. min (Suc v) (2 ^ 53)) ` S = Suc ` S"
    using S by (intro image_cong) auto
  ultimately have g: "gen_scan b (map fst (for_in (bmnodes net))) (Dbl 1) = Dbl (Max (insert 1 (Suc ` S)))"
    by simp
  have fin: "finite (insert 1 (Suc ` S))" by (simp add: S_def id_suffixes_def)
  have "Max (insert 1 (Suc ` S)) \<in> insert 1 (Suc ` S)" using fin by (rule Max_in) simp
  then have "Max (insert 1 (Suc ` S)) < 2 ^ 53" using S by auto
  moreover have "1 \<le> Max (insert 1 (Suc ` S))" using fin by simp
  ultimately have "js_num_to_string (Dbl (Max (insert 1 (Suc ` S)))) = nat_to_dec (Max (insert 1 (Suc ` S)))"
    by (intro js_num_to_string_nat) simp_all
  then show ?thesis
    using g by (simp add: generateID_def gen_id_spec_def Let_def b_def S_def)
qed

lemma mset_for_in: "mset (for_in kvs) = mset kvs"
  by (simp add: for_in_def)

lemma find_Some_unique:
  assumes "distinct (map (\<lambda>(k, n). node_addr n) kvs)" and "(k, n) \<in> set kvs"
  shows "find (\<lambda>(k', n'). node_addr n' = node_addr n) kvs = Some (k, n)"
  using assms by (induction kvs) (auto simp add: rev_image_eqI)

text \<open>In a registry with non-empty keys, \<^verbatim>\<open>isBMNodeAddr\<close> is membership in the addresses.\<close>

lemma isBMNodeAddr_iff:
  assumes "reg_inv net" and "a \<noteq> []"
  shows "isBMNodeAddr a net = Inr (a \<in> node_addr ` snd ` set (bmnodes net))"
proof -
  have keys: "\<forall>(k, n) \<in> set (bmnodes net). k \<noteq> []" using assms(1) by (auto simp add: reg_inv_def)
  show ?thesis
  proof (cases "find (\<lambda>(k, n). node_addr n = a) (for_in (bmnodes net))")
    case None
    then have "a \<notin> node_addr ` snd ` set (bmnodes net)" by (force simp add: find_None_iff)
    with None assms(2) show ?thesis by (simp add: isBMNodeAddr_def getNodeID_def)
  next
    case (Some p)
    then obtain i where i: "i < length (for_in (bmnodes net))" "p = for_in (bmnodes net) ! i"
      and P: "(\<lambda>(k, n). node_addr n = a) p"
      by (auto simp add: find_Some_iff)
    then have "p \<in> set (bmnodes net)" and "node_addr (snd p) = a"
      using nth_mem [OF i(1)] by (auto split: prod.splits)
    with Some keys assms(2) show ?thesis by (force simp add: isBMNodeAddr_def getNodeID_def)
  qed
qed

lemma isBMNodeAddr_not_addr:
  assumes "a \<noteq> []" and "a \<notin> node_addr ` snd ` set (bmnodes net)"
  shows "isBMNodeAddr a net = Inr False"
proof -
  have "find (\<lambda>(k, n). node_addr n = a) (for_in (bmnodes net)) = None"
    using assms(2) by (force simp add: find_None_iff set_for_in)
  then show ?thesis using assms(1) by (simp add: isBMNodeAddr_def getNodeID_def)
qed

lemmas reg_eval = new_bmnet_def loadBMNet_def addBMNode_def mk_node_def obj_set_def generateID_def for_in_def
  js_array_index_def isNum_def dec_value_def dec_digit_def hex_digit_value_def nat_to_dec.simps
  hex_char_def hex_digits_def file_ext_def Let_def js_num_to_string_nat

subsection \<open>Properties\<close>

text \<open>
  C27.  The invariant of the registry: in every registry reachable from the constructor
  by additions and removals, the keys of \<^verbatim>\<open>bmnodes\<close> are distinct and non-empty and
  each is the id of its node.
\<close>

theorem registry_invariant: "reg_reach net \<Longrightarrow> reg_inv net"
proof (induction rule: reg_reach.induct)
  case (reg_init name files)
  show ?case unfolding new_bmnet_def by (rule loadBMNet_inv) (simp add: reg_inv_def)
next
  case (reg_next net op net')
  then show ?case
    by (cases op) (auto simp add: addBMNode_inv intro: removeBMNode_inv)
qed

theorem registry_invariant_witness:
  "reg_inv (fst (addBMNode \<lparr>nd_id = [], nd_addr = ''mB''\<rparr> Mode_tmp
              (new_bmnet ''tm'' [(''n.dat'', Inr \<lparr>nd_id = [], nd_addr = ''mA''\<rparr>), (''bad.dat'', Inl ''SyntaxError'')])))"
proof -
  have "reg_reach (new_bmnet ''tm'' [(''n.dat'', Inr \<lparr>nd_id = [], nd_addr = ''mA''\<rparr>), (''bad.dat'', Inl ''SyntaxError'')])"
    by (rule reg_init)
  then have "reg_reach (fst (addBMNode \<lparr>nd_id = [], nd_addr = ''mB''\<rparr> Mode_tmp
              (new_bmnet ''tm'' [(''n.dat'', Inr \<lparr>nd_id = [], nd_addr = ''mA''\<rparr>), (''bad.dat'', Inl ''SyntaxError'')])))"
    by (rule reg_next [where op = "Op_add \<lparr>nd_id = [], nd_addr = ''mB''\<rparr> Mode_tmp"]) simp
  then show ?thesis by (rule registry_invariant)
qed

text \<open>
  C28.  \<^verbatim>\<open>_generateID\<close> returns an id that is not a key of the registry, for every
  base and every registry in which the next number after each numeric suffix of the
  base is a safe integer (below \<open>2^53\<close>), so that the doubles of line 63 are exact.
\<close>

theorem generateID_fresh:
  assumes "\<forall>v \<in> id_suffixes (if base = [] then ''N'' else base) (fst ` set (bmnodes net)). Suc v < 2 ^ 53"
  shows "generateID base net \<notin> fst ` set (bmnodes net)"
proof
  define b where "b = (if base = [] then ''N'' else base)"
  define S where "S = id_suffixes b (fst ` set (bmnodes net))"
  define m where "m = Max (insert 1 (Suc ` S))"
  have g: "generateID base net = b @ nat_to_dec m"
    using generateID_gen_id_spec [OF assms] by (simp add: gen_id_spec_def b_def S_def m_def)
  assume "generateID base net \<in> fst ` set (bmnodes net)"
  then have "b @ nat_to_dec m \<in> fst ` set (bmnodes net)" using g by simp
  then have "m \<in> S"
    using nat_to_dec_roundtrip [of m] unfolding S_def id_suffixes_def by force
  moreover have "finite (Suc ` S)" by (simp add: S_def id_suffixes_def)
  ultimately have "Suc m \<le> m" by (simp add: m_def)
  then show False by simp
qed

theorem generateID_fresh_witness:
  "generateID [] \<lparr>bm_name = ''tm'', bmnodes = [(''N1'', \<lparr>node_id = ''N1'', node_addr = ''mA''\<rparr>),
                                              (''N7'', \<lparr>node_id = ''N7'', node_addr = ''mB''\<rparr>)]\<rparr> = ''N8'' \<and>
   generateID [] \<lparr>bm_name = ''tm'', bmnodes = [(''N1'', \<lparr>node_id = ''N1'', node_addr = ''mA''\<rparr>),
                                              (''N7'', \<lparr>node_id = ''N7'', node_addr = ''mB''\<rparr>)]\<rparr>
     \<notin> fst ` set [(''N1'', \<lparr>node_id = ''N1'', node_addr = ''mA''\<rparr>), (''N7'', \<lparr>node_id = ''N7'', node_addr = ''mB''\<rparr>)]"
proof -
  let ?net = "\<lparr>bm_name = ''tm'', bmnodes = [(''N1'', \<lparr>node_id = ''N1'', node_addr = ''mA''\<rparr>),
                                            (''N7'', \<lparr>node_id = ''N7'', node_addr = ''mB''\<rparr>)]\<rparr>"
  have s: "id_suffixes ''N'' (fst ` set (bmnodes ?net)) = {1, 7}"
    by (simp add: isNum_def dec_value_def dec_digit_def hex_digit_value_def)
  have h: "\<forall>v \<in> id_suffixes (if [] = [] then ''N'' else []) (fst ` set (bmnodes ?net)). Suc v < 2 ^ 53"
    using s by simp
  have "generateID [] ?net = ''N8''"
    using generateID_gen_id_spec [OF h] s by (simp add: gen_id_spec_def nat_to_dec.simps hex_char_def hex_digits_def)
  with generateID_fresh [OF h] show ?thesis by simp
qed

text \<open>
  C29.  Equivalence with the specification: when every next id is a safe integer, the
  loop of \<^verbatim>\<open>_generateID\<close> computes one more than the largest numeric suffix after
  the base among the keys (1 when there is none), whatever the enumeration order of
  the keys.
\<close>

theorem generateID_max_suffix:
  assumes "\<forall>v \<in> id_suffixes (if base = [] then ''N'' else base) (fst ` set (bmnodes net)). Suc v < 2 ^ 53"
  shows "generateID base net =
     (let b = (if base = [] then ''N'' else base) in
      b @ nat_to_dec (Max (insert 1 (Suc ` id_suffixes b (fst ` set (bmnodes net))))))"
  using generateID_gen_id_spec [OF assms] by (simp add: gen_id_spec_def Let_def)

theorem generateID_max_suffix_witness:
  "generateID ''TMP'' \<lparr>bm_name = ''tm'', bmnodes = [(''TMP3'', \<lparr>node_id = ''TMP3'', node_addr = ''mA''\<rparr>),
                                                   (''N9'', \<lparr>node_id = ''N9'', node_addr = ''mB''\<rparr>)]\<rparr> = ''TMP4''"
proof -
  let ?net = "\<lparr>bm_name = ''tm'', bmnodes = [(''TMP3'', \<lparr>node_id = ''TMP3'', node_addr = ''mA''\<rparr>),
                                            (''N9'', \<lparr>node_id = ''N9'', node_addr = ''mB''\<rparr>)]\<rparr>"
  have s: "id_suffixes ''TMP'' (fst ` set (bmnodes ?net)) = {3}"
    by (simp add: isNum_def dec_value_def dec_digit_def hex_digit_value_def)
  have h: "\<forall>v \<in> id_suffixes (if ''TMP'' = [] then ''N'' else ''TMP'') (fst ` set (bmnodes ?net)). Suc v < 2 ^ 53"
    using s by simp
  from generateID_max_suffix [OF h] s show ?thesis
    by (simp add: nat_to_dec.simps hex_char_def hex_digits_def)
qed

text \<open>
  C30.  \<^verbatim>\<open>addBMNode\<close> refines the update of the finite map from ids to nodes: it binds
  the given id, or the id the specification \<open>gen_id_spec\<close> generates from the set of
  keys (base \<^verbatim>\<open>TMP\<close> in temporary mode), to the new node, and returns that id with the
  node's address; a node with an id already present replaces the old one.  A
  generated id is covered when the next number after each suffix is a safe integer.
\<close>

theorem addBMNode_refines_map:
  assumes "nd_id nd = [] \<Longrightarrow>
     \<forall>v \<in> id_suffixes (if mode = Mode_tmp then ''TMP'' else ''N'') (fst ` set (bmnodes net)). Suc v < 2 ^ 53"
  shows "let nid = (if nd_id nd = [] then gen_id_spec (if mode = Mode_tmp then ''TMP'' else ''N'') (dom (map_of (bmnodes net)))
                   else nd_id nd) in
         map_of (bmnodes (fst (addBMNode nd mode net))) = (map_of (bmnodes net))(nid \<mapsto> \<lparr>node_id = nid, node_addr = nd_addr nd\<rparr>) \<and>
         snd (addBMNode nd mode net) = (nid, nd_addr nd)"
proof (cases "nd_id nd = []")
  case True
  have "generateID (if mode = Mode_tmp then ''TMP'' else []) net =
          gen_id_spec (if mode = Mode_tmp then ''TMP'' else ''N'') (fst ` set (bmnodes net))"
    using generateID_gen_id_spec [of "if mode = Mode_tmp then ''TMP'' else []" net] assms True
    by (cases mode) simp_all
  then show ?thesis
    using True by (cases mode) (simp_all add: addBMNode_def Let_def mk_node_def dom_map_of_conv_image_fst)
next
  case False
  then show ?thesis by (simp add: addBMNode_def Let_def mk_node_def)
qed

theorem addBMNode_refines_map_witness:
  "map_of (bmnodes (fst (addBMNode \<lparr>nd_id = [], nd_addr = ''mC''\<rparr> Mode_tmp
      \<lparr>bm_name = ''tm'', bmnodes = [(''TMP1'', \<lparr>node_id = ''TMP1'', node_addr = ''mA''\<rparr>)]\<rparr>))) =
     [''TMP1'' \<mapsto> \<lparr>node_id = ''TMP1'', node_addr = ''mA''\<rparr>, ''TMP2'' \<mapsto> \<lparr>node_id = ''TMP2'', node_addr = ''mC''\<rparr>] \<and>
   snd (addBMNode \<lparr>nd_id = [], nd_addr = ''mC''\<rparr> Mode_tmp
      \<lparr>bm_name = ''tm'', bmnodes = [(''TMP1'', \<lparr>node_id = ''TMP1'', node_addr = ''mA''\<rparr>)]\<rparr>) = (''TMP2'', ''mC'')"
proof -
  let ?net = "\<lparr>bm_name = ''tm'', bmnodes = [(''TMP1'', \<lparr>node_id = ''TMP1'', node_addr = ''mA''\<rparr>)]\<rparr>"
  have s: "id_suffixes ''TMP'' (fst ` set (bmnodes ?net)) = {1}"
    by (simp add: isNum_def dec_value_def dec_digit_def hex_digit_value_def)
  have d: "dom (map_of (bmnodes ?net)) = {''TMP1''}" by simp
  have g: "gen_id_spec ''TMP'' {''TMP1''} = ''TMP2''"
    using s by (simp add: gen_id_spec_def nat_to_dec.simps hex_char_def hex_digits_def)
  have h: "nd_id \<lparr>nd_id = [], nd_addr = ''mC''\<rparr> = [] \<Longrightarrow>
     \<forall>v \<in> id_suffixes (if Mode_tmp = Mode_tmp then ''TMP'' else ''N'') (fst ` set (bmnodes ?net)). Suc v < 2 ^ 53"
    using s by simp
  from addBMNode_refines_map [OF h] d g show ?thesis by (simp add: Let_def)
qed

text \<open>
  C31.  \<^verbatim>\<open>removeBMNode\<close> throws for the empty id, throws a \<^verbatim>\<open>TypeError\<close> for
  the name of a property inherited from \<^verbatim>\<open>Object.prototype\<close> that is not a key,
  throws \<^verbatim>\<open>"ERR: Invalid ID"\<close> for any other id that is not a key, and otherwise
  refines the deletion of the key from a finite map.
\<close>

theorem removeBMNode_refines_map:
  "removeBMNode nid net =
     (if nid = [] then Inl (Thrown ''ERR: ID is required'')
      else case map_of (bmnodes net) nid of
             Some n \<Rightarrow> Inr (net\<lparr>bmnodes := obj_delete (bmnodes net) nid\<rparr>)
           | None \<Rightarrow>
               if nid \<in> set object_proto_keys
               then Inl (Thrown_error (TypeError ''this.getNode(...).destroy is not a function''))
               else Inl (Thrown ''ERR: Invalid ID'')) \<and>
   map_of (obj_delete (bmnodes net) nid) = (map_of (bmnodes net))(nid := None)"
  by (simp add: removeBMNode_def isBMNodeID_def getNode_def obj_get_def split: option.split)

text \<open>
  C32.  Round trip from ids to addresses and back: when the nodes have distinct
  addresses, \<^verbatim>\<open>getNodeID\<close> of a node's address is the node's key.
\<close>

theorem getNodeID_roundtrip:
  assumes "distinct (map (\<lambda>(k, n). node_addr n) (bmnodes net))"
    and "map_of (bmnodes net) nid = Some n" and "node_addr n \<noteq> []"
  shows "getNodeID (node_addr n) net = Inr (Some nid)"
proof -
  have m: "(nid, n) \<in> set (for_in (bmnodes net))" using assms(2) by (simp add: map_of_SomeD)
  have d: "distinct (map (\<lambda>(k, n). node_addr n) (for_in (bmnodes net)))"
    using assms(1) mset_for_in [of "bmnodes net"] by (metis mset_map mset_eq_imp_distinct_iff)
  from find_Some_unique [OF d m] assms(3) show ?thesis by (simp add: getNodeID_def)
qed

theorem getNodeID_roundtrip_witness:
  "getNodeID ''mB'' (new_bmnet ''tm'' [(''a.dat'', Inr \<lparr>nd_id = [], nd_addr = ''mA''\<rparr>),
                                       (''b.dat'', Inr \<lparr>nd_id = [], nd_addr = ''mB''\<rparr>)]) = Inr (Some ''N2'')"
proof -
  have e: "new_bmnet ''tm'' [(''a.dat'', Inr \<lparr>nd_id = [], nd_addr = ''mA''\<rparr>), (''b.dat'', Inr \<lparr>nd_id = [], nd_addr = ''mB''\<rparr>)] =
             \<lparr>bm_name = ''tm'', bmnodes = [(''N1'', \<lparr>node_id = ''N1'', node_addr = ''mA''\<rparr>),
                                           (''N2'', \<lparr>node_id = ''N2'', node_addr = ''mB''\<rparr>)]\<rparr>"
    by (simp add: reg_eval)
  have "getNodeID (node_addr \<lparr>node_id = ''N2'', node_addr = ''mB''\<rparr>)
          \<lparr>bm_name = ''tm'', bmnodes = [(''N1'', \<lparr>node_id = ''N1'', node_addr = ''mA''\<rparr>),
                                        (''N2'', \<lparr>node_id = ''N2'', node_addr = ''mB''\<rparr>)]\<rparr> = Inr (Some ''N2'')"
    by (rule getNodeID_roundtrip) simp_all
  with e show ?thesis by simp
qed

text \<open>
  C33.  \<^verbatim>\<open>getNodeAddress\<close> (lines 107--113) on a registry satisfying the invariant:
  the empty id throws; an argument that is the address of some node is returned
  unchanged, even when it is also the id of another node (ids and addresses share one
  namespace); otherwise the id's node gives its address, an inherited name throws a
  \<^verbatim>\<open>TypeError\<close>, and any other string gives \<^verbatim>\<open>null\<close>.
\<close>

theorem getNodeAddress_returns_address_argument:
  assumes "reg_inv net" and "x \<noteq> []"
  shows "getNodeAddress x net =
           (if x \<in> node_addr ` snd ` set (bmnodes net) then Inr (Some x)
            else case map_of (bmnodes net) x of
                   Some n \<Rightarrow> Inr (Some (node_addr n))
                 | None \<Rightarrow>
                     if x \<in> set object_proto_keys
                     then Inl (Thrown_error (TypeError ''this.bmnodes[id].getAddr is not a function''))
                     else Inr None) \<and>
         getNodeAddress [] net = Inl (Thrown ''ERR: ID is required'')"
  using assms(2) isBMNodeAddr_iff [OF assms]
  by (simp add: getNodeAddress_def obj_get_def split: option.split)

theorem getNodeAddress_returns_address_argument_witness:
  "getNodeAddress ''mA'' \<lparr>bm_name = ''tm'', bmnodes = [(''alice'', \<lparr>node_id = ''alice'', node_addr = ''mA''\<rparr>),
                                                     (''mA'', \<lparr>node_id = ''mA'', node_addr = ''mB''\<rparr>)]\<rparr> =
     Inr (Some ''mA'') \<and>
   getNodeAddress ''alice'' \<lparr>bm_name = ''tm'', bmnodes = [(''alice'', \<lparr>node_id = ''alice'', node_addr = ''mA''\<rparr>),
                                                        (''mA'', \<lparr>node_id = ''mA'', node_addr = ''mB''\<rparr>)]\<rparr> =
     Inr (Some ''mA'')"
proof -
  let ?net = "\<lparr>bm_name = ''tm'', bmnodes = [(''alice'', \<lparr>node_id = ''alice'', node_addr = ''mA''\<rparr>),
                                           (''mA'', \<lparr>node_id = ''mA'', node_addr = ''mB''\<rparr>)]\<rparr>"
  have inv: "reg_inv ?net" by (simp add: reg_inv_def)
  show ?thesis
    using getNodeAddress_returns_address_argument [OF inv, of "''mA''"]
          getNodeAddress_returns_address_argument [OF inv, of "''alice''"]
    by (simp add: object_proto_keys_def)
qed

text \<open>
  C34.  At \<open>2^53\<close> the id generator collides: in a registry whose numeric suffixes
  after the base are at most \<open>2^53\<close> and include \<open>2^53\<close> itself,
  \<^verbatim>\<open>parseInt(idnum)+1\<close> rounds back to \<open>2^53\<close> and \<^verbatim>\<open>_generateID\<close> returns the
  existing key, which \<^verbatim>\<open>addBMNode\<close> then overwrites.
\<close>

theorem generateID_collides_at_2_53:
  assumes "b \<noteq> []" and "b @ nat_to_dec (2 ^ 53) \<in> fst ` set (bmnodes net)"
    and "\<forall>v \<in> id_suffixes b (fst ` set (bmnodes net)). v \<le> 2 ^ 53"
  shows "generateID b net = b @ nat_to_dec (2 ^ 53) \<and> generateID b net \<in> fst ` set (bmnodes net)"
proof -
  define S where "S = id_suffixes b (fst ` set (bmnodes net))"
  let ?g = "\<lambda>v. min (Suc v) (2 ^ 53 :: nat)"
  have ks: "set (map fst (for_in (bmnodes net))) = fst ` set (bmnodes net)" by simp
  have scan: "gen_scan b (map fst (for_in (bmnodes net))) (Dbl 1) = Dbl (Max (insert 1 (?g ` S)))"
    using assms(3) unfolding S_def ks [symmetric] by (intro gen_scan_bounded) auto
  have "2 ^ 53 \<in> S"
    using assms(2) nat_to_dec_roundtrip [of "2 ^ 53"] unfolding S_def id_suffixes_def by force
  then have in_: "(2::nat) ^ 53 \<in> insert 1 (?g ` S)" by force
  have fin: "finite (insert 1 (?g ` S))" by (simp add: S_def id_suffixes_def)
  have "\<forall>x \<in> insert 1 (?g ` S). x \<le> 2 ^ 53" by auto
  then have "Max (insert 1 (?g ` S)) = 2 ^ 53"
    using in_ fin by (intro antisym) (simp_all add: Max_ge)
  then have "generateID b net = b @ js_num_to_string (Dbl (2 ^ 53))"
    using scan assms(1) by (simp add: generateID_def)
  also have "\<dots> = b @ nat_to_dec (2 ^ 53)" by (simp add: js_num_to_string_nat)
  finally show ?thesis using assms(2) by simp
qed

theorem generateID_collides_at_2_53_witness:
  "generateID ''N'' \<lparr>bm_name = ''tm'', bmnodes = [(''N9007199254740992'', \<lparr>node_id = ''N9007199254740992'', node_addr = ''mA''\<rparr>)]\<rparr>
     = ''N9007199254740992''"
proof -
  let ?net = "\<lparr>bm_name = ''tm'', bmnodes = [(''N9007199254740992'', \<lparr>node_id = ''N9007199254740992'', node_addr = ''mA''\<rparr>)]\<rparr>"
  have d: "nat_to_dec (2 ^ 53) = ''9007199254740992''"
    by (simp add: nat_to_dec.simps hex_char_def hex_digits_def)
  have s: "id_suffixes ''N'' (fst ` set (bmnodes ?net)) = {2 ^ 53}"
    by (simp add: isNum_def dec_value_def dec_digit_def hex_digit_value_def)
  have "''N'' \<noteq> []" and "''N'' @ nat_to_dec (2 ^ 53) \<in> fst ` set (bmnodes ?net)"
    and "\<forall>v \<in> id_suffixes ''N'' (fst ` set (bmnodes ?net)). v \<le> 2 ^ 53"
    using d s by simp_all
  from generateID_collides_at_2_53 [OF this] d show ?thesis by simp
qed

text \<open>
  C22.  Lookups by id read \<^verbatim>\<open>this.bmnodes[id]\<close>, which sees the properties every
  object inherits from \<^verbatim>\<open>Object.prototype\<close>.  For such a name that is neither a
  key nor an address of the registry, \<^verbatim>\<open>getNode\<close> returns the inherited function,
  \<^verbatim>\<open>isBMNodeID\<close> and \<^verbatim>\<open>isBMNode\<close> answer true, and \<^verbatim>\<open>removeBMNode\<close> and
  \<^verbatim>\<open>getNodeAddress\<close> throw a \<^verbatim>\<open>TypeError\<close> instead of their documented results,
  while the registry is left unchanged.
\<close>

theorem inherited_keys_confuse_registry:
  assumes "k \<in> set object_proto_keys"
    and "map_of (bmnodes net) k = None"
    and "k \<notin> node_addr ` snd ` set (bmnodes net)"
  shows "getNode k net = Inr (Some Inherited) \<and> isBMNodeID k net = Inr True \<and> isBMNode k net = Inr True \<and>
         removeBMNode k net = Inl (Thrown_error (TypeError ''this.getNode(...).destroy is not a function'')) \<and>
         getNodeAddress k net = Inl (Thrown_error (TypeError ''this.bmnodes[id].getAddr is not a function''))"
proof -
  have ne: "k \<noteq> []" using assms(1) by (auto simp add: object_proto_keys_def)
  have get: "getNode k net = Inr (Some Inherited)"
    using ne assms(1,2) by (simp add: getNode_def obj_get_def)
  have addr: "isBMNodeAddr k net = Inr False"
    using ne assms(3) by (rule isBMNodeAddr_not_addr)
  show ?thesis
    using get addr assms(1,2)
    by (simp add: isBMNodeID_def isBMNode_def removeBMNode_def getNodeAddress_def ne obj_get_def)
qed

theorem inherited_keys_confuse_registry_witness:
  "getNode ''toString'' \<lparr>bm_name = ''tm'', bmnodes = [(''N1'', \<lparr>node_id = ''N1'', node_addr = ''mA''\<rparr>)]\<rparr> =
     Inr (Some Inherited) \<and>
   removeBMNode ''toString'' \<lparr>bm_name = ''tm'', bmnodes = [(''N1'', \<lparr>node_id = ''N1'', node_addr = ''mA''\<rparr>)]\<rparr> =
     Inl (Thrown_error (TypeError ''this.getNode(...).destroy is not a function''))"
  using inherited_keys_confuse_registry
          [of "''toString''" "\<lparr>bm_name = ''tm'', bmnodes = [(''N1'', \<lparr>node_id = ''N1'', node_addr = ''mA''\<rparr>)]\<rparr>"]
  by (simp add: object_proto_keys_def)

text \<open>
  C38.  The membership test \<^verbatim>\<open>isBMNode\<close> (lines 116--119): on a registry satisfying
  the invariant, a non-empty string is a node when it is an id or an address of a
  node, or the name of a property inherited from \<^verbatim>\<open>Object.prototype\<close>; the empty
  string throws, with the message of the address lookup.
\<close>

theorem isBMNode_iff:
  assumes "reg_inv net" and "x \<noteq> []"
  shows "isBMNode x net = Inr (x \<in> fst ` set (bmnodes net) \<or> x \<in> set object_proto_keys \<or>
                               x \<in> node_addr ` snd ` set (bmnodes net)) \<and>
         isBMNode [] net = Inl (Thrown ''ERR: addr is required'')"
proof -
  have "isBMNodeID x net = Inr (map_of (bmnodes net) x \<noteq> None \<or> x \<in> set object_proto_keys)"
    using assms(2) by (simp add: isBMNodeID_def getNode_def obj_get_def split: option.split)
  then have "isBMNodeID x net = Inr (x \<in> fst ` set (bmnodes net) \<or> x \<in> set object_proto_keys)"
    by (simp add: map_of_eq_None_iff)
  then have "isBMNode x net = Inr (x \<in> fst ` set (bmnodes net) \<or> x \<in> set object_proto_keys \<or>
                                   x \<in> node_addr ` snd ` set (bmnodes net))"
    by (auto simp add: isBMNode_def isBMNodeAddr_iff [OF assms] split: bool.split)
  moreover have "isBMNode [] net = Inl (Thrown ''ERR: addr is required'')"
    by (simp add: isBMNode_def isBMNodeAddr_def getNodeID_def)
  ultimately show ?thesis by simp
qed

theorem isBMNode_iff_witness:
  "isBMNode ''mB'' \<lparr>bm_name = ''tm'', bmnodes = [(''N1'', \<lparr>node_id = ''N1'', node_addr = ''mA''\<rparr>),
                                                (''N2'', \<lparr>node_id = ''N2'', node_addr = ''mB''\<rparr>)]\<rparr> = Inr True \<and>
   isBMNode [] \<lparr>bm_name = ''tm'', bmnodes = [(''N1'', \<lparr>node_id = ''N1'', node_addr = ''mA''\<rparr>),
                                                (''N2'', \<lparr>node_id = ''N2'', node_addr = ''mB''\<rparr>)]\<rparr> =
     Inl (Thrown ''ERR: addr is required'')"
proof -
  have inv: "reg_inv \<lparr>bm_name = ''tm'', bmnodes = [(''N1'', \<lparr>node_id = ''N1'', node_addr = ''mA''\<rparr>),
                                                (''N2'', \<lparr>node_id = ''N2'', node_addr = ''mB''\<rparr>)]\<rparr>"
    by (simp add: reg_inv_def)
  from isBMNode_iff [OF inv, of "''mB''"] show ?thesis by simp
qed

text \<open>
  C39.  \<^verbatim>\<open>loadBMNet\<close> (lines 23--41) adds, in the order of the directory listing
  and in default mode, exactly the nodes of the files with extension \<^verbatim>\<open>dat\<close> whose
  object loads; other files and files that fail to load are skipped.
\<close>

theorem loadBMNet_adds_loaded_dat:
  "loadBMNet files net =
     foldl (\<lambda>n nd. fst (addBMNode nd Mode_default n)) net [nd. (f, Inr nd) \<leftarrow> files, file_ext f = ''dat'']"
  by (induction files arbitrary: net) (auto simp add: loadBMNet_def split: sum.splits)

end
