(* ===== verification/Send_Trace.thy ===== *)
theory Send_Trace
  imports Pipeline
begin

text \<open>
  The shape of the event traces of \<^verbatim>\<open>sendTMMessage\<close> (\<^verbatim>\<open>src/TxMEx.js\<close>, lines
  108--162), as a grammar: the inductive predicate \<open>send_trace cs s\<close> holds of the
  events of the calls of \<^verbatim>\<open>sendMsgTransaction\<close> from chunk \<open>s\<close> of the chunk list
  \<open>cs\<close> on.  Each call fetches the outputs to spend; it stops there when fetching,
  building or signing fails, and after the broadcast when the broadcast throws; a
  failed broadcast either stops the job or is retried on the same chunk, and a
  successful one either ends the job on the last chunk or moves to the next.  Every
  re-entry ends with the exception \<^verbatim>\<open>setTimeout\<close> throws.  The lemmas show that
  every trace of \<^verbatim>\<open>sendTMMessage\<close> has this type, and, by rule induction on it,
  that the frame of each broadcast is the chunk after those already acknowledged:
  the chunks are sent one at a time, in order, never skipped.
\<close>

subsection \<open>The grammar of send traces\<close>

inductive send_trace :: "string list \<Rightarrow> nat \<Rightarrow> send_event list \<Rightarrow> bool" for cs where
  tr_stop: "send_trace cs s [Ev_fetch]"
| tr_throw: "send_trace cs s [Ev_fetch, Ev_broadcast (tm_data cs s)]"
| tr_fail: "send_trace cs s [Ev_fetch, Ev_broadcast (tm_data cs s), Ev_bcast_err e]"
| tr_last: "Suc s = length cs \<Longrightarrow> send_trace cs s [Ev_fetch, Ev_broadcast (tm_data cs s), Ev_bcast_ok h]"
| tr_retry: "send_trace cs s rest \<Longrightarrow>
     send_trace cs s ([Ev_fetch, Ev_broadcast (tm_data cs s), Ev_bcast_err e, Ev_uncaught setTimeout_exn] @ rest)"
| tr_next: "Suc s \<noteq> length cs \<Longrightarrow> send_trace cs (Suc s) rest \<Longrightarrow>
     send_trace cs s ([Ev_fetch, Ev_broadcast (tm_data cs s), Ev_bcast_ok h, Ev_uncaught setTimeout_exn] @ rest)"

inductive_cases send_trace_NilE [elim!]: "send_trace cs s []"

subsection \<open>Lemmas\<close>

text \<open>A call that ends the job ends its trace; a call that re-enters prefixes one.\<close>

lemma send_iter_done_trace:
  "send_iter api src dst pk l j = Iter_done l' it r \<Longrightarrow> send_trace (chunks j) (seq j) it"
  by (auto simp add: send_iter_def Let_def intro: send_trace.intros
           split: sum.splits bcast_result.splits if_splits)

lemma send_iter_next_trace:
  assumes "send_iter api src dst pk l j = Iter_next l' j' it" and "send_trace (chunks j') (seq j') rest"
  shows "send_trace (chunks j) (seq j) (it @ rest)"
  using send_iter_next_cases [OF assms(1)] assms(2)
  by (auto intro: send_trace.intros)

lemma send_loop_trace:
  assumes "send_loop api src dst pk l j evs = Some y"
  shows "\<exists>rest. fst (snd y) = evs @ rest \<and> send_trace (chunks j) (seq j) rest"
  using assms
proof (induction rule: send_loop_induct)
  case (finish l j evs l' it r)
  then show ?case using send_iter_done_trace by fastforce
next
  case (reenter l j evs l' j' it y)
  then obtain rest where "fst (snd y) = (evs @ it) @ rest" and "send_trace (chunks j') (seq j') rest" by blast
  then show ?case using send_iter_next_trace [OF reenter.hyps(1)] by (intro exI [of _ "it @ rest"]) simp
qed

text \<open>In a word of the grammar, each frame is that of the chunk after the acknowledged ones.\<close>

lemma send_trace_frame:
  assumes "send_trace cs s evs" and "evs = pre @ Ev_broadcast d # post"
  shows "d = tm_data cs (s + length (ok_ids pre))"
  using assms
  by (induction arbitrary: pre rule: send_trace.induct)
     (auto simp add: Cons_eq_append_conv append_eq_Cons_conv append_eq_append_conv2)

subsection \<open>Properties\<close>

text \<open>
  C35.  The type of the traces: every run of \<^verbatim>\<open>sendTMMessage\<close> that returns, for
  every collaborator, either stops before the send loop (invalid address, balance
  error, insufficient funds) or is the balance query followed by a word of the
  grammar \<open>send_trace\<close> from chunk 0 of the message's chunks.
\<close>

theorem sendTMMessage_trace_wf:
  assumes "sendTMMessage api src dst msg pk l = Some (l', evs, out)"
  shows "evs = [] \<or> evs = [Ev_balance] \<or> evs = [Ev_balance, Ev_uncaught (ReferenceError ''cb is not defined'')] \<or>
         (\<exists>rest. evs = Ev_balance # rest \<and> send_trace (chunkMessage msg MAX_PAYLOAD_SIZE) 0 rest)"
  using sendTMMessage_cases [OF assms]
proof
  assume "\<exists>r. out = Called r \<and>
            send_loop api src dst pk l (new_job (chunkMessage msg MAX_PAYLOAD_SIZE)) [Ev_balance] = Some (l', evs, r)"
  then obtain r where "send_loop api src dst pk l (new_job (chunkMessage msg MAX_PAYLOAD_SIZE)) [Ev_balance] = Some (l', evs, r)"
    by blast
  from send_loop_trace [OF this] show ?thesis by (simp add: new_job_def)
qed auto

theorem sendTMMessage_trace_wf_witness:
  "sendTMMessage demo_api ''A'' ''B'' ''hello world'' ''k'' (demo_start [True] 10000) =
     Some (demo_start [] 10000\<lparr>next_id := 1, ledger_txs := [\<lparr>tx_inputs = [PayTo ''A''],
             tx_outputs = [PayTo ''B'', DataOut ''TM10hello world'', PayTo ''A''], tx_hash = ''tx0''\<rparr>]\<rparr>,
           [Ev_balance, Ev_fetch, Ev_broadcast ''TM10hello world'', Ev_bcast_err ''rejected'',
            Ev_uncaught setTimeout_exn, Ev_fetch, Ev_broadcast ''TM10hello world'', Ev_bcast_ok ''tx0''],
           Called (Cb_ok [''tx0''])) \<and>
   send_trace [''hello world''] 0
     [Ev_fetch, Ev_broadcast ''TM10hello world'', Ev_bcast_err ''rejected'',
      Ev_uncaught setTimeout_exn, Ev_fetch, Ev_broadcast ''TM10hello world'', Ev_bcast_ok ''tx0'']"
proof -
  have r: "sendTMMessage demo_api ''A'' ''B'' ''hello world'' ''k'' (demo_start [True] 10000) =
     Some (demo_start [] 10000\<lparr>next_id := 1, ledger_txs := [\<lparr>tx_inputs = [PayTo ''A''],
             tx_outputs = [PayTo ''B'', DataOut ''TM10hello world'', PayTo ''A''], tx_hash = ''tx0''\<rparr>]\<rparr>,
           [Ev_balance, Ev_fetch, Ev_broadcast ''TM10hello world'', Ev_bcast_err ''rejected'',
            Ev_uncaught setTimeout_exn, Ev_fetch, Ev_broadcast ''TM10hello world'', Ev_bcast_ok ''tx0''],
           Called (Cb_ok [''tx0'']))"
    by (simp add: run_simps)
  have c: "chunkMessage ''hello world'' MAX_PAYLOAD_SIZE = [''hello world'']"
    by (simp add: chunkMessage.simps MAX_PAYLOAD_SIZE_def)
  from sendTMMessage_trace_wf [OF r] r c show ?thesis by simp
qed

text \<open>
  C36.  Sequential sending (spec, section 5): in every trace of \<^verbatim>\<open>sendTMMessage\<close>,
  for every collaborator, the frame of each broadcast is the frame of chunk \<open>k\<close>
  where \<open>k\<close> is the number of broadcasts acknowledged before it.  So a chunk is
  broadcast only after every earlier chunk has been acknowledged, a retry resends the
  same frame, and no chunk is skipped.
\<close>

theorem frame_follows_acknowledgements:
  assumes "sendTMMessage api src dst msg pk l = Some (l', evs, out)" and "evs = pre @ Ev_broadcast d # post"
  shows "d = tm_data (chunkMessage msg MAX_PAYLOAD_SIZE) (length (ok_ids pre))"
  using sendTMMessage_cases [OF assms(1)]
proof
  assume "\<exists>r. out = Called r \<and>
            send_loop api src dst pk l (new_job (chunkMessage msg MAX_PAYLOAD_SIZE)) [Ev_balance] = Some (l', evs, r)"
  then obtain r where "send_loop api src dst pk l (new_job (chunkMessage msg MAX_PAYLOAD_SIZE)) [Ev_balance] = Some (l', evs, r)"
    by blast
  from send_loop_trace [OF this] obtain rest
    where evs: "evs = Ev_balance # rest" and tr: "send_trace (chunkMessage msg MAX_PAYLOAD_SIZE) 0 rest"
    by (auto simp add: new_job_def)
  from evs assms(2) obtain pre' where "pre = Ev_balance # pre'" and "rest = pre' @ Ev_broadcast d # post"
    by (cases pre) auto
  with send_trace_frame [OF tr] show ?thesis by simp
next
  assume "(evs = [] \<or> evs = [Ev_balance] \<or> evs = [Ev_balance, Ev_uncaught (ReferenceError ''cb is not defined'')]) \<and>
          (\<forall>txs. out \<noteq> Called (Cb_ok txs))"
  with assms(2) show ?thesis by (auto simp add: Cons_eq_append_conv append_eq_Cons_conv)
qed

theorem frame_follows_acknowledgements_witness:
  "\<exists>L. sendTMMessage accept_api ''A'' ''B'' (replicate 80 (CHR ''a'')) ''k'' (demo_start [] 100000) =
     Some (L, [Ev_balance, Ev_fetch, Ev_broadcast (tm_data [replicate 76 (CHR ''a''), replicate 4 (CHR ''a'')] 0),
               Ev_bcast_ok ''tx0'', Ev_uncaught setTimeout_exn, Ev_fetch] @
              Ev_broadcast (tm_data [replicate 76 (CHR ''a''), replicate 4 (CHR ''a'')] 1) # [Ev_bcast_ok ''tx1''],
           Called (Cb_ok [''tx0'', ''tx1''])) \<and>
   tm_data [replicate 76 (CHR ''a''), replicate 4 (CHR ''a'')] 1 =
     tm_data (chunkMessage (replicate 80 (CHR ''a'')) MAX_PAYLOAD_SIZE)
       (length (ok_ids [Ev_balance, Ev_fetch, Ev_broadcast (tm_data [replicate 76 (CHR ''a''), replicate 4 (CHR ''a'')] 0),
               Ev_bcast_ok ''tx0'', Ev_uncaught setTimeout_exn, Ev_fetch]))"
proof -
  obtain L where r: "sendTMMessage accept_api ''A'' ''B'' (replicate 80 (CHR ''a'')) ''k'' (demo_start [] 100000) =
     Some (L, [Ev_balance, Ev_fetch, Ev_broadcast (tm_data [replicate 76 (CHR ''a''), replicate 4 (CHR ''a'')] 0),
               Ev_bcast_ok ''tx0'', Ev_uncaught setTimeout_exn, Ev_fetch] @
              Ev_broadcast (tm_data [replicate 76 (CHR ''a''), replicate 4 (CHR ''a'')] 1) # [Ev_bcast_ok ''tx1''],
           Called (Cb_ok [''tx0'', ''tx1'']))"
    by (atomize_elim, simp add: run_simps accept_api_def)
  show ?thesis using r frame_follows_acknowledgements [OF r refl] by blast
qed

end
