(* ===== verification/Send_Retry.thy ===== *)
theory Send_Retry
  imports Pipeline
begin

text \<open>
  The retry budget of \<^verbatim>\<open>sendTMMessage\<close> (\<^verbatim>\<open>src/TxMEx.js\<close>, lines 105--106 and
  141--145) over a scripted ledger: the collaborator \<open>demo_api\<close> of \<open>Pipeline\<close>,
  whose broadcasts are rejected or accepted as its script says.  Chunk \<open>k\<close> is
  rejected \<open>f k\<close> times before it is accepted.  The lemmas follow one chunk through
  its rejections (\<open>demo_chunk_ok\<close>, \<open>demo_chunk_fail\<close>) and then the whole message
  (\<open>demo_loop\<close>, by induction on the chunks left).  The theorem characterises the
  outcome: the counter \<^verbatim>\<open>tries\<close> is never reset, so the message goes through
  exactly when the rejections of all its chunks together stay within
  \<^verbatim>\<open>MAX_SEND_RETRY\<close>.
\<close>

subsection \<open>One chunk, one message\<close>

lemma demo_iter_fail:
  assumes "fail_script l = True # fs"
  shows "\<exists>evs'. send_iter demo_api src dst pk l j =
           (if tries j < MAX_SEND_RETRY
            then Iter_next (l\<lparr>fail_script := fs\<rparr>) (j\<lparr>tries := Suc (tries j)\<rparr>) evs'
            else Iter_done (l\<lparr>fail_script := fs\<rparr>) evs' (Cb_error ''[insight.broadcast]: rejected''))"
  using assms by (simp add: send_iter_def demo_api_def Let_def)

lemma demo_iter_ok:
  assumes "fail_script l = False # fs"
  shows "\<exists>l' evs'. fail_script l' = fs \<and>
           send_iter demo_api src dst pk l j =
             (if int (seq j) = int (length (chunks j)) - 1
              then Iter_done l' evs' (Cb_ok (senttxs j @ [''tx'' @ nat_to_dec (next_id l)]))
              else Iter_next l' (j\<lparr>senttxs := senttxs j @ [''tx'' @ nat_to_dec (next_id l)], seq := Suc (seq j)\<rparr>) evs')"
  using assms by (simp add: send_iter_def demo_api_def Let_def)

lemma demo_chunk_ok:
  assumes "fail_script l = replicate r True @ False # fs"
    and "seq j < length (chunks j)" and "tries j + r \<le> MAX_SEND_RETRY"
  shows "\<exists>l' h evs'. fail_script l' = fs \<and>
           send_loop demo_api src dst pk l j evs =
             (if Suc (seq j) = length (chunks j) then Some (l', evs', Cb_ok (senttxs j @ [h]))
              else send_loop demo_api src dst pk l'
                     (j\<lparr>tries := tries j + r, senttxs := senttxs j @ [h], seq := Suc (seq j)\<rparr>) evs')"
  using assms
proof (induction r arbitrary: l j evs)
  case 0
  let ?h = "''tx'' @ nat_to_dec (next_id l)"
  have f: "fail_script l = False # fs" using "0.prems"(1) by simp
  obtain l' evs' where l': "fail_script l' = fs" and it:
    "send_iter demo_api src dst pk l j =
       (if int (seq j) = int (length (chunks j)) - 1
        then Iter_done l' evs' (Cb_ok (senttxs j @ [?h]))
        else Iter_next l' (j\<lparr>senttxs := senttxs j @ [?h], seq := Suc (seq j)\<rparr>) evs')"
    using demo_iter_ok [OF f, of src dst pk j] by blast
  have "int (seq j) = int (length (chunks j)) - 1 \<longleftrightarrow> Suc (seq j) = length (chunks j)"
    using "0.prems"(2) by linarith
  then show ?case
    using l' it by (auto simp add: send_loop.simps [of demo_api src dst pk l j evs])
next
  case (Suc r)
  have f: "fail_script l = True # (replicate r True @ False # fs)" using Suc.prems(1) by simp
  have lt: "tries j < MAX_SEND_RETRY" using Suc.prems(3) by simp
  obtain evs' where it:
    "send_iter demo_api src dst pk l j =
       Iter_next (l\<lparr>fail_script := replicate r True @ False # fs\<rparr>) (j\<lparr>tries := Suc (tries j)\<rparr>) evs'"
    using demo_iter_fail [OF f, of src dst pk j] lt by auto
  let ?j' = "j\<lparr>tries := Suc (tries j)\<rparr>"
  have "fail_script (l\<lparr>fail_script := replicate r True @ False # fs\<rparr>) = replicate r True @ False # fs"
    and "seq (j\<lparr>tries := Suc (tries j)\<rparr>) < length (chunks (j\<lparr>tries := Suc (tries j)\<rparr>))"
    and "tries (j\<lparr>tries := Suc (tries j)\<rparr>) + r \<le> MAX_SEND_RETRY"
    using Suc.prems by simp_all
  from Suc.IH [OF this, of "evs @ evs'"] obtain l' h evs'' where
    A: "fail_script l' = fs" and
    B: "send_loop demo_api src dst pk (l\<lparr>fail_script := replicate r True @ False # fs\<rparr>) ?j' (evs @ evs') =
       (if Suc (seq ?j') = length (chunks ?j') then Some (l', evs'', Cb_ok (senttxs ?j' @ [h]))
        else send_loop demo_api src dst pk l'
               (?j'\<lparr>tries := tries ?j' + r, senttxs := senttxs ?j' @ [h], seq := Suc (seq ?j')\<rparr>) evs'')"
    by blast
  have "?j'\<lparr>tries := tries ?j' + r, senttxs := senttxs ?j' @ [h], seq := Suc (seq ?j')\<rparr> =
          j\<lparr>tries := tries j + Suc r, senttxs := senttxs j @ [h], seq := Suc (seq j)\<rparr>"
    by simp
  then show ?case
    using A B it by (auto simp add: send_loop.simps [of demo_api src dst pk l j evs])
qed

lemma demo_chunk_fail:
  assumes "fail_script l = replicate r True @ False # fs"
    and "tries j \<le> MAX_SEND_RETRY" and "MAX_SEND_RETRY < tries j + r"
  shows "\<exists>l' evs'. send_loop demo_api src dst pk l j evs =
                    Some (l', evs', Cb_error ''[insight.broadcast]: rejected'')"
  using assms
proof (induction r arbitrary: l j evs)
  case 0
  then show ?case by simp
next
  case (Suc r)
  have f: "fail_script l = True # (replicate r True @ False # fs)" using Suc.prems(1) by simp
  obtain evs' where it:
    "send_iter demo_api src dst pk l j =
       (if tries j < MAX_SEND_RETRY
        then Iter_next (l\<lparr>fail_script := replicate r True @ False # fs\<rparr>) (j\<lparr>tries := Suc (tries j)\<rparr>) evs'
        else Iter_done (l\<lparr>fail_script := replicate r True @ False # fs\<rparr>) evs' (Cb_error ''[insight.broadcast]: rejected''))"
    using demo_iter_fail [OF f, of src dst pk j] by blast
  show ?case
  proof (cases "tries j < MAX_SEND_RETRY")
    case True
    have "\<exists>l' evs''. send_loop demo_api src dst pk (l\<lparr>fail_script := replicate r True @ False # fs\<rparr>)
                       (j\<lparr>tries := Suc (tries j)\<rparr>) (evs @ evs') =
                     Some (l', evs'', Cb_error ''[insight.broadcast]: rejected'')"
      using Suc.prems True by (intro Suc.IH) simp_all
    then show ?thesis
      using True it by (simp add: send_loop.simps [of demo_api src dst pk l j evs])
  next
    case False
    then show ?thesis
      using it by (simp add: send_loop.simps [of demo_api src dst pk l j evs])
  qed
qed

lemma demo_loop:
  assumes "seq j < length (chunks j)" and "tries j \<le> MAX_SEND_RETRY"
    and "fail_script l = concat (map (\<lambda>k. replicate (f k) True @ [False]) [seq j..<length (chunks j)])"
  shows "\<exists>l' evs' r. send_loop demo_api src dst pk l j evs = Some (l', evs', r) \<and>
           (if tries j + sum_list (map f [seq j..<length (chunks j)]) \<le> MAX_SEND_RETRY
            then \<exists>txs. r = Cb_ok (senttxs j @ txs) \<and> length txs = length (chunks j) - seq j
            else r = Cb_error ''[insight.broadcast]: rejected'')"
  using assms
proof (induction "length (chunks j) - seq j" arbitrary: j l evs rule: less_induct)
  case less
  let ?n = "length (chunks j)"
  let ?rest = "concat (map (\<lambda>k. replicate (f k) True @ [False]) [Suc (seq j)..<?n])"
  have up: "[seq j..<?n] = seq j # [Suc (seq j)..<?n]"
    using less.prems(1) by (simp add: upt_conv_Cons)
  have sc: "fail_script l = replicate (f (seq j)) True @ False # ?rest"
    using less.prems(3) up by simp
  show ?case
  proof (cases "tries j + f (seq j) \<le> MAX_SEND_RETRY")
    case ok: True
    from demo_chunk_ok [OF sc less.prems(1) ok, of src dst pk evs]
    obtain l' h evs' where l': "fail_script l' = ?rest" and
      run: "send_loop demo_api src dst pk l j evs =
              (if Suc (seq j) = ?n then Some (l', evs', Cb_ok (senttxs j @ [h]))
               else send_loop demo_api src dst pk l'
                      (j\<lparr>tries := tries j + f (seq j), senttxs := senttxs j @ [h], seq := Suc (seq j)\<rparr>) evs')"
      by blast
    show ?thesis
    proof (cases "Suc (seq j) = ?n")
      case True
      then show ?thesis using run ok up by simp
    next
      case False
      let ?j' = "j\<lparr>tries := tries j + f (seq j), senttxs := senttxs j @ [h], seq := Suc (seq j)\<rparr>"
      have "\<exists>l'' evs'' r. send_loop demo_api src dst pk l' ?j' evs' = Some (l'', evs'', r) \<and>
              (if tries ?j' + sum_list (map f [seq ?j'..<length (chunks ?j')]) \<le> MAX_SEND_RETRY
               then \<exists>txs. r = Cb_ok (senttxs ?j' @ txs) \<and> length txs = length (chunks ?j') - seq ?j'
               else r = Cb_error ''[insight.broadcast]: rejected'')"
        using less.prems(1) False ok l' by (intro less.hyps) simp_all
      then obtain l'' evs'' r where
        r: "send_loop demo_api src dst pk l' ?j' evs' = Some (l'', evs'', r)" and
        c0: "if tries ?j' + sum_list (map f [seq ?j'..<length (chunks ?j')]) \<le> MAX_SEND_RETRY
               then \<exists>txs. r = Cb_ok (senttxs ?j' @ txs) \<and> length txs = length (chunks ?j') - seq ?j'
               else r = Cb_error ''[insight.broadcast]: rejected''"
        by blast
      have c: "if tries j + f (seq j) + sum_list (map f [Suc (seq j)..<?n]) \<le> MAX_SEND_RETRY
            then \<exists>txs. r = Cb_ok ((senttxs j @ [h]) @ txs) \<and> length txs = ?n - Suc (seq j)
            else r = Cb_error ''[insight.broadcast]: rejected''"
        using c0 by (simp cong: if_cong)
      have len: "Suc (?n - Suc (seq j)) = ?n - seq j" using less.prems(1) False by simp
      show ?thesis
      proof (cases "tries j + f (seq j) + sum_list (map f [Suc (seq j)..<?n]) \<le> MAX_SEND_RETRY")
        case True
        then obtain txs where "r = Cb_ok ((senttxs j @ [h]) @ txs)" and "length txs = ?n - Suc (seq j)"
          using c by auto
        then show ?thesis
          using run r False True up len by (auto intro!: exI [of _ "h # txs"])
      next
        case nok: False
        then show ?thesis using run r False c up by (simp add: add.assoc)
      qed
    qed
  next
    case fail: False
    then have "MAX_SEND_RETRY < tries j + f (seq j)" by simp
    from demo_chunk_fail [OF sc less.prems(2) this, of src dst pk evs]
    obtain l' evs' where "send_loop demo_api src dst pk l j evs = Some (l', evs', Cb_error ''[insight.broadcast]: rejected'')"
      by blast
    then show ?thesis using fail up by auto
  qed
qed

subsection \<open>Properties\<close>

text \<open>
  C15.  The retry budget is shared by all the chunks of a message: against a ledger
  that rejects chunk \<open>k\<close> \<open>f k\<close> times before accepting it, with valid addresses and
  enough funds, the send calls back with one transaction id per chunk exactly when
  the rejections add up to at most \<^verbatim>\<open>MAX_SEND_RETRY\<close>, however they are spread
  over the chunks, and otherwise reports the broadcast error.  The witness has two
  chunks rejected twice each, within the three retries the spec allows per chunk,
  and the send fails.
\<close>

theorem retries_shared_across_chunks:
  assumes "msg \<noteq> []" and "src \<noteq> []" and "dst \<noteq> []"
    and "(MIN_AMOUNT + MIN_FEE) * length (chunkMessage msg MAX_PAYLOAD_SIZE) \<le> b"
  shows "\<exists>l' evs r.
           sendTMMessage demo_api src dst msg pk
             (demo_start (concat (map (\<lambda>k. replicate (f k) True @ [False])
                                      [0..<length (chunkMessage msg MAX_PAYLOAD_SIZE)])) b) =
             Some (l', evs, Called r) \<and>
           (if sum_list (map f [0..<length (chunkMessage msg MAX_PAYLOAD_SIZE)]) \<le> MAX_SEND_RETRY
            then \<exists>txs. r = Cb_ok txs \<and> length txs = length (chunkMessage msg MAX_PAYLOAD_SIZE)
            else r = Cb_error ''[insight.broadcast]: rejected'')"
proof -
  let ?cs = "chunkMessage msg MAX_PAYLOAD_SIZE"
  let ?l = "demo_start (concat (map (\<lambda>k. replicate (f k) True @ [False]) [0..<length ?cs])) b"
  have "?cs \<noteq> []"
    using assms(1) by (rule chunkMessage_nonempty) (simp add: MAX_PAYLOAD_SIZE_def)
  then have "seq (new_job ?cs) < length (chunks (new_job ?cs))" and "tries (new_job ?cs) \<le> MAX_SEND_RETRY"
    and "fail_script ?l = concat (map (\<lambda>k. replicate (f k) True @ [False])
                                   [seq (new_job ?cs)..<length (chunks (new_job ?cs))])"
    by (simp_all add: new_job_def demo_start_def MAX_SEND_RETRY_def)
  from demo_loop [OF this, of src dst pk "[Ev_balance]"]
  obtain l' evs r where run: "send_loop demo_api src dst pk ?l (new_job ?cs) [Ev_balance] = Some (l', evs, r)"
    and c: "if tries (new_job ?cs) + sum_list (map f [seq (new_job ?cs)..<length (chunks (new_job ?cs))]) \<le> MAX_SEND_RETRY
            then \<exists>txs. r = Cb_ok (senttxs (new_job ?cs) @ txs) \<and>
                       length txs = length (chunks (new_job ?cs)) - seq (new_job ?cs)
            else r = Cb_error ''[insight.broadcast]: rejected''"
    by blast
  have "sendTMMessage demo_api src dst msg pk ?l = Some (l', evs, Called r)"
    using assms(2-4) run by (simp add: sendTMMessage_def demo_api_def demo_start_def Let_def)
  moreover have "if sum_list (map f [0..<length ?cs]) \<le> MAX_SEND_RETRY
                 then \<exists>txs. r = Cb_ok txs \<and> length txs = length ?cs
                 else r = Cb_error ''[insight.broadcast]: rejected''"
    using c by (simp add: new_job_def cong: if_cong)
  ultimately show ?thesis by blast
qed

theorem retries_shared_across_chunks_witness:
  "\<exists>l' evs. sendTMMessage demo_api ''A'' ''B'' (replicate 80 (CHR ''a'')) ''k''
              (demo_start [True, True, False, True, True, False] 100000) =
      Some (l', evs, Called (Cb_error ''[insight.broadcast]: rejected''))"
proof -
  have n: "length (chunkMessage (replicate 80 (CHR ''a'')) MAX_PAYLOAD_SIZE) = 2"
    by (simp add: length_chunkMessage MAX_PAYLOAD_SIZE_def)
  show ?thesis
    using retries_shared_across_chunks [of "replicate 80 (CHR ''a'')" "''A''" "''B''" 100000 "''k''" "\<lambda>_. 2"] n
    by (simp add: tx_constants numeral_2_eq_2 MAX_SEND_RETRY_def)
qed

end
